(* ===== verification/Prelude.thy ===== *)
theory Prelude
  imports Main "HOL-Library.Word" "HOL-Library.Finite_Map" "HOL-Library.Sublist"
    "HOL-Library.Multiset"
    "HOL-Library.Char_ord" "HOL-Library.List_Lexorder" "HOL-Library.State_Monad"
begin

text \<open>
  The part of the Go language and of its standard library that the operator uses, shared by
  every component theory: byte strings, \<^verbatim>\<open>strings\<close>, \<^verbatim>\<open>sort\<close>, \<^verbatim>\<open>strconv\<close>, \<^verbatim>\<open>fmt\<close>
  formatting, Go maps with their \<^verbatim>\<open>nil\<close> value, and error values. A Go string is a list of
  bytes (\<open>char\<close>); an \<^verbatim>\<open>int32\<close> is a \<open>32 word\<close> read with \<open>sint\<close>; a pointer is an
  \<open>option\<close>; a slice is a list (a nil slice and an empty one behave alike in every operation
  the operator performs on them).
\<close>

section \<open>Collections of facts\<close>

named_theorems go_simps \<open>defining equations of the Go library functions\<close>
named_theorems model_defs \<open>definitions of the operator, unfolded to evaluate them\<close>

section \<open>Types shared by the components\<close>

type_synonym int32 = "32 word"
type_synonym int64 = "64 word"
type_synonym uint64 = "64 word"
type_synonym time = int
type_synonym gomap = "(string, string) fmap option"

text \<open>
  Errors are values. \<open>NotFoundErr\<close> is an error for which \<^verbatim>\<open>apierrors.IsNotFound\<close> holds,
  \<open>ApiErr\<close> any other error of the API client, \<open>Errorf\<close> an error the operator builds with
  \<^verbatim>\<open>fmt.Errorf\<close>. \<open>NilDeref\<close> is the run-time panic of a nil pointer dereference.
\<close>

datatype error = NotFoundErr string | ApiErr string | Errorf string | NilDeref

fun Error :: "error \<Rightarrow> string" where
  "Error (NotFoundErr m) = m"
| "Error (ApiErr m) = m"
| "Error (Errorf m) = m"
| "Error NilDeref = ''runtime error: invalid memory address or nil pointer dereference''"

fun IsNotFound :: "error \<Rightarrow> bool" where
  "IsNotFound (NotFoundErr m) = True"
| "IsNotFound e = False"

text \<open>Computations over a state: the two operations of the monad under short names.\<close>

abbreviation ret :: "'a \<Rightarrow> ('w, 'a) state" where
  "ret \<equiv> State_Monad.return"

abbreviation bnd :: "('w, 'a) state \<Rightarrow> ('a \<Rightarrow> ('w, 'b) state) \<Rightarrow> ('w, 'b) state" where
  "bnd \<equiv> State_Monad.bind"

section \<open>Package strings and package sort\<close>

fun strings_Join :: "string list \<Rightarrow> string \<Rightarrow> string" where
  "strings_Join [] sep = []"
| "strings_Join [x] sep = x"
| "strings_Join (x # y # xs) sep = x @ sep @ strings_Join (y # xs) sep"

definition strings_Repeat :: "string \<Rightarrow> nat \<Rightarrow> string" where
  "strings_Repeat s n = concat (replicate n s)"

text \<open>The byte index of the first occurrence of \<open>sub\<close>, or \<open>-1\<close>.\<close>

fun strings_Index :: "string \<Rightarrow> string \<Rightarrow> int" where
  "strings_Index [] sub = (if sub = [] then 0 else -1)"
| "strings_Index (c # s) sub =
     (if prefix sub (c # s) then 0
      else let r = strings_Index s sub in if r < 0 then -1 else r + 1)"

text \<open>
  \<^verbatim>\<open>strings.TrimSpace\<close> strips the runes with Unicode's \<^verbatim>\<open>White_Space\<close> property; the list
  holds their UTF-8 encodings.
\<close>

definition space_runes :: "string list" where
  "space_runes =
     [[CHR 0x09], [CHR 0x0A], [CHR 0x0B], [CHR 0x0C], [CHR 0x0D], [CHR 0x20],
      [CHR 0xC2, CHR 0x85], [CHR 0xC2, CHR 0xA0], [CHR 0xE1, CHR 0x9A, CHR 0x80]]
     @ map (\<lambda>c. [CHR 0xE2, CHR 0x80, c])
         [CHR 0x80, CHR 0x81, CHR 0x82, CHR 0x83, CHR 0x84, CHR 0x85, CHR 0x86, CHR 0x87,
          CHR 0x88, CHR 0x89, CHR 0x8A, CHR 0xA8, CHR 0xA9, CHR 0xAF]
     @ [[CHR 0xE2, CHR 0x81, CHR 0x9F], [CHR 0xE3, CHR 0x80, CHR 0x80]]"

function trim_prefixes :: "string list \<Rightarrow> string \<Rightarrow> string" where
  "trim_prefixes rs s =
     (case find (\<lambda>r. r \<noteq> [] \<and> prefix r s) rs of
        None \<Rightarrow> s
      | Some r \<Rightarrow> trim_prefixes rs (drop (length r) s))"
  by pat_completeness auto
termination
proof (relation "measure (\<lambda>(rs, s). length s)", simp)
  fix rs s r
  assume "find (\<lambda>r. r \<noteq> [] \<and> prefix r s) rs = Some r"
  then have "r \<noteq> []" "prefix r s" by (auto simp: find_Some_iff)
  then have "0 < length r" "length r \<le> length s" by (auto dest: prefix_length_le)
  moreover from this have "0 < length s" by linarith
  ultimately show "((rs, drop (length r) s), rs, s) \<in> measure (\<lambda>(rs, s). length s)" by simp
qed

declare trim_prefixes.simps [simp del]

definition strings_TrimSpace :: "string \<Rightarrow> string" where
  "strings_TrimSpace s =
     rev (trim_prefixes (map rev space_runes) (rev (trim_prefixes space_runes s)))"

definition sort_Strings :: "string list \<Rightarrow> string list" where
  "sort_Strings xs = sort xs"

section \<open>Decimal digits, package strconv, formatting verbs\<close>

definition is_digit :: "char \<Rightarrow> bool" where
  "is_digit c \<longleftrightarrow> 48 \<le> (of_char c :: nat) \<and> (of_char c :: nat) \<le> 57"

definition digit_val :: "char \<Rightarrow> nat" where
  "digit_val c = of_char c - 48"

definition digit_char :: "nat \<Rightarrow> char" where
  "digit_char d = char_of (48 + d)"

text \<open>The value of a digit string, most significant digit first.\<close>

fun decval :: "string \<Rightarrow> nat" where
  "decval [] = 0"
| "decval (c # s) = digit_val c * 10 ^ length s + decval s"

definition digits :: "string \<Rightarrow> bool" where
  "digits s \<longleftrightarrow> list_all is_digit s"

fun Itoa :: "nat \<Rightarrow> string" where
  "Itoa n = (if n < 10 then [digit_char n] else Itoa (n div 10) @ [digit_char (n mod 10)])"

declare Itoa.simps [simp del]

definition Itoa_int :: "int \<Rightarrow> string" where
  "Itoa_int i = (if i < 0 then ''-'' @ Itoa (nat (- i)) else Itoa (nat i))"

definition hex_digit :: "nat \<Rightarrow> char" where
  "hex_digit d = (if d < 10 then char_of (48 + d) else char_of (87 + d))"

text \<open>The verb \<^verbatim>\<open>%0nx\<close> for a number below \<open>16 ^ n\<close>: exactly \<open>n\<close> hexadecimal digits.\<close>

fun hex_fixed :: "nat \<Rightarrow> nat \<Rightarrow> string" where
  "hex_fixed 0 x = []"
| "hex_fixed (Suc n) x = hex_fixed n (x div 16) @ [hex_digit (x mod 16)]"

text \<open>
  The verb \<^verbatim>\<open>%q\<close>. Exact on ASCII; a byte of a multi-byte rune is kept, as Go keeps the
  printable ones.
\<close>

definition quote_char :: "char \<Rightarrow> string" where
  "quote_char c =
     (let n = of_char c :: nat; bs = [CHR 0x5C] in
      if n = 0x22 then bs @ [c] else if n = 0x5C then bs @ bs
      else if n = 7 then bs @ ''a'' else if n = 8 then bs @ ''b'' else if n = 9 then bs @ ''t''
      else if n = 10 then bs @ ''n'' else if n = 11 then bs @ ''v'' else if n = 12 then bs @ ''f''
      else if n = 13 then bs @ ''r''
      else if n < 32 \<or> n = 127 then bs @ ''x'' @ hex_fixed 2 n else [c])"

definition go_quote :: "string \<Rightarrow> string" where
  "go_quote s = [CHR 0x22] @ concat (map quote_char s) @ [CHR 0x22]"

datatype num_error = ErrSyntax | ErrRange

fun num_error_text :: "num_error \<Rightarrow> string" where
  "num_error_text ErrSyntax = ''invalid syntax''"
| "num_error_text ErrRange = ''value out of range''"

text \<open>
  \<^verbatim>\<open>strconv.ParseUint(s, 10, 64)\<close>: the value and the error. A syntax error gives 0, an
  overflow gives the largest \<^verbatim>\<open>uint64\<close>, whatever the rest of the string holds.
\<close>

fun parse_uint_loop :: "string \<Rightarrow> uint64 \<Rightarrow> uint64 \<times> num_error option" where
  "parse_uint_loop [] n = (n, None)"
| "parse_uint_loop (c # s) n =
     (if \<not> is_digit c then (0, Some ErrSyntax)
      else if n \<ge> 1844674407370955162 then (- 1, Some ErrRange)
      else let n' = n * 10; n1 = n' + of_nat (digit_val c) in
        if n1 < n' then (- 1, Some ErrRange) else parse_uint_loop s n1)"

definition ParseUint :: "string \<Rightarrow> uint64 \<times> num_error option" where
  "ParseUint s = (if s = [] then (0, Some ErrSyntax) else parse_uint_loop s 0)"

definition num_error_Error :: "string \<Rightarrow> num_error \<Rightarrow> string" where
  "num_error_Error s e = ''strconv.ParseUint: parsing '' @ go_quote s @ '': '' @ num_error_text e"

section \<open>Go maps\<close>

text \<open>\<open>None\<close> is the nil map: reading it finds no key, and its length is 0.\<close>

definition gomap_lookup :: "gomap \<Rightarrow> string \<Rightarrow> string option" where
  "gomap_lookup m k = (case m of None \<Rightarrow> None | Some f \<Rightarrow> fmlookup f k)"

definition gomap_empty :: "gomap \<Rightarrow> bool" where
  "gomap_empty m \<longleftrightarrow> (case m of None \<Rightarrow> True | Some f \<Rightarrow> f = fmempty)"

text \<open>The index expression \<open>m[k]\<close>: the zero value, an empty string, when there is no entry.\<close>

definition gomap_index :: "gomap \<Rightarrow> string \<Rightarrow> string" where
  "gomap_index m k = (case gomap_lookup m k of None \<Rightarrow> [] | Some v \<Rightarrow> v)"

definition gomap_lit :: "(string \<times> string) list \<Rightarrow> gomap" where
  "gomap_lit kvs = Some (fmap_of_list kvs)"

section \<open>Lemmas\<close>

lemma gomap_lookup_None [simp]: "gomap_lookup None k = None"
  by (simp add: gomap_lookup_def)

lemma gomap_lookup_Some [simp]: "gomap_lookup (Some f) k = fmlookup f k"
  by (simp add: gomap_lookup_def)

lemma gomap_empty_iff: "gomap_empty m \<longleftrightarrow> (\<forall>k. gomap_lookup m k = None)"
proof (cases m)
  case (Some f)
  have "f = fmempty \<longleftrightarrow> (\<forall>k. fmlookup f k = None)"
    by (metis fmempty_lookup fmap_ext)
  with Some show ?thesis by (simp add: gomap_empty_def)
qed (simp add: gomap_empty_def)

lemma trim_prefixes_Nil [simp]: "trim_prefixes rs [] = []"
proof -
  have "find (\<lambda>r. r \<noteq> [] \<and> prefix r []) rs = None" by (auto simp: find_None_iff)
  then show ?thesis by (subst trim_prefixes.simps) simp
qed

lemma TrimSpace_Nil [simp]: "strings_TrimSpace [] = []"
  by (simp add: strings_TrimSpace_def)

lemma set_sort_Strings [simp]: "set (sort_Strings xs) = set xs"
  by (simp add: sort_Strings_def)

lemma sort_Strings_eq_iff: "sort_Strings xs = sort_Strings ys \<longleftrightarrow> mset xs = mset ys"
  unfolding sort_Strings_def
  by (metis mset_sort properties_for_sort sorted_sort)

subsection \<open>Digits\<close>

lemma is_digit_digit_char: "d < 10 \<Longrightarrow> is_digit (digit_char d)"
  by (simp add: is_digit_def digit_char_def)

lemma digit_val_digit_char: "d < 10 \<Longrightarrow> digit_val (digit_char d) = d"
  by (simp add: digit_val_def digit_char_def)

lemma digit_char_digit_val: "is_digit c \<Longrightarrow> digit_char (digit_val c) = c"
  by (simp add: is_digit_def digit_val_def digit_char_def)

lemma digit_val_less: "is_digit c \<Longrightarrow> digit_val c < 10"
  by (auto simp: is_digit_def digit_val_def)

lemma digit_val_inject: "is_digit c \<Longrightarrow> is_digit d \<Longrightarrow> digit_val c = digit_val d \<longleftrightarrow> c = d"
  by (metis digit_char_digit_val)

lemma digit_le_iff: "is_digit c \<Longrightarrow> is_digit d \<Longrightarrow> c \<le> d \<longleftrightarrow> digit_val c \<le> digit_val d"
  by (auto simp: is_digit_def digit_val_def less_eq_char_def)

lemma digits_simps [simp]:
  "digits []" "digits (c # s) \<longleftrightarrow> is_digit c \<and> digits s" "digits (s @ t) \<longleftrightarrow> digits s \<and> digits t"
  by (simp_all add: digits_def)

lemma digits_replicate: "is_digit c \<Longrightarrow> digits (replicate n c)"
  by (induction n) auto

lemma decval_append: "decval (s @ t) = decval s * 10 ^ length t + decval t"
  by (induction s) (auto simp: algebra_simps power_add)

lemma decval_less: "digits s \<Longrightarrow> decval s < 10 ^ length s"
proof (induction s)
  case (Cons c s)
  then have "digit_val c * 10 ^ length s + decval s < digit_val c * 10 ^ length s + 10 ^ length s"
    by simp
  also have "\<dots> = (digit_val c + 1) * 10 ^ length s" by (simp add: algebra_simps)
  also have "\<dots> \<le> 10 * 10 ^ length s"
    using Cons.prems digit_val_less [of c] by (intro mult_le_mono1) simp
  finally show ?case by simp
qed simp

lemma Itoa_not_Nil [simp]: "Itoa n \<noteq> []"
  by (subst Itoa.simps) simp

lemma digits_Itoa [simp]: "digits (Itoa n)"
proof (induction n rule: Itoa.induct)
  case (1 n)
  then show ?case by (subst Itoa.simps) (auto simp: is_digit_digit_char)
qed

lemma decval_Itoa [simp]: "decval (Itoa n) = n"
proof (induction n rule: Itoa.induct)
  case (1 n)
  then show ?case
    by (subst Itoa.simps) (auto simp: digit_val_digit_char decval_append)
qed

lemma takeWhile_digits: "digits s \<Longrightarrow> \<not> is_digit c \<Longrightarrow> takeWhile is_digit (s @ c # t) = s"
  by (induction s) auto

subsection \<open>ParseUint\<close>

text \<open>On a digit string whose value fits, the parser returns the value and no error.\<close>

lemma parse_uint_loop_digits:
  "digits s \<Longrightarrow> unat n * 10 ^ length s + decval s < 2 ^ 64 \<Longrightarrow>
   parse_uint_loop s n = (of_nat (unat n * 10 ^ length s + decval s), None)"
proof (induction s arbitrary: n)
  case (Cons c s)
  let ?d = "digit_val c"
  have tens: "10 ^ length (c # s) = 10 * (10 ^ length s :: nat)" by simp
  have "unat n * 10 + ?d \<le> (unat n * 10 + ?d) * 10 ^ length s + decval s"
    by (metis le_add1 le_trans mult.right_neutral mult_le_mono2 one_le_numeral one_le_power)
  also have bound: "\<dots> = unat n * 10 ^ length (c # s) + decval (c # s)"
    by (simp add: algebra_simps)
  finally have fits: "unat n * 10 + ?d < 2 ^ 64" using Cons.prems(2) by linarith
  have m: "unat (n * 10) = unat n * 10"
    using fits by (simp add: unat_word_ariths)
  have m1: "unat (n * 10 + of_nat ?d) = unat n * 10 + ?d"
    using fits m by (simp add: unat_word_ariths unat_of_nat)
  have "\<not> 1844674407370955162 \<le> n" using fits by (simp add: word_le_nat_alt)
  moreover have "\<not> n * 10 + of_nat ?d < n * 10" using m m1 by (simp add: word_less_nat_alt)
  ultimately have step: "parse_uint_loop (c # s) n = parse_uint_loop s (n * 10 + of_nat ?d)"
    using Cons.prems(1) by (simp add: Let_def)
  have "parse_uint_loop s (n * 10 + of_nat ?d) =
      (of_nat (unat (n * 10 + of_nat ?d) * 10 ^ length s + decval s), None)"
    by (rule Cons.IH) (use Cons.prems bound m1 in auto)
  then show ?case unfolding step m1 bound .
qed simp

lemma ParseUint_digits:
  assumes "digits s" "s \<noteq> []" "decval s < 2 ^ 64"
  shows "ParseUint s = (of_nat (decval s), None)"
  using parse_uint_loop_digits [of s 0] assms by (simp add: ParseUint_def)

lemma parse_uint_loop_None:
  "parse_uint_loop s n = (v, None) \<Longrightarrow>
   digits s \<and> unat n * 10 ^ length s + decval s < 2 ^ 64"
proof (induction s arbitrary: n)
  case Nil
  have "unat n < 2 ^ 64" using unsigned_less [of n, where 'a = nat] by simp
  then show ?case by simp
next
  case (Cons c s)
  let ?n1 = "n * 10 + of_nat (digit_val c)"
  from Cons.prems have c: "is_digit c" and small: "n < 1844674407370955162"
    and no_wrap: "\<not> ?n1 < n * 10" and rest: "parse_uint_loop s ?n1 = (v, None)"
    by (auto simp: Let_def not_le split: if_splits)
  have "unat n < 1844674407370955162" using small by (simp add: word_less_nat_alt)
  then have m: "unat (n * 10) = unat n * 10" by (simp add: unat_word_ariths)
  have d: "unat (of_nat (digit_val c) :: uint64) = digit_val c"
    using digit_val_less [OF c] by (simp add: unat_of_nat)
  have "unat ?n1 = unat n * 10 + digit_val c"
  proof (cases "unat n * 10 + digit_val c < 2 ^ 64")
    case True
    then show ?thesis using m d by (simp add: unat_word_ariths)
  next
    case False
    then have "unat ?n1 = unat n * 10 + digit_val c - 2 ^ 64"
      using m d \<open>unat n < _\<close> digit_val_less [OF c]
      by (simp add: unat_word_ariths mod_if)
    with no_wrap m digit_val_less [OF c] False show ?thesis by (simp add: word_less_nat_alt)
  qed
  with Cons.IH [OF rest] c show ?case by (simp add: algebra_simps)
qed

lemma ParseUint_None:
  "ParseUint s = (v, None) \<longleftrightarrow> digits s \<and> s \<noteq> [] \<and> decval s < 2 ^ 64 \<and> v = of_nat (decval s)"
proof
  assume parse: "ParseUint s = (v, None)"
  then have "s \<noteq> []" "digits s \<and> decval s < 2 ^ 64"
    using parse_uint_loop_None [of s 0 v] by (auto simp: ParseUint_def split: if_splits)
  with parse ParseUint_digits [of s] show
    "digits s \<and> s \<noteq> [] \<and> decval s < 2 ^ 64 \<and> v = of_nat (decval s)" by simp
qed (auto simp: ParseUint_digits)

end
