(* ===== verification/Regexp.thy ===== *)
theory Regexp
  imports Prelude
begin

text \<open>
  Package \<^verbatim>\<open>regexp\<close> as the operator uses it: \<^verbatim>\<open>regexp.QuoteMeta\<close>, and the meaning of the
  pattern strings the placement compiler emits. A pattern string is lexed and parsed into a
  regular expression, and the expression is matched against a subject; \<open>full_match\<close> is the
  whole-subject match of a gateway data plane, \<open>search_match\<close> the unanchored search of Go's
  \<^verbatim>\<open>MatchString\<close>. The parser covers the RE2 syntax that occurs in emitted patterns: literal
  bytes, escaped punctuation, \<^verbatim>\<open>\d\<close>, \<^verbatim>\<open>.\<close>, a class of one range \<^verbatim>\<open>[a-b]\<close>, \<^verbatim>\<open>{n}\<close>, the
  operators \<^verbatim>\<open>*\<close>, \<^verbatim>\<open>+\<close>, \<^verbatim>\<open>?\<close> and \<^verbatim>\<open>|\<close>, groups (capturing, non-capturing and named) and the
  anchors; every other string has no parse and matches nothing. A quantifier directly after a
  quantifier is refused, as Go refuses it.
\<close>

section \<open>QuoteMeta\<close>

abbreviation backslash :: char where "backslash \<equiv> CHR 0x5C"

definition special :: "char \<Rightarrow> bool" where
  "special c \<longleftrightarrow> c \<in> set (backslash # ''.+*?()|[]{}^$'')"

definition QuoteMeta :: "string \<Rightarrow> string" where
  "QuoteMeta s = concat (map (\<lambda>c. if special c then [backslash, c] else [c]) s)"

lemma QuoteMeta_Nil [simp]: "QuoteMeta [] = []"
  by (simp add: QuoteMeta_def)

lemma QuoteMeta_append: "QuoteMeta (s @ t) = QuoteMeta s @ QuoteMeta t"
  by (simp add: QuoteMeta_def)

section \<open>Expressions and matching\<close>

datatype re = Eps | Lit char | Dot | Digit | Class char char | Caret | Dollar
  | Seq re re | Alt re re | Star re | Rep re nat | Grp re

text \<open>
  \<open>matches r b e s\<close>: \<open>r\<close> matches exactly \<open>s\<close>, where \<open>b\<close> says that \<open>s\<close> starts at the
  beginning of the subject and \<open>e\<close> that it stops at its end.
\<close>

function matches :: "re \<Rightarrow> bool \<Rightarrow> bool \<Rightarrow> string \<Rightarrow> bool" where
  "matches Eps b e s = (s = [])"
| "matches (Lit c) b e s = (s = [c])"
| "matches Dot b e s = (case s of [c] \<Rightarrow> c \<noteq> CHR 0x0A | _ \<Rightarrow> False)"
| "matches Digit b e s = (case s of [c] \<Rightarrow> is_digit c | _ \<Rightarrow> False)"
| "matches (Class lo hi) b e s = (case s of [c] \<Rightarrow> lo \<le> c \<and> c \<le> hi | _ \<Rightarrow> False)"
| "matches Caret b e s = (s = [] \<and> b)"
| "matches Dollar b e s = (s = [] \<and> e)"
| "matches (Seq r q) b e s =
     (\<exists>i\<in>set [0..<Suc (length s)].
        matches r b (e \<and> i = length s) (take i s) \<and> matches q (b \<and> i = 0) e (drop i s))"
| "matches (Alt r q) b e s = (matches r b e s \<or> matches q b e s)"
| "matches (Star r) b e s =
     (s = [] \<or> (\<exists>i\<in>set [1..<Suc (length s)].
        matches r b (e \<and> i = length s) (take i s) \<and> matches (Star r) False e (drop i s)))"
| "matches (Rep r 0) b e s = (s = [])"
| "matches (Rep r (Suc n)) b e s =
     (\<exists>i\<in>set [0..<Suc (length s)].
        matches r b (e \<and> i = length s) (take i s) \<and> matches (Rep r n) (b \<and> i = 0) e (drop i s))"
| "matches (Grp r) b e s = matches r b e s"
  by pat_completeness auto
termination
  by (relation "measures [\<lambda>(r, b, e, s). size r, \<lambda>(r, b, e, s). case r of Rep _ n \<Rightarrow> n | _ \<Rightarrow> 0,
        \<lambda>(r, b, e, s). length s]") auto

declare matches.simps(8,10,12) [simp del]

lemma split_at_iff:
  "(\<exists>i\<in>set [k..<Suc (length s)]. P (i = length s) (i = 0) (take i s) (drop i s)) \<longleftrightarrow>
   (\<exists>u v. s = u @ v \<and> k \<le> length u \<and> P (v = []) (u = []) u v)" (is "?l \<longleftrightarrow> ?r")
proof
  assume ?l
  then obtain i where mem: "i \<in> set [k..<Suc (length s)]"
    and P: "P (i = length s) (i = 0) (take i s) (drop i s)" by (rule bexE)
  from mem have i: "k \<le> i" "i \<le> length s" by auto
  moreover have "(i = length s) = (drop i s = [])" "(i = 0) = (take i s = [])" using i by auto
  ultimately have "s = take i s @ drop i s \<and> k \<le> length (take i s) \<and>
      P (drop i s = []) (take i s = []) (take i s) (drop i s)" using P by simp
  then show ?r by blast
next
  assume ?r
  then obtain u v where "s = u @ v" "k \<le> length u" "P (v = []) (u = []) u v" by blast
  then show ?l by (intro bexI [of _ "length u"]) auto
qed

lemma matches_Seq:
  "matches (Seq r q) b e s \<longleftrightarrow>
     (\<exists>u v. s = u @ v \<and> matches r b (e \<and> v = []) u \<and> matches q (b \<and> u = []) e v)"
  unfolding matches.simps(8)
  using split_at_iff [of 0 s "\<lambda>x y u v. matches r b (e \<and> x) u \<and> matches q (b \<and> y) e v"] by simp

lemma matches_Star:
  "matches (Star r) b e s \<longleftrightarrow>
     s = [] \<or> (\<exists>u v. s = u @ v \<and> 1 \<le> length u \<and> matches r b (e \<and> v = []) u \<and>
       matches (Star r) False e v)"
  unfolding matches.simps(10) [of r b e s]
  using split_at_iff [of 1 s "\<lambda>x y u v. matches r b (e \<and> x) u \<and> matches (Star r) False e v"] by simp

lemma matches_Rep_Suc:
  "matches (Rep r (Suc n)) b e s \<longleftrightarrow>
     (\<exists>u v. s = u @ v \<and> matches r b (e \<and> v = []) u \<and> matches (Rep r n) (b \<and> u = []) e v)"
  unfolding matches.simps(12)
  using split_at_iff [of 0 s "\<lambda>x y u v. matches r b (e \<and> x) u \<and> matches (Rep r n) (b \<and> y) e v"]
  by simp

lemma matches_single:
  "matches Dot b e s \<longleftrightarrow> (\<exists>c. s = [c] \<and> c \<noteq> CHR 0x0A)"
  "matches Digit b e s \<longleftrightarrow> (\<exists>c. s = [c] \<and> is_digit c)"
  "matches (Class lo hi) b e s \<longleftrightarrow> (\<exists>c. s = [c] \<and> lo \<le> c \<and> c \<le> hi)"
  by (auto split: list.splits)

declare matches.simps(3,4,5) [simp del]

lemma split_single_iff:
  "(\<exists>u v. s = u @ v \<and> (\<exists>c. u = [c] \<and> P c) \<and> Q u v) \<longleftrightarrow> (\<exists>c v. s = c # v \<and> P c \<and> Q [c] v)"
  (is "?l \<longleftrightarrow> ?r")
proof
  assume ?r
  then obtain c v where "s = [c] @ v \<and> (\<exists>d. [c] = [d] \<and> P d) \<and> Q [c] v" by auto
  then show ?l by blast
qed auto

lemma matches_Star_Dot: "matches (Star Dot) b e s \<longleftrightarrow> CHR 0x0A \<notin> set s"
proof (induction s arbitrary: b)
  case Nil
  then show ?case by (subst matches_Star) simp
next
  case (Cons c s)
  have len: "1 \<le> length u \<and> (\<exists>d. u = [d] \<and> P d) \<and> Q \<longleftrightarrow> (\<exists>d. u = [d] \<and> P d) \<and> Q"
    for u :: string and P Q by auto
  have "matches (Star Dot) b e (c # s) \<longleftrightarrow>
      (\<exists>u v. c # s = u @ v \<and> (\<exists>d. u = [d] \<and> d \<noteq> CHR 0x0A) \<and> matches (Star Dot) False e v)"
    by (simp only: matches_Star [of Dot b e "c # s"] matches_single list.distinct simp_thms len)
  also have "\<dots> \<longleftrightarrow> c \<noteq> CHR 0x0A \<and> matches (Star Dot) False e s"
    by (simp only: split_single_iff) auto
  finally have "matches (Star Dot) b e (c # s) \<longleftrightarrow> c \<noteq> CHR 0x0A \<and> matches (Star Dot) False e s" .
  with Cons.IH [of False] show ?case by auto
qed

lemma matches_Rep_Digit: "matches (Rep Digit n) b e s \<longleftrightarrow> digits s \<and> length s = n"
proof (induction n arbitrary: b s)
  case (Suc n)
  have "matches (Rep Digit (Suc n)) b e s \<longleftrightarrow> (\<exists>c v. s = c # v \<and> is_digit c \<and> digits v \<and> length v = n)"
    by (simp only: matches_Rep_Suc matches_single Suc.IH split_single_iff)
  then show ?case by (cases s) (auto simp: digits_def)
qed (auto simp: digits_def)

section \<open>Lexing and parsing pattern strings\<close>

datatype tok = TChar char | TDot | TDigit | TClass char char | TCaret | TDollar
  | TBar | TOpen | TClose | TStar | TPlus | TQuest | TRep nat

definition is_alnum :: "char \<Rightarrow> bool" where
  "is_alnum c \<longleftrightarrow> is_digit c \<or> (CHR ''a'' \<le> c \<and> c \<le> CHR ''z'') \<or> (CHR ''A'' \<le> c \<and> c \<le> CHR ''Z'')"

text \<open>A backslash before an ASCII byte that is no letter and no digit makes it literal.\<close>

definition escapable :: "char \<Rightarrow> bool" where
  "escapable c \<longleftrightarrow> (of_char c :: nat) < 128 \<and> \<not> is_alnum c"

definition word_char :: "char \<Rightarrow> bool" where
  "word_char c \<longleftrightarrow> is_alnum c \<or> c = CHR ''_''"

text \<open>The opening of a group after its parenthesis: what follows it, or no parse.\<close>

fun group_open :: "string \<Rightarrow> string option" where
  "group_open s =
     (if prefix ''?:'' s then Some (drop 2 s)
      else if prefix ''?P<'' s then
        (let t = drop 3 s; n = takeWhile word_char t; u = drop (length n) t in
         if n \<noteq> [] \<and> prefix ''>'' u then Some (drop 1 u) else None)
      else if prefix ''?'' s then None else Some s)"

text \<open>A repetition count after its brace; counts above 1000 are refused.\<close>

fun rep_count :: "string \<Rightarrow> (nat \<times> string) option" where
  "rep_count s =
     (let n = takeWhile is_digit s; u = drop (length n) s in
      if n \<noteq> [] \<and> prefix ''}'' u \<and> decval n \<le> 1000 then Some (decval n, drop 1 u) else None)"

lemma group_open_length: "group_open s = Some t \<Longrightarrow> length t \<le> length s"
  by (auto simp: Let_def split: if_splits)

lemma rep_count_length: "rep_count s = Some (n, t) \<Longrightarrow> length t \<le> length s"
  by (auto simp: Let_def split: if_splits)

declare group_open.simps [simp del] rep_count.simps [simp del]

function lex :: "string \<Rightarrow> tok list option" where
  "lex [] = Some []"
| "lex (c # s) =
     (if c = backslash then
        (case s of [] \<Rightarrow> None
         | d # t \<Rightarrow> if d = CHR ''d'' then map_option ((#) TDigit) (lex t)
                   else if escapable d then map_option ((#) (TChar d)) (lex t) else None)
      else if c = CHR ''('' then
        (case group_open s of None \<Rightarrow> None | Some t \<Rightarrow> map_option ((#) TOpen) (lex t))
      else if c = CHR ''{'' then
        (case rep_count s of None \<Rightarrow> None | Some (n, t) \<Rightarrow> map_option ((#) (TRep n)) (lex t))
      else if c = CHR ''['' then
        (case s of a # d # b # z # t \<Rightarrow>
             if word_char a \<and> d = CHR ''-'' \<and> word_char b \<and> a \<le> b \<and> z = CHR '']''
             then map_option ((#) (TClass a b)) (lex t) else None
         | _ \<Rightarrow> None)
      else if c = CHR '')'' then map_option ((#) TClose) (lex s)
      else if c = CHR ''|'' then map_option ((#) TBar) (lex s)
      else if c = CHR ''.'' then map_option ((#) TDot) (lex s)
      else if c = CHR ''*'' then map_option ((#) TStar) (lex s)
      else if c = CHR ''^'' then map_option ((#) TCaret) (lex s)
      else if c = CHR ''$'' then map_option ((#) TDollar) (lex s)
      else if c = CHR ''+'' then map_option ((#) TPlus) (lex s)
      else if c = CHR ''?'' then map_option ((#) TQuest) (lex s)
      else map_option ((#) (TChar c)) (lex s))"
  by pat_completeness auto
termination
  by (relation "measure length") (auto dest: group_open_length rep_count_length)

type_synonym frame = "re list \<times> re list"

text \<open>
  A frame holds the finished alternatives of the group being parsed and the items of the
  alternative in progress, both last first.
\<close>

definition seqs :: "re list \<Rightarrow> re" where
  "seqs rs = foldr Seq rs Eps"

fun alts :: "re list \<Rightarrow> re" where
  "alts [] = Eps"
| "alts [r] = r"
| "alts (r # q # rs) = Alt r (alts (q # rs))"

definition close_frame :: "frame \<Rightarrow> re" where
  "close_frame f = alts (rev (seqs (rev (snd f)) # fst f))"

fun repeatable :: "re \<Rightarrow> bool" where
  "repeatable (Star r) = False"
| "repeatable (Rep r n) = False"
| "repeatable (Seq r q) = False"
| "repeatable (Alt r q) = False"
| "repeatable Caret = False"
| "repeatable Dollar = False"
| "repeatable r = True"

fun build :: "tok list \<Rightarrow> frame list \<Rightarrow> frame \<Rightarrow> re option" where
  "build [] [] f = Some (close_frame f)"
| "build [] (g # st) f = None"
| "build (TChar c # ts) st (a, cur) = build ts st (a, Lit c # cur)"
| "build (TDot # ts) st (a, cur) = build ts st (a, Dot # cur)"
| "build (TDigit # ts) st (a, cur) = build ts st (a, Digit # cur)"
| "build (TClass x y # ts) st (a, cur) = build ts st (a, Class x y # cur)"
| "build (TCaret # ts) st (a, cur) = build ts st (a, Caret # cur)"
| "build (TDollar # ts) st (a, cur) = build ts st (a, Dollar # cur)"
| "build (TBar # ts) st (a, cur) = build ts st (seqs (rev cur) # a, [])"
| "build (TOpen # ts) st (a, cur) = build ts ((a, cur) # st) ([], [])"
| "build (TClose # ts) [] f = None"
| "build (TClose # ts) ((a', cur') # st) f = build ts st (a', Grp (close_frame f) # cur')"
| "build (TStar # ts) st (a, []) = None"
| "build (TStar # ts) st (a, r # cur) =
     (if repeatable r then build ts st (a, Star r # cur) else None)"
| "build (TPlus # ts) st (a, []) = None"
| "build (TPlus # ts) st (a, r # cur) =
     (if repeatable r then build ts st (a, Seq r (Star r) # cur) else None)"
| "build (TQuest # ts) st (a, []) = None"
| "build (TQuest # ts) st (a, r # cur) =
     (if repeatable r then build ts st (a, Alt r Eps # cur) else None)"
| "build (TRep n # ts) st (a, []) = None"
| "build (TRep n # ts) st (a, r # cur) =
     (if repeatable r then build ts st (a, Rep r n # cur) else None)"

definition re_parse :: "string \<Rightarrow> re option" where
  "re_parse p = (case lex p of None \<Rightarrow> None | Some ts \<Rightarrow> build ts [] ([], []))"

definition full_match :: "string \<Rightarrow> string \<Rightarrow> bool" where
  "full_match p s = (case re_parse p of None \<Rightarrow> False | Some r \<Rightarrow> matches r True True s)"

definition search_match :: "string \<Rightarrow> string \<Rightarrow> bool" where
  "search_match p s =
     (case re_parse p of None \<Rightarrow> False
      | Some r \<Rightarrow> \<exists>i\<in>set [0..<Suc (length s)]. \<exists>j\<in>set [i..<Suc (length s)].
          matches r (i = 0) (j = length s) (take (j - i) (drop i s)))"

section \<open>Patterns built from simple items\<close>

text \<open>
  The items the compiler concatenates, their pattern text, their expression and what they
  match. Every alternative the compiler emits is the text of a list of items, so matching an
  emitted pattern is matching one of these lists.
\<close>

datatype item = IChar char | IDigit | IClass char char | IDigits nat | IAny

fun item_str :: "item \<Rightarrow> string" where
  "item_str (IChar c) = QuoteMeta [c]"
| "item_str IDigit = [backslash, CHR ''d'']"
| "item_str (IClass a b) = ''['' @ [a] @ ''-'' @ [b] @ '']''"
| "item_str (IDigits n) = [backslash, CHR ''d'', CHR ''{''] @ Itoa n @ ''}''"
| "item_str IAny = ''.*''"

fun item_toks :: "item \<Rightarrow> tok list" where
  "item_toks (IChar c) = [TChar c]"
| "item_toks IDigit = [TDigit]"
| "item_toks (IClass a b) = [TClass a b]"
| "item_toks (IDigits n) = [TDigit, TRep n]"
| "item_toks IAny = [TDot, TStar]"

fun item_re :: "item \<Rightarrow> re" where
  "item_re (IChar c) = Lit c"
| "item_re IDigit = Digit"
| "item_re (IClass a b) = Class a b"
| "item_re (IDigits n) = Rep Digit n"
| "item_re IAny = Star Dot"

fun item_ok :: "item \<Rightarrow> bool" where
  "item_ok (IClass a b) = (word_char a \<and> word_char b \<and> a \<le> b)"
| "item_ok (IDigits n) = (n \<le> 1000)"
| "item_ok i = True"

fun item_match :: "item \<Rightarrow> string \<Rightarrow> bool" where
  "item_match (IChar c) s = (s = [c])"
| "item_match IDigit s = (\<exists>c. s = [c] \<and> is_digit c)"
| "item_match (IClass a b) s = (\<exists>c. s = [c] \<and> a \<le> c \<and> c \<le> b)"
| "item_match (IDigits n) s = (digits s \<and> length s = n)"
| "item_match IAny s = (CHR 0x0A \<notin> set s)"

abbreviation items_str :: "item list \<Rightarrow> string" where
  "items_str is \<equiv> concat (map item_str is)"

fun items_match :: "item list \<Rightarrow> string \<Rightarrow> bool" where
  "items_match [] s = (s = [])"
| "items_match (i # is) s = (\<exists>u v. s = u @ v \<and> item_match i u \<and> items_match is v)"

definition anchored :: "string \<Rightarrow> string" where
  "anchored body = ''^(?:'' @ body @ '')$''"

subsection \<open>Lexing and parsing items\<close>

lemma special_escapable: "special c \<Longrightarrow> escapable c \<and> c \<noteq> CHR ''d''"
  by (auto simp: special_def escapable_def is_alnum_def is_digit_def less_eq_char_def)

definition prepend_toks :: "tok list \<Rightarrow> tok list option \<Rightarrow> tok list option" where
  "prepend_toks ts r = (case r of None \<Rightarrow> None | Some us \<Rightarrow> Some (ts @ us))"

lemma prepend_toks_simps [simp]:
  "prepend_toks ts None = None" "prepend_toks ts (Some us) = Some (ts @ us)"
  "prepend_toks [] r = r" "prepend_toks ts (prepend_toks us r) = prepend_toks (ts @ us) r"
  by (auto simp: prepend_toks_def split: option.splits)

lemma map_option_prepend [simp]: "map_option ((#) t) r = prepend_toks [t] r"
  by (simp add: prepend_toks_def split: option.splits)

lemma lex_quoted: "lex (QuoteMeta [c] @ s) = prepend_toks [TChar c] (lex s)"
proof (cases "special c")
  case True
  with special_escapable [OF True] show ?thesis by (simp add: QuoteMeta_def)
next
  case False
  then show ?thesis by (auto simp: QuoteMeta_def special_def)
qed

lemma rep_count_Itoa: "n \<le> 1000 \<Longrightarrow> rep_count (Itoa n @ CHR ''}'' # s) = Some (n, s)"
  by (simp add: rep_count.simps Let_def takeWhile_digits is_digit_def)

lemma lex_item: "item_ok i \<Longrightarrow> lex (item_str i @ s) = prepend_toks (item_toks i) (lex s)"
  by (cases i) (auto simp: lex_quoted rep_count_Itoa simp del: append_Cons, auto simp: rep_count_Itoa)

lemma lex_items:
  "list_all item_ok is \<Longrightarrow> lex (items_str is @ s) = prepend_toks (concat (map item_toks is)) (lex s)"
  by (induction "is") (auto simp: lex_item)

lemma build_item: "build (item_toks i @ ts) st (a, cur) = build ts st (a, item_re i # cur)"
  by (cases i) auto

lemma build_items:
  "build (concat (map item_toks is) @ ts) st (a, cur) =
   build ts st (a, rev (map item_re is) @ cur)"
  by (induction "is" arbitrary: cur) (auto simp: build_item)

text \<open>Alternatives joined by bars.\<close>

fun alt_toks :: "item list list \<Rightarrow> tok list" where
  "alt_toks [] = []"
| "alt_toks [is] = concat (map item_toks is)"
| "alt_toks (is # js # iss) = concat (map item_toks is) @ TBar # alt_toks (js # iss)"

lemma lex_join:
  "list_all (list_all item_ok) iss \<Longrightarrow>
   lex (strings_Join (map items_str iss) ''|'' @ s) = prepend_toks (alt_toks iss) (lex s)"
  by (induction iss rule: alt_toks.induct) (auto simp: lex_items)

lemma build_join:
  "iss \<noteq> [] \<Longrightarrow> build (alt_toks iss @ ts) st (a, []) =
   build ts st (rev (map (\<lambda>is. seqs (map item_re is)) (butlast iss)) @ a, rev (map item_re (last iss)))"
  by (induction iss arbitrary: a rule: alt_toks.induct) (auto simp: build_items)

lemma close_join:
  "iss \<noteq> [] \<Longrightarrow>
   close_frame (rev (map (\<lambda>is. seqs (map item_re is)) (butlast iss)), rev (map item_re (last iss))) =
   alts (map (\<lambda>is. seqs (map item_re is)) iss)"
  by (cases iss rule: rev_cases) (auto simp: close_frame_def)

lemma parse_join:
  assumes "list_all (list_all item_ok) iss" "iss \<noteq> []"
  shows "re_parse (strings_Join (map items_str iss) ''|'') =
    Some (alts (map (\<lambda>is. seqs (map item_re is)) iss))"
  using lex_join [OF assms(1), of "[]"] build_join [OF assms(2), of "[]" "[]" "[]"]
    close_join [OF assms(2)]
  by (simp add: re_parse_def)

lemma parse_anchored:
  assumes "list_all (list_all item_ok) iss" "iss \<noteq> []"
  shows "re_parse (anchored (strings_Join (map items_str iss) ''|'')) =
    Some (seqs [Caret, Grp (alts (map (\<lambda>is. seqs (map item_re is)) iss)), Dollar])"
proof -
  have "lex (anchored (strings_Join (map items_str iss) ''|'')) =
      Some (TCaret # TOpen # alt_toks iss @ [TClose, TDollar])"
    using lex_join [OF assms(1), of "'')$''"] by (simp add: anchored_def group_open.simps)
  then show ?thesis
    using assms(2) close_join [OF assms(2)]
    by (simp add: re_parse_def build_join) (simp add: close_frame_def)
qed

subsection \<open>Matching items\<close>

lemma matches_item: "matches (item_re i) b e s \<longleftrightarrow> item_match i s"
  by (cases i) (auto simp: matches_single matches_Rep_Digit matches_Star_Dot)

lemma matches_items: "matches (seqs (map item_re is)) b e s \<longleftrightarrow> items_match is s"
  by (induction "is" arbitrary: b s) (simp_all add: seqs_def matches_Seq matches_item)

lemma matches_alts: "rs \<noteq> [] \<Longrightarrow> matches (alts rs) b e s \<longleftrightarrow> (\<exists>r\<in>set rs. matches r b e s)"
  by (induction rs rule: alts.induct) auto

lemma matches_alts_items:
  "iss \<noteq> [] \<Longrightarrow> matches (alts (map (\<lambda>is. seqs (map item_re is)) iss)) b e s \<longleftrightarrow>
   (\<exists>is\<in>set iss. items_match is s)"
  by (auto simp: matches_alts matches_items)

lemma matches_anchored:
  "matches (seqs [Caret, Grp r, Dollar]) b e s \<longleftrightarrow> b \<and> e \<and> matches r True True s"
  by (auto simp: seqs_def matches_Seq)

lemma full_match_join:
  assumes "list_all (list_all item_ok) iss" "iss \<noteq> []"
  shows "full_match (strings_Join (map items_str iss) ''|'') s \<longleftrightarrow> (\<exists>is\<in>set iss. items_match is s)"
  using assms by (simp add: full_match_def parse_join matches_alts_items)

text \<open>
  An anchored pattern matches the same subjects as a whole-subject match and as a search.
\<close>

lemma full_match_anchored:
  assumes "list_all (list_all item_ok) iss" "iss \<noteq> []"
  shows "full_match (anchored (strings_Join (map items_str iss) ''|'')) s \<longleftrightarrow>
    (\<exists>is\<in>set iss. items_match is s)"
  using assms by (simp add: full_match_def parse_anchored matches_anchored matches_alts_items)

lemma search_match_anchored:
  assumes "list_all (list_all item_ok) iss" "iss \<noteq> []"
  shows "search_match (anchored (strings_Join (map items_str iss) ''|'')) s \<longleftrightarrow>
    (\<exists>is\<in>set iss. items_match is s)"
  using assms
  by (auto simp: search_match_def parse_anchored matches_anchored matches_alts_items
      intro!: bexI [of _ 0])

end
