(* ===== verification/Types.thy ===== *)
theory Types
  imports Prelude
begin

text \<open>
  The data model: the constants of \<^verbatim>\<open>internal/constants/constants.go\<close>, the custom resources
  of \<^verbatim>\<open>api/v1alpha1\<close> (\<open>Cell\<close>, \<open>CellRouter\<close>, \<open>CellPlacement\<close>), and the Kubernetes and
  Gateway API objects the operator reads and writes, restricted to the fields it touches.
  A string-typed enumeration of the source stays a string, so that a value outside the
  enumeration, which the Go code also handles, is a value of the model. \<^verbatim>\<open>TypeMeta\<close> is a
  constant of each type and is left out.
\<close>

section \<open>Constants of the ownership contract\<close>

definition OperatorName :: string where [simp]: "OperatorName = ''cell-router-operator''"
definition ManagedByLabel :: string where [simp]: "ManagedByLabel = ''cellrouter.io/managed-by''"
definition CellNameLabel :: string where [simp]: "CellNameLabel = ''cellrouter.io/cell-name''"
definition EntrypointServiceLabel :: string where
  [simp]: "EntrypointServiceLabel = ''cellrouter.io/entrypoint-service''"
definition RouterNameLabel :: string where [simp]: "RouterNameLabel = ''cellrouter.io/router-name''"
definition PlacementNameLabel :: string where
  [simp]: "PlacementNameLabel = ''cellrouter.io/placement-name''"
definition FinalizerCell :: string where [simp]: "FinalizerCell = ''cell.cellrouter.io/finalizer''"
definition FinalizerCellRouter :: string where
  [simp]: "FinalizerCellRouter = ''cellrouter.cellrouter.io/finalizer''"
definition CellResourceQuotaName :: string where [simp]: "CellResourceQuotaName = ''cell-quota''"
definition CellLimitRangeName :: string where [simp]: "CellLimitRangeName = ''cell-limits''"
definition CellNetworkPolicyName :: string where
  [simp]: "CellNetworkPolicyName = ''cell-entrypoint''"

section \<open>Condition types, reasons and states\<close>

definition CellReadyCondition :: string where [simp]: "CellReadyCondition = ''Ready''"
definition CellNamespaceReadyCondition :: string where
  [simp]: "CellNamespaceReadyCondition = ''NamespaceReady''"
definition CellServiceReadyCondition :: string where
  [simp]: "CellServiceReadyCondition = ''ServiceReady''"
definition CellBackendReadyCondition :: string where
  [simp]: "CellBackendReadyCondition = ''BackendReady''"
definition CellPoliciesReadyCondition :: string where
  [simp]: "CellPoliciesReadyCondition = ''PoliciesReady''"
definition ConditionReasonProgressing :: string where
  [simp]: "ConditionReasonProgressing = ''Progressing''"
definition ConditionReasonReconciled :: string where
  [simp]: "ConditionReasonReconciled = ''Reconciled''"
definition ConditionReasonError :: string where [simp]: "ConditionReasonError = ''Error''"
definition ConditionReasonWaitingForBackend :: string where
  [simp]: "ConditionReasonWaitingForBackend = ''WaitingForBackend''"
definition ConditionReasonLifecycleBlocked :: string where
  [simp]: "ConditionReasonLifecycleBlocked = ''LifecycleBlocked''"

type_synonym CellState = string

definition CellStateActive :: CellState where [simp]: "CellStateActive = ''Active''"
definition CellStateDraining :: CellState where [simp]: "CellStateDraining = ''Draining''"
definition CellStateDisabled :: CellState where [simp]: "CellStateDisabled = ''Disabled''"

definition CellRouterReadyCondition :: string where [simp]: "CellRouterReadyCondition = ''Ready''"
definition CellRouterGatewayReadyCondition :: string where
  [simp]: "CellRouterGatewayReadyCondition = ''GatewayReady''"
definition CellRouterRoutesReadyCondition :: string where
  [simp]: "CellRouterRoutesReadyCondition = ''RoutesReady''"
definition CellPlacementReadyCondition :: string where
  [simp]: "CellPlacementReadyCondition = ''Ready''"

text \<open>\<^verbatim>\<open>metav1.ConditionStatus\<close> and the condition types of Gateway API routes.\<close>

definition ConditionTrue :: string where [simp]: "ConditionTrue = ''True''"
definition ConditionFalse :: string where [simp]: "ConditionFalse = ''False''"
definition RouteConditionAccepted :: string where [simp]: "RouteConditionAccepted = ''Accepted''"
definition RouteConditionResolvedRefs :: string where
  [simp]: "RouteConditionResolvedRefs = ''ResolvedRefs''"

section \<open>Object metadata and conditions\<close>

record OwnerReference =
  or_Kind :: string
  or_Name :: string
  or_UID :: string
  or_Controller :: "bool option"

record ObjectMeta =
  om_Name :: string
  om_Namespace :: string
  om_UID :: string
  om_Generation :: int64
  om_DeletionTimestamp :: "time option"
  om_Labels :: gomap
  om_Annotations :: gomap
  om_OwnerReferences :: "OwnerReference list"
  om_Finalizers :: "string list"

text \<open>The zero value of \<^verbatim>\<open>metav1.ObjectMeta\<close> with the name and the namespace filled in.\<close>

definition NewMeta :: "string \<Rightarrow> string \<Rightarrow> ObjectMeta" where
  "NewMeta name namespace =
     \<lparr>om_Name = name, om_Namespace = namespace, om_UID = [], om_Generation = 0,
      om_DeletionTimestamp = None, om_Labels = None, om_Annotations = None,
      om_OwnerReferences = [], om_Finalizers = []\<rparr>"

record Condition =
  c_Type :: string
  c_Status :: string
  c_ObservedGeneration :: int64
  c_LastTransitionTime :: time
  c_Reason :: string
  c_Message :: string

section \<open>Cell\<close>

type_synonym ResourceList = gomap

record CellEntrypointSpec =
  ep_ServiceName :: string
  ep_Port :: int32
  ep_TargetPort :: "int32 option"
  ep_Protocol :: string
  ep_Type :: string

record CellResourceQuotaSpec =
  rq_Hard :: ResourceList

record CellLimitRangeSpec =
  lr_Default :: ResourceList
  lr_DefaultRequest :: ResourceList
  lr_Max :: ResourceList
  lr_Min :: ResourceList

record CellNetworkPolicySpec =
  np_Enabled :: bool
  np_AllowedNamespaceLabels :: gomap

record CellPoliciesSpec =
  pol_ResourceQuota :: "CellResourceQuotaSpec option"
  pol_LimitRange :: "CellLimitRangeSpec option"
  pol_NetworkPolicy :: "CellNetworkPolicySpec option"

record CellSpec =
  cs_Namespace :: string
  cs_Entrypoint :: CellEntrypointSpec
  cs_WorkloadSelector :: gomap
  cs_State :: CellState
  cs_NamespaceLabels :: gomap
  cs_NamespaceAnnotations :: gomap
  cs_ServiceLabels :: gomap
  cs_ServiceAnnotations :: gomap
  cs_TearDownOnDelete :: bool
  cs_Policies :: "CellPoliciesSpec option"

record CellStatus =
  cst_ObservedGeneration :: int64
  cst_Namespace :: string
  cst_EntrypointService :: string
  cst_OperationalState :: CellState
  cst_AvailableEndpoints :: int32
  cst_Conditions :: "Condition list"

record Cell =
  cell_Meta :: ObjectMeta
  cell_Spec :: CellSpec
  cell_Status :: CellStatus

abbreviation cell_Name :: "Cell \<Rightarrow> string" where
  "cell_Name c \<equiv> om_Name (cell_Meta c)"

section \<open>CellRouter\<close>

datatype ListenerTLSConfig = ListenerTLSConfig string

record CellGatewayListener =
  gl_Name :: string
  gl_Port :: int32
  gl_Protocol :: string
  gl_Hostname :: "string option"
  gl_TLS :: "ListenerTLSConfig option"

record CellGatewaySpec =
  gs_Name :: string
  gs_Namespace :: string
  gs_GatewayClassName :: string
  gs_Labels :: gomap
  gs_Annotations :: gomap
  gs_Listeners :: "CellGatewayListener list"

record CellRouteBackendRef =
  br_CellRef :: string
  br_Weight :: "int32 option"

record HTTPPathMatch =
  pm_Type :: "string option"
  pm_Value :: string

record HTTPHeaderMatch =
  hm_Name :: string
  hm_Value :: string
  hm_Type :: "string option"

record HTTPQueryParamMatch =
  qm_Name :: string
  qm_Value :: string
  qm_Type :: "string option"

record CellRouteSpec =
  rt_Name :: string
  rt_CellRef :: string
  rt_ListenerNames :: "string list"
  rt_Hostnames :: "string list"
  rt_PathMatch :: "HTTPPathMatch option"
  rt_HeaderMatches :: "HTTPHeaderMatch list"
  rt_QueryParamMatches :: "HTTPQueryParamMatch list"
  rt_Weight :: "int32 option"
  rt_AdditionalBackends :: "CellRouteBackendRef list"
  rt_FallbackBackend :: "CellRouteBackendRef option"

record CellRouterSpec =
  crs_Gateway :: CellGatewaySpec
  crs_Routes :: "CellRouteSpec list"

record ManagedRouteStatus =
  mr_Name :: string
  mr_ListenerNames :: "string list"
  mr_CellRef :: string
  mr_BackendRefs :: "string list"
  mr_PlacementRef :: string
  mr_Reason :: string
  mr_LastTransitionTime :: "time option"

record CellRouterStatus =
  crst_ObservedGeneration :: int64
  crst_ManagedGatewayRef :: string
  crst_ManagedRoutes :: "ManagedRouteStatus list"
  crst_Conditions :: "Condition list"

record CellRouter =
  router_Meta :: ObjectMeta
  router_Spec :: CellRouterSpec
  router_Status :: CellRouterStatus

abbreviation router_Name :: "CellRouter \<Rightarrow> string" where
  "router_Name r \<equiv> om_Name (router_Meta r)"

section \<open>CellPlacement\<close>

type_synonym CellPlacementSelectorSourceType = string
type_synonym CellPlacementSelectorOperator = string

definition SelectorSourceHeader :: CellPlacementSelectorSourceType where
  [simp]: "SelectorSourceHeader = ''Header''"
definition SelectorSourceQueryParam :: CellPlacementSelectorSourceType where
  [simp]: "SelectorSourceQueryParam = ''QueryParam''"
definition SelectorSourcePathCapture :: CellPlacementSelectorSourceType where
  [simp]: "SelectorSourcePathCapture = ''PathCapture''"

definition SelectorOperatorExact :: CellPlacementSelectorOperator where
  [simp]: "SelectorOperatorExact = ''Exact''"
definition SelectorOperatorPrefix :: CellPlacementSelectorOperator where
  [simp]: "SelectorOperatorPrefix = ''Prefix''"
definition SelectorOperatorSuffix :: CellPlacementSelectorOperator where
  [simp]: "SelectorOperatorSuffix = ''Suffix''"
definition SelectorOperatorRange :: CellPlacementSelectorOperator where
  [simp]: "SelectorOperatorRange = ''Range''"

record CellPlacementSelectorSource =
  src_Type :: CellPlacementSelectorSourceType
  src_Name :: string
  src_PathRegex :: string

record CellPlacementNumericRange =
  rng_Start :: string
  rng_End :: string

record CellPlacementSelector =
  sel_Source :: CellPlacementSelectorSource
  sel_Operator :: CellPlacementSelectorOperator
  sel_Value :: string
  sel_Range :: "CellPlacementNumericRange option"

record CellPlacementSpec =
  ps_RouterRef :: string
  ps_ListenerNames :: "string list"
  ps_Hostnames :: "string list"
  ps_Selectors :: "CellPlacementSelector list"
  ps_Destinations :: "CellRouteBackendRef list"

record CellPlacementStatus =
  pst_ObservedGeneration :: int64
  pst_ResolvedBackends :: "string list"
  pst_Conditions :: "Condition list"

record CellPlacement =
  placement_Meta :: ObjectMeta
  placement_Spec :: CellPlacementSpec
  placement_Status :: CellPlacementStatus

abbreviation placement_Name :: "CellPlacement \<Rightarrow> string" where
  "placement_Name p \<equiv> om_Name (placement_Meta p)"

text \<open>The match types of Gateway API.\<close>

definition PathMatchRegularExpression :: string where
  [simp]: "PathMatchRegularExpression = ''RegularExpression''"
definition HeaderMatchExact :: string where [simp]: "HeaderMatchExact = ''Exact''"
definition HeaderMatchRegularExpression :: string where
  [simp]: "HeaderMatchRegularExpression = ''RegularExpression''"
definition QueryParamMatchExact :: string where [simp]: "QueryParamMatchExact = ''Exact''"
definition QueryParamMatchRegularExpression :: string where
  [simp]: "QueryParamMatchRegularExpression = ''RegularExpression''"

section \<open>Kubernetes and Gateway API objects\<close>

record Namespace =
  ns_Meta :: ObjectMeta

record ServicePort =
  sp_Name :: string
  sp_Port :: int32
  sp_TargetPort :: int32
  sp_Protocol :: string

record Service =
  svc_Meta :: ObjectMeta
  svc_Selector :: gomap
  svc_Type :: string
  svc_Ports :: "ServicePort list"

record ResourceQuota =
  quota_Meta :: ObjectMeta
  quota_Hard :: ResourceList

record LimitRangeItem =
  lri_Type :: string
  lri_Default :: ResourceList
  lri_DefaultRequest :: ResourceList
  lri_Max :: ResourceList
  lri_Min :: ResourceList

record LimitRange =
  limits_Meta :: ObjectMeta
  limits_Limits :: "LimitRangeItem list"

record LabelSelector =
  ls_MatchLabels :: gomap

record NetworkPolicyPeer =
  peer_PodSelector :: "LabelSelector option"
  peer_NamespaceSelector :: "LabelSelector option"

record NetworkPolicyIngressRule =
  ir_From :: "NetworkPolicyPeer list"

record NetworkPolicy =
  netpol_Meta :: ObjectMeta
  netpol_PodSelector :: LabelSelector
  netpol_PolicyTypes :: "string list"
  netpol_Ingress :: "NetworkPolicyIngressRule list"

record Endpoint =
  e_Addresses :: "string list"
  e_Ready :: "bool option"

record EndpointSlice =
  slice_Meta :: ObjectMeta
  slice_Endpoints :: "Endpoint list"

record Listener =
  l_Name :: string
  l_Port :: int32
  l_Protocol :: string
  l_Hostname :: "string option"
  l_TLS :: "ListenerTLSConfig option"

record Gateway =
  gw_Meta :: ObjectMeta
  gw_GatewayClassName :: string
  gw_Listeners :: "Listener list"

record ParentReference =
  pr_Name :: string
  pr_Namespace :: "string option"
  pr_SectionName :: "string option"

record RouteParentStatus =
  rps_ParentRef :: ParentReference
  rps_Conditions :: "Condition list"

record GwPathMatch =
  gpm_Type :: "string option"
  gpm_Value :: "string option"

record GwHeaderMatch =
  ghm_Type :: "string option"
  ghm_Name :: string
  ghm_Value :: string

record GwQueryParamMatch =
  gqm_Type :: "string option"
  gqm_Name :: string
  gqm_Value :: string

record HTTPRouteMatch =
  m_Path :: "GwPathMatch option"
  m_Headers :: "GwHeaderMatch list"
  m_QueryParams :: "GwQueryParamMatch list"

record HTTPBackendRef =
  b_Name :: string
  b_Namespace :: "string option"
  b_Port :: "int32 option"
  b_Weight :: "int32 option"

record HTTPRouteRule =
  rule_Matches :: "HTTPRouteMatch list"
  rule_BackendRefs :: "HTTPBackendRef list"

record HTTPRouteSpec =
  hr_ParentRefs :: "ParentReference list"
  hr_Hostnames :: "string list"
  hr_Rules :: "HTTPRouteRule list"

record HTTPRoute =
  route_Meta :: ObjectMeta
  route_Spec :: HTTPRouteSpec
  route_Parents :: "RouteParentStatus list"

record ReferenceGrantFrom =
  from_Group :: string
  from_Kind :: string
  from_Namespace :: string

record ReferenceGrantTo =
  to_Group :: string
  to_Kind :: string
  to_Name :: "string option"

record ReferenceGrant =
  grant_Meta :: ObjectMeta
  grant_From :: "ReferenceGrantFrom list"
  grant_To :: "ReferenceGrantTo list"

end
