(* ===== verification/Validation.thy ===== *)
theory Validation
  imports Types
begin

text \<open>
  \<^verbatim>\<open>api/v1alpha1/cellplacement_validation.go\<close>: the checks a placement passes before it is
  compiled. Each Go method returning an error is a function into \<open>error option\<close>, \<open>None\<close> for
  nil. The regular expression compiler is the argument \<open>subexpNames\<close> of the definitions: for
  a pattern, the names \<^verbatim>\<open>SubexpNames()\<close> of the compiled expression, or \<open>None\<close> when
  \<^verbatim>\<open>regexp.Compile\<close> fails.
\<close>

section \<open>Source keys\<close>

definition source_key :: "CellPlacementSelectorSource \<Rightarrow> string" where
  "source_key s =
     (if src_Type s = SelectorSourcePathCapture
      then src_Type s @ '':'' @ src_Name s @ '':'' @ src_PathRegex s
      else src_Type s @ '':'' @ src_Name s)"

definition SourceKey :: "CellPlacementSelector \<Rightarrow> string" where
  "SourceKey s = source_key (sel_Source s)"

section \<open>Ranges\<close>

text \<open>The match of \<^verbatim>\<open>^(0|[1-9][0-9]*)$\<close>.\<close>

definition decimalValuePattern_MatchString :: "string \<Rightarrow> bool" where
  "decimalValuePattern_MatchString s =
     (case s of [] \<Rightarrow> False
      | c # t \<Rightarrow> (c = CHR ''0'' \<and> t = []) \<or> (c \<noteq> CHR ''0'' \<and> is_digit c \<and> digits t))"

definition NumericRange_Validate :: "CellPlacementNumericRange option \<Rightarrow> error option" where
  "NumericRange_Validate r =
     (case r of None \<Rightarrow> Some (Errorf ''range is required'')
      | Some r \<Rightarrow>
          if \<not> decimalValuePattern_MatchString (rng_Start r)
          then Some (Errorf ''range start must be an unsigned decimal'')
          else if \<not> decimalValuePattern_MatchString (rng_End r)
          then Some (Errorf ''range end must be an unsigned decimal'')
          else (case ParseUint (rng_Start r) of
              (_, Some e) \<Rightarrow> Some (Errorf (''range start must fit into uint64: '' @
                num_error_Error (rng_Start r) e))
            | (startValue, None) \<Rightarrow> (case ParseUint (rng_End r) of
                (_, Some e) \<Rightarrow> Some (Errorf (''range end must fit into uint64: '' @
                  num_error_Error (rng_End r) e))
              | (endValue, None) \<Rightarrow>
                  if startValue > endValue
                  then Some (Errorf ''range start must be less than or equal to range end'')
                  else None)))"

section \<open>Sources and selectors\<close>

definition pathRegexHasNamedCapture :: "(string \<Rightarrow> string list option) \<Rightarrow> string \<Rightarrow> string \<Rightarrow> bool" where
  "pathRegexHasNamedCapture subexpNames pathRegex captureName =
     (case subexpNames pathRegex of None \<Rightarrow> False | Some groupNames \<Rightarrow> captureName \<in> set groupNames)"

definition Source_Validate ::
    "(string \<Rightarrow> string list option) \<Rightarrow> CellPlacementSelectorSource \<Rightarrow> error option" where
  "Source_Validate subexpNames s =
     (if strings_TrimSpace (src_Name s) = [] then Some (Errorf ''source name is required'')
      else if src_Type s = SelectorSourceHeader \<or> src_Type s = SelectorSourceQueryParam then
        (if src_PathRegex s \<noteq> []
         then Some (Errorf ''pathRegex is only supported for PathCapture selectors'') else None)
      else if src_Type s = SelectorSourcePathCapture then
        (if strings_TrimSpace (src_PathRegex s) = []
         then Some (Errorf ''pathRegex is required for PathCapture selectors'')
         else if \<not> pathRegexHasNamedCapture subexpNames (src_PathRegex s) (src_Name s)
         then Some (Errorf (''pathRegex must contain named capture '' @ go_quote (src_Name s)))
         else None)
      else Some (Errorf (''unsupported selector source type '' @ go_quote (src_Type s))))"

definition Selector_Validate ::
    "(string \<Rightarrow> string list option) \<Rightarrow> CellPlacementSelector \<Rightarrow> error option" where
  "Selector_Validate subexpNames s =
     (case Source_Validate subexpNames (sel_Source s) of Some err \<Rightarrow> Some err
      | None \<Rightarrow>
          if sel_Operator s = SelectorOperatorExact \<or> sel_Operator s = SelectorOperatorPrefix \<or>
             sel_Operator s = SelectorOperatorSuffix then
            (if sel_Value s = []
             then Some (Errorf (''value is required for '' @ sel_Operator s @ '' selectors''))
             else if sel_Range s \<noteq> None
             then Some (Errorf (''range must not be set for '' @ sel_Operator s @ '' selectors''))
             else None)
          else if sel_Operator s = SelectorOperatorRange then
            (if sel_Range s = None then Some (Errorf ''range is required for Range selectors'')
             else case NumericRange_Validate (sel_Range s) of Some err \<Rightarrow> Some err
              | None \<Rightarrow> if sel_Value s \<noteq> []
                  then Some (Errorf ''value must not be set for Range selectors'') else None)
          else Some (Errorf (''unsupported selector operator '' @ go_quote (sel_Operator s))))"

section \<open>Placements\<close>

text \<open>The loop over the selectors, with its index, the keys seen and the path regex seen.\<close>

fun validate_selectors :: "(string \<Rightarrow> string list option) \<Rightarrow> nat \<Rightarrow> CellPlacementSelector list \<Rightarrow>
    string list \<Rightarrow> string \<Rightarrow> error option" where
  "validate_selectors subexpNames idx [] seenSources pathRegex = None"
| "validate_selectors subexpNames idx (selector # selectors) seenSources pathRegex =
     (case Selector_Validate subexpNames selector of
        Some err \<Rightarrow> Some (Errorf (''selector '' @ Itoa idx @ '': '' @ Error err))
      | None \<Rightarrow>
          let sourceKey = source_key (sel_Source selector) in
          if sourceKey \<in> set seenSources
          then Some (Errorf (''selector '' @ Itoa idx @ '' duplicates source '' @ go_quote sourceKey))
          else if src_Type (sel_Source selector) = SelectorSourcePathCapture then
            (if pathRegex = [] then
               validate_selectors subexpNames (Suc idx) selectors (sourceKey # seenSources)
                 (src_PathRegex (sel_Source selector))
             else if pathRegex \<noteq> src_PathRegex (sel_Source selector)
             then Some (Errorf ''all PathCapture selectors must share the same pathRegex'')
             else validate_selectors subexpNames (Suc idx) selectors (sourceKey # seenSources) pathRegex)
          else validate_selectors subexpNames (Suc idx) selectors (sourceKey # seenSources) pathRegex)"

definition PlacementSpec_Validate ::
    "(string \<Rightarrow> string list option) \<Rightarrow> CellPlacementSpec \<Rightarrow> error option" where
  "PlacementSpec_Validate subexpNames s =
     (if strings_TrimSpace (ps_RouterRef s) = [] then Some (Errorf ''routerRef is required'')
      else if ps_Selectors s = [] then Some (Errorf ''at least one selector is required'')
      else if ps_Destinations s = [] then Some (Errorf ''at least one destination is required'')
      else validate_selectors subexpNames 0 (ps_Selectors s) [] [])"

definition Placement_Validate :: "(string \<Rightarrow> string list option) \<Rightarrow> CellPlacement \<Rightarrow> error option" where
  "Placement_Validate subexpNames p = PlacementSpec_Validate subexpNames (placement_Spec p)"

section \<open>What validation establishes\<close>

text \<open>The well-formedness a validated selector and a validated placement have.\<close>

definition range_wf :: "CellPlacementNumericRange \<Rightarrow> bool" where
  "range_wf r \<longleftrightarrow>
     decimalValuePattern_MatchString (rng_Start r) \<and> decimalValuePattern_MatchString (rng_End r) \<and>
     decval (rng_Start r) \<le> decval (rng_End r) \<and> decval (rng_End r) < 2 ^ 64"

definition selector_wf :: "CellPlacementSelector \<Rightarrow> bool" where
  "selector_wf s \<longleftrightarrow>
     (if sel_Operator s = SelectorOperatorRange
      then sel_Value s = [] \<and> (\<exists>r. sel_Range s = Some r \<and> range_wf r)
      else sel_Operator s \<in> {SelectorOperatorExact, SelectorOperatorPrefix, SelectorOperatorSuffix} \<and>
        sel_Value s \<noteq> [] \<and> sel_Range s = None)"

definition path_regexes :: "CellPlacementSelector list \<Rightarrow> string list" where
  "path_regexes sels =
     map (src_PathRegex \<circ> sel_Source)
       (filter (\<lambda>s. src_Type (sel_Source s) = SelectorSourcePathCapture) sels)"

lemma decimal_digits:
  "decimalValuePattern_MatchString s \<Longrightarrow> digits s \<and> s \<noteq> []"
  by (auto simp: decimalValuePattern_MatchString_def is_digit_def split: list.splits)

lemma NumericRange_Validate_iff:
  "NumericRange_Validate r = None \<longleftrightarrow> (\<exists>x. r = Some x \<and> range_wf x)"
proof (cases r)
  case (Some x)
  show ?thesis
  proof (cases "decimalValuePattern_MatchString (rng_Start x) \<and> decimalValuePattern_MatchString (rng_End x)")
    case True
    obtain a ea where a: "ParseUint (rng_Start x) = (a, ea)" by fastforce
    obtain b eb where b: "ParseUint (rng_End x) = (b, eb)" by fastforce
    have "ea = None \<longleftrightarrow> decval (rng_Start x) < 2 ^ 64"
      using ParseUint_None [of "rng_Start x" a] ParseUint_digits [of "rng_Start x"] a True
      by (auto dest: decimal_digits)
    moreover have "eb = None \<longleftrightarrow> decval (rng_End x) < 2 ^ 64"
      using ParseUint_None [of "rng_End x" b] ParseUint_digits [of "rng_End x"] b True
      by (auto dest: decimal_digits)
    moreover have "decval (rng_Start x) < 2 ^ 64 \<Longrightarrow> unat a = decval (rng_Start x)"
      using ParseUint_digits [of "rng_Start x"] a True
      by (auto dest: decimal_digits simp: unat_of_nat)
    moreover have "decval (rng_End x) < 2 ^ 64 \<Longrightarrow> unat b = decval (rng_End x)"
      using ParseUint_digits [of "rng_End x"] b True
      by (auto dest: decimal_digits simp: unat_of_nat)
    ultimately show ?thesis
      using Some True a b
      by (auto simp: NumericRange_Validate_def range_wf_def word_le_nat_alt word_less_nat_alt not_less
          split: option.splits)
  qed (auto simp: Some NumericRange_Validate_def range_wf_def)
qed (simp add: NumericRange_Validate_def)

lemma Selector_Validate_iff:
  "Selector_Validate subexpNames s = None \<longleftrightarrow>
     Source_Validate subexpNames (sel_Source s) = None \<and> selector_wf s"
  using NumericRange_Validate_iff [of "sel_Range s"]
  by (auto simp: Selector_Validate_def selector_wf_def split: option.splits)

lemma Source_Validate_path:
  "Source_Validate subexpNames s = None \<Longrightarrow> src_Type s = SelectorSourcePathCapture \<Longrightarrow>
   src_PathRegex s \<noteq> []"
  by (auto simp: Source_Validate_def split: if_splits)

lemma validate_selectors_iff:
  "validate_selectors subexpNames idx sels seen pathRegex = None \<longleftrightarrow>
     list_all (\<lambda>s. Selector_Validate subexpNames s = None) sels \<and>
     distinct (map SourceKey sels) \<and> set (map SourceKey sels) \<inter> set seen = {} \<and>
     (\<forall>r\<in>set (path_regexes sels). r = (if pathRegex = [] then hd (path_regexes sels) else pathRegex))"
proof (induction sels arbitrary: idx seen pathRegex)
  case (Cons s sels)
  show ?case
  proof (cases "Selector_Validate subexpNames s")
    case None
    then have "src_Type (sel_Source s) = SelectorSourcePathCapture \<Longrightarrow> src_PathRegex (sel_Source s) \<noteq> []"
      by (auto simp: Selector_Validate_iff dest: Source_Validate_path)
    then show ?thesis using None by (auto simp: Cons.IH SourceKey_def Let_def path_regexes_def)
  qed auto
qed (simp add: path_regexes_def)

section \<open>Properties\<close>

text \<open>
  C27: Validate accepts a placement exactly when it has a router reference that is not blank,
  selectors and destinations, when every selector is valid, no two selectors read one source,
  and all path captures share one path regex.
\<close>

theorem placement_validate_iff:
  "Placement_Validate subexpNames p = None \<longleftrightarrow>
     strings_TrimSpace (ps_RouterRef (placement_Spec p)) \<noteq> [] \<and>
     ps_Selectors (placement_Spec p) \<noteq> [] \<and> ps_Destinations (placement_Spec p) \<noteq> [] \<and>
     list_all (\<lambda>s. Source_Validate subexpNames (sel_Source s) = None \<and> selector_wf s)
       (ps_Selectors (placement_Spec p)) \<and>
     distinct (map SourceKey (ps_Selectors (placement_Spec p))) \<and>
     (\<exists>regex. set (path_regexes (ps_Selectors (placement_Spec p))) \<subseteq> {regex})"
proof -
  have "(\<forall>r\<in>set rs. r = hd rs) \<longleftrightarrow> (\<exists>x. set rs \<subseteq> {x})" for rs :: "string list"
    by (cases rs) auto
  then show ?thesis
    by (auto simp: Placement_Validate_def PlacementSpec_Validate_def validate_selectors_iff
        Selector_Validate_iff)
qed

text \<open>
  C28: a range is valid exactly when both bounds are canonical unsigned decimals that fit into
  64 bits and the start is at most the end as a number.
\<close>

theorem range_validate_iff:
  "NumericRange_Validate (Some \<lparr>rng_Start = a, rng_End = b\<rparr>) = None \<longleftrightarrow>
     decimalValuePattern_MatchString a \<and> decimalValuePattern_MatchString b \<and>
     decval a \<le> decval b \<and> decval b < 2 ^ 64"
  by (simp add: NumericRange_Validate_iff range_wf_def)

end
