(* ===== verification/RangeRegex.thy ===== *)
theory RangeRegex
  imports Regexp Validation
begin

text \<open>
  The numeric range compiler of \<^verbatim>\<open>internal/controller/cellplacement_compiler.go\<close>
  (\<^verbatim>\<open>numericRangeRegex\<close> and its helpers), which turns an inclusive interval of decimal
  numbers into a regular expression, and the proof that the expression matches exactly the
  canonical decimals of the interval.
\<close>

section \<open>Definitions\<close>

definition digitRangePattern :: "char \<Rightarrow> char \<Rightarrow> string" where
  "digitRangePattern start end' =
     (if start = end' then QuoteMeta [start]
      else if start = CHR ''0'' \<and> end' = CHR ''9'' then [backslash, CHR ''d'']
      else ''['' @ [start] @ ''-'' @ [end'] @ '']'')"

definition digitWildcard :: "nat \<Rightarrow> string" where
  "digitWildcard n =
     (if n = 0 then [] else if n = 1 then [backslash, CHR ''d'']
      else [backslash, CHR ''d'', CHR ''{''] @ Itoa n @ ''}'')"

definition anyNumberPattern :: "nat \<Rightarrow> string" where
  "anyNumberPattern n =
     (if n = 1 then [backslash, CHR ''d''] else ''[1-9]'' @ digitWildcard (n - 1))"

definition minValueForLength :: "nat \<Rightarrow> string" where
  "minValueForLength n = (if n \<le> 1 then ''0'' else ''1'' @ strings_Repeat ''0'' (n - 1))"

definition prependPattern :: "string \<Rightarrow> string list \<Rightarrow> string list" where
  "prependPattern pre patterns = map (\<lambda>pattern. pre @ pattern) patterns"

fun unique_loop :: "string \<Rightarrow> string list \<Rightarrow> string list" where
  "unique_loop prev [] = [prev]"
| "unique_loop prev (v # vs) = (if v \<noteq> prev then prev # unique_loop v vs else unique_loop prev vs)"

definition uniqueStrings :: "string list \<Rightarrow> string list" where
  "uniqueStrings values =
     (case sort_Strings values of [] \<Rightarrow> [] | v # vs \<Rightarrow> unique_loop v vs)"

text \<open>Arithmetic on bytes, modulo 256.\<close>

definition byte_succ :: "char \<Rightarrow> char" where
  "byte_succ c = char_of ((of_char c :: nat) + 1)"

definition byte_pred :: "char \<Rightarrow> char" where
  "byte_pred c = char_of ((of_char c :: nat) + 255)"

text \<open>
  The callers pass two strings of one length. In the second equation, which they do not reach,
  the source indexes past the end of its second argument.
\<close>

function sameLengthRangePatterns :: "string \<Rightarrow> string \<Rightarrow> string list" where
  "sameLengthRangePatterns [] end' = [[]]"
| "sameLengthRangePatterns (s # start) [] = []"
| "sameLengthRangePatterns (s # start) (e # end') =
     (if s # start = e # end' then [QuoteMeta (s # start)]
      else if start = [] then [digitRangePattern s e]
      else if s = e then prependPattern (QuoteMeta [s]) (sameLengthRangePatterns start end')
      else uniqueStrings
        (prependPattern (QuoteMeta [s])
           (sameLengthRangePatterns start (strings_Repeat ''9'' (length start)))
         @ (if byte_succ s \<le> byte_pred e
            then [digitRangePattern (byte_succ s) (byte_pred e) @ digitWildcard (length start)] else [])
         @ prependPattern (QuoteMeta [e])
           (sameLengthRangePatterns (strings_Repeat ''0'' (length end')) end')))"
  by pat_completeness auto
termination
  by (relation "measure (\<lambda>(s, e). max (length s) (length e))") (auto simp: strings_Repeat_def)

definition numericRangeRegex :: "string \<Rightarrow> string \<Rightarrow> error + string" where
  "numericRangeRegex start end' =
     (if start = end' then Inr (QuoteMeta start)
      else case ParseUint start of
        (_, Some e) \<Rightarrow> Inl (Errorf (''invalid range start: '' @ num_error_Error start e))
      | (startValue, None) \<Rightarrow> (case ParseUint end' of
          (_, Some e) \<Rightarrow> Inl (Errorf (''invalid range end: '' @ num_error_Error end' e))
        | (endValue, None) \<Rightarrow>
            if startValue > endValue
            then Inl (Errorf ''range start must be less than or equal to range end'')
            else let patterns =
                (if length start = length end' then sameLengthRangePatterns start end'
                 else sameLengthRangePatterns start (strings_Repeat ''9'' (length start))
                   @ map anyNumberPattern [length start + 1..<length end']
                   @ sameLengthRangePatterns (minValueForLength (length end')) end')
              in Inr (strings_Join (uniqueStrings patterns) ''|'')))"

section \<open>Digit strings of one length\<close>

lemma Repeat_single: "strings_Repeat [c] n = replicate n c"
  by (induction n) (auto simp: strings_Repeat_def)

lemma decval_nines: "decval (replicate n CHR ''9'') = 10 ^ n - 1"
proof (induction n)
  case (Suc n)
  have "(1::nat) \<le> 10 ^ n" by simp
  with Suc show ?case by (simp add: digit_val_def)
qed simp

lemma decval_zeros: "decval (replicate n CHR ''0'') = 0"
  by (induction n) (simp_all add: digit_val_def)

lemma digit_nine [simp]: "is_digit CHR ''9''" and digit_zero [simp]: "is_digit CHR ''0''"
  by (simp_all add: is_digit_def)

lemma digit_val_zero: "is_digit c \<Longrightarrow> digit_val c = 0 \<longleftrightarrow> c = CHR ''0''"
  using digit_val_inject [of c "CHR ''0''"] by (simp add: digit_val_def)

lemma decval_Cons_le:
  assumes "digits s" "digits t" "length s = length t" "is_digit c" "is_digit d"
  shows "decval (c # s) \<le> decval (d # t) \<longleftrightarrow>
    digit_val c < digit_val d \<or> c = d \<and> decval s \<le> decval t"
proof -
  let ?n = "10 ^ length t :: nat"
  have bounds: "decval s < ?n" "decval t < ?n"
    using assms decval_less [of s] decval_less [of t] by auto
  consider "digit_val c < digit_val d" | "digit_val c = digit_val d" | "digit_val d < digit_val c"
    by linarith
  then show ?thesis
  proof cases
    case 1
    then have "(digit_val c + 1) * ?n \<le> digit_val d * ?n" by (intro mult_le_mono1) simp
    with bounds 1 assms show ?thesis by (auto simp: algebra_simps)
  next
    case 2
    with assms show ?thesis by (simp add: digit_val_inject)
  next
    case 3
    then have "(digit_val d + 1) * ?n \<le> digit_val c * ?n" by (intro mult_le_mono1) simp
    with bounds 3 assms show ?thesis by (auto simp: algebra_simps)
  qed
qed

lemma decval_inject:
  "digits s \<Longrightarrow> digits t \<Longrightarrow> length s = length t \<Longrightarrow> decval s = decval t \<Longrightarrow> s = t"
proof (induction s arbitrary: t)
  case (Cons c s)
  from Cons.prems(3) obtain d t' where t: "t = d # t'" by (cases t) auto
  from Cons.prems t have ok: "digits s" "digits t'" "length s = length t'" "is_digit c" "is_digit d"
    by simp_all
  from Cons.prems t have "decval (c # s) \<le> decval (d # t')" "decval (d # t') \<le> decval (c # s)"
    by simp_all
  then have "c = d" "decval s = decval t'"
    unfolding decval_Cons_le [OF ok] decval_Cons_le [OF ok(2,1) ok(3) [symmetric] ok(5,4)] by auto
  with Cons.IH [OF ok(1-3)] t show ?case by simp
qed simp

section \<open>The patterns as items\<close>

text \<open>A pattern without alternatives at its top, as the text of items.\<close>

definition simple :: "string \<Rightarrow> bool" where
  "simple p \<longleftrightarrow> (\<exists>is. list_all item_ok is \<and> p = items_str is)"

lemma full_match_items:
  "list_all item_ok is \<Longrightarrow> full_match (items_str is) s \<longleftrightarrow> items_match is s"
  using full_match_join [of "[is]" s] by simp

lemma QuoteMeta_items: "QuoteMeta s = items_str (map IChar s)"
  by (induction s) (simp_all add: QuoteMeta_def)

lemma items_match_chars: "items_match (map IChar s @ is) x \<longleftrightarrow> (\<exists>v. x = s @ v \<and> items_match is v)"
  by (induction s arbitrary: x) auto

lemma simple_append: "simple p \<Longrightarrow> simple q \<Longrightarrow> simple (p @ q)"
  unfolding simple_def by (metis concat_append list_all_append map_append)

lemma simple_QuoteMeta [simp]: "simple (QuoteMeta s)"
  unfolding simple_def QuoteMeta_items by (intro exI [of _ "map IChar s"]) (auto simp: list_all_iff)

lemma full_match_QuoteMeta: "full_match (QuoteMeta s) x \<longleftrightarrow> x = s"
  using full_match_items [of "map IChar s" x] items_match_chars [of s "[]" x]
  by (auto simp: QuoteMeta_items list_all_iff)

lemma full_match_QuoteMeta_append:
  assumes "simple p"
  shows "full_match (QuoteMeta s @ p) x \<longleftrightarrow> (\<exists>v. x = s @ v \<and> full_match p v)"
proof -
  from assms obtain "is" where "is": "list_all item_ok is" "p = items_str is"
    by (auto simp: simple_def)
  have "QuoteMeta s @ p = items_str (map IChar s @ is)" by (simp add: "is" QuoteMeta_items)
  moreover have "list_all item_ok (map IChar s @ is)" using "is"(1) by (auto simp: list_all_iff)
  ultimately have "full_match (QuoteMeta s @ p) x \<longleftrightarrow> items_match (map IChar s @ is) x"
    by (simp only: full_match_items)
  with "is" show ?thesis by (simp only: items_match_chars full_match_items)
qed

text \<open>A digit range followed by a number of free digits.\<close>

definition range_item :: "char \<Rightarrow> char \<Rightarrow> item" where
  "range_item a b =
     (if a = b then IChar a else if a = CHR ''0'' \<and> b = CHR ''9'' then IDigit else IClass a b)"

definition wildcard_items :: "nat \<Rightarrow> item list" where
  "wildcard_items n = (if n = 0 then [] else if n = 1 then [IDigit] else [IDigits n])"

lemma digitRangePattern_item: "digitRangePattern a b = item_str (range_item a b)"
  by (simp add: digitRangePattern_def range_item_def)

lemma digitWildcard_items: "digitWildcard n = items_str (wildcard_items n)"
  by (simp add: digitWildcard_def wildcard_items_def)

lemma between_digits: "is_digit a \<Longrightarrow> is_digit b \<Longrightarrow> a \<le> c \<Longrightarrow> c \<le> b \<Longrightarrow> is_digit c"
  by (auto simp: is_digit_def less_eq_char_def)

lemma range_item_match:
  assumes "is_digit a" "is_digit b" "a \<le> b"
  shows "item_match (range_item a b) x \<longleftrightarrow>
    (\<exists>c. x = [c] \<and> is_digit c \<and> digit_val a \<le> digit_val c \<and> digit_val c \<le> digit_val b)"
proof -
  have "(is_digit c \<and> digit_val a \<le> digit_val c \<and> digit_val c \<le> digit_val b) \<longleftrightarrow> a \<le> c \<and> c \<le> b"
    for c using between_digits [OF assms(1,2)] assms by (metis digit_le_iff)
  moreover have "is_digit c \<longleftrightarrow> CHR ''0'' \<le> c \<and> c \<le> CHR ''9''" for c
    by (simp add: is_digit_def less_eq_char_def)
  ultimately show ?thesis using assms(3) by (auto simp: range_item_def)
qed

lemma range_item_ok: "is_digit a \<Longrightarrow> is_digit b \<Longrightarrow> a \<le> b \<Longrightarrow> item_ok (range_item a b)"
  by (simp add: range_item_def word_char_def is_alnum_def)

lemma wildcard_items_match: "items_match (wildcard_items n) x \<longleftrightarrow> digits x \<and> length x = n"
  by (cases x) (auto simp: wildcard_items_def)

lemma wildcard_items_ok: "n \<le> 1000 \<Longrightarrow> list_all item_ok (wildcard_items n)"
  by (simp add: wildcard_items_def)

lemma digit_block:
  assumes "is_digit a" "is_digit b" "a \<le> b" "n \<le> 1000"
  shows "simple (digitRangePattern a b @ digitWildcard n)"
    and "full_match (digitRangePattern a b @ digitWildcard n) x \<longleftrightarrow>
      (\<exists>c t. x = c # t \<and> is_digit c \<and> digit_val a \<le> digit_val c \<and> digit_val c \<le> digit_val b \<and>
        digits t \<and> length t = n)"
proof -
  let ?is = "range_item a b # wildcard_items n"
  have str: "digitRangePattern a b @ digitWildcard n = items_str ?is"
    by (simp add: digitRangePattern_item digitWildcard_items)
  have ok: "list_all item_ok ?is"
    using assms by (simp add: range_item_ok wildcard_items_ok)
  then show "simple (digitRangePattern a b @ digitWildcard n)"
    unfolding simple_def str by blast
  show "full_match (digitRangePattern a b @ digitWildcard n) x \<longleftrightarrow>
      (\<exists>c t. x = c # t \<and> is_digit c \<and> digit_val a \<le> digit_val c \<and> digit_val c \<le> digit_val b \<and>
        digits t \<and> length t = n)"
    unfolding str full_match_items [OF ok]
    by (simp only: items_match.simps range_item_match [OF assms(1-3)] wildcard_items_match
        split_single_iff conj_assoc)
qed

section \<open>Correctness of the range compiler\<close>

lemma set_unique_loop: "set (unique_loop v vs) = set (v # vs)"
  by (induction vs arbitrary: v) auto

lemma set_uniqueStrings [simp]: "set (uniqueStrings vs) = set vs"
proof (cases "sort_Strings vs")
  case Nil
  then have "set vs = {}" by (metis set_sort_Strings list.set(1))
  with Nil show ?thesis by (simp add: uniqueStrings_def)
next
  case (Cons w ws)
  then have "set vs = set (w # ws)" by (metis set_sort_Strings)
  with Cons show ?thesis by (simp add: uniqueStrings_def set_unique_loop)
qed

lemma unique_loop_sorted: "sorted (v # vs) \<Longrightarrow> sorted (unique_loop v vs) \<and> distinct (unique_loop v vs)"
proof (induction vs arbitrary: v)
  case (Cons w vs)
  then have "sorted (unique_loop w vs)" "distinct (unique_loop w vs)" "v \<le> w" "\<forall>x\<in>set vs. w \<le> x"
    by auto
  moreover from this have "v \<noteq> w \<Longrightarrow> v \<notin> set (unique_loop w vs)"
    by (auto simp: set_unique_loop)
  ultimately show ?case using Cons by (auto simp: set_unique_loop)
qed simp

text \<open>The patterns cover exactly the digit strings of their length between the bounds.\<close>

definition covers :: "string list \<Rightarrow> (string \<Rightarrow> bool) \<Rightarrow> bool" where
  "covers ps P \<longleftrightarrow> (\<forall>p\<in>set ps. simple p) \<and> (\<forall>x. (\<exists>p\<in>set ps. full_match p x) \<longleftrightarrow> P x)"

lemma covers_append: "covers ps P \<Longrightarrow> covers qs Q \<Longrightarrow> covers (ps @ qs) (\<lambda>x. P x \<or> Q x)"
  by (auto simp: covers_def)

lemma covers_uniqueStrings: "covers (uniqueStrings ps) P \<longleftrightarrow> covers ps P"
  by (simp add: covers_def)

lemma covers_prepend:
  "covers ps P \<Longrightarrow> covers (prependPattern (QuoteMeta [c]) ps) (\<lambda>x. \<exists>t. x = c # t \<and> P t)"
  by (auto simp: covers_def prependPattern_def simple_append full_match_QuoteMeta_append)

lemma covers_cong: "covers ps P \<Longrightarrow> (\<And>x. P x \<longleftrightarrow> Q x) \<Longrightarrow> covers ps Q"
  by (simp add: covers_def)

definition between :: "string \<Rightarrow> string \<Rightarrow> string \<Rightarrow> bool" where
  "between lo hi x \<longleftrightarrow> digits x \<and> length x = length lo \<and> decval lo \<le> decval x \<and> decval x \<le> decval hi"

lemma byte_succ_digit:
  "is_digit a \<Longrightarrow> digit_val a < 9 \<Longrightarrow>
   is_digit (byte_succ a) \<and> digit_val (byte_succ a) = digit_val a + 1"
  by (auto simp: is_digit_def digit_val_def byte_succ_def)

lemma byte_pred_digit:
  "is_digit a \<Longrightarrow> 0 < digit_val a \<Longrightarrow>
   is_digit (byte_pred a) \<and> digit_val (byte_pred a) = digit_val a - 1"
  by (auto simp: is_digit_def digit_val_def byte_pred_def mod_if)

text \<open>The middle block of the three: first digits strictly between the two.\<close>

lemma covers_middle:
  assumes "is_digit s" "is_digit e" "digit_val s < digit_val e" "n \<le> 1000"
  shows "covers (if byte_succ s \<le> byte_pred e
      then [digitRangePattern (byte_succ s) (byte_pred e) @ digitWildcard n] else [])
    (\<lambda>x. \<exists>c t. x = c # t \<and> is_digit c \<and> digit_val s < digit_val c \<and> digit_val c < digit_val e \<and>
      digits t \<and> length t = n)"
proof -
  have "digit_val s < 9" using assms digit_val_less [OF assms(2)] by simp
  then have a: "is_digit (byte_succ s)" "digit_val (byte_succ s) = digit_val s + 1"
    using byte_succ_digit assms(1) by auto
  have b: "is_digit (byte_pred e)" "digit_val (byte_pred e) = digit_val e - 1"
    using byte_pred_digit assms(2,3) by auto
  show ?thesis
  proof (cases "byte_succ s \<le> byte_pred e")
    case True
    then show ?thesis
      using digit_block [OF a(1) b(1) True assms(4)] a(2) b(2) assms(3)
      by (auto simp: covers_def Suc_le_eq; fastforce)
  next
    case False
    then have "digit_val e \<le> digit_val s + 1" using a b assms(3) by (simp add: digit_le_iff)
    with False show ?thesis by (auto simp: covers_def)
  qed
qed

lemma covers_QuoteMeta: "covers [QuoteMeta s] (\<lambda>x. x = s)"
  by (simp add: covers_def full_match_QuoteMeta)

lemma between_refl: "digits s \<Longrightarrow> between s s x \<longleftrightarrow> x = s"
  by (auto simp: between_def dest: decval_inject)

lemma between_Cons:
  assumes "digits s" "digits e" "length s = length e" "is_digit a" "is_digit b"
  shows "between (a # s) (b # e) x \<longleftrightarrow>
    (\<exists>c t. x = c # t \<and> is_digit c \<and> digits t \<and> length t = length s \<and>
      (digit_val a < digit_val c \<or> a = c \<and> decval s \<le> decval t) \<and>
      (digit_val c < digit_val b \<or> c = b \<and> decval t \<le> decval e))"
proof (cases x)
  case (Cons c t)
  show ?thesis
  proof (cases "is_digit c \<and> digits t \<and> length t = length s")
    case True
    then show ?thesis
      using Cons assms decval_Cons_le [of s t a c] decval_Cons_le [of t e c b]
      by (simp add: between_def)
  qed (auto simp: between_def Cons)
qed (simp add: between_def)

lemma between_nines:
  assumes "digits s"
  shows "between s (strings_Repeat ''9'' (length s)) x \<longleftrightarrow>
    digits x \<and> length x = length s \<and> decval s \<le> decval x"
proof -
  have "digits x \<Longrightarrow> length x = length s \<Longrightarrow> decval x \<le> 10 ^ length s - 1"
    using decval_less [of x] by auto
  then show ?thesis by (auto simp: between_def Repeat_single decval_nines)
qed

lemma between_zeros:
  "between (strings_Repeat ''0'' (length e)) e x \<longleftrightarrow>
    digits x \<and> length x = length e \<and> decval x \<le> decval e"
  by (auto simp: between_def Repeat_single decval_zeros)

lemma Repeat_digits [simp]:
  "digits (strings_Repeat ''9'' n)" "digits (strings_Repeat ''0'' n)"
  "length (strings_Repeat ''9'' n) = n" "length (strings_Repeat ''0'' n) = n"
  by (simp_all add: Repeat_single digits_replicate)

lemma decval_nines_ge: "digits s \<Longrightarrow> decval s \<le> decval (strings_Repeat ''9'' (length s))"
  using decval_less [of s] by (simp add: Repeat_single decval_nines)

lemma covers_split:
  assumes "covers ps (between s (strings_Repeat ''9'' (length s)))"
    and "covers qs (between (strings_Repeat ''0'' (length e)) e)"
    and "digits s" "digits e" "length s = length e" "is_digit a" "is_digit b"
    and "digit_val a < digit_val b" "length s \<le> 1000"
  shows "covers (prependPattern (QuoteMeta [a]) ps
      @ (if byte_succ a \<le> byte_pred b
         then [digitRangePattern (byte_succ a) (byte_pred b) @ digitWildcard (length s)] else [])
      @ prependPattern (QuoteMeta [b]) qs) (between (a # s) (b # e))"
proof -
  note parts = covers_append [OF covers_prepend [OF assms(1)]
      covers_append [OF covers_middle [OF assms(6-9)] covers_prepend [OF assms(2)]]]
  show ?thesis
  proof (rule covers_cong [OF parts])
    fix x
    show "(\<exists>t. x = a # t \<and> between s (strings_Repeat ''9'' (length s)) t) \<or>
        (\<exists>c t. x = c # t \<and> is_digit c \<and> digit_val a < digit_val c \<and> digit_val c < digit_val b \<and>
          digits t \<and> length t = length s) \<or>
        (\<exists>t. x = b # t \<and> between (strings_Repeat ''0'' (length e)) e t) \<longleftrightarrow>
      between (a # s) (b # e) x"
      unfolding between_Cons [OF assms(3-7)] between_nines [OF assms(3)] between_zeros
      using assms(5-8) by auto
  qed
qed

lemma covers_sameLength:
  "digits start \<Longrightarrow> digits end' \<Longrightarrow> length start = length end' \<Longrightarrow> decval start \<le> decval end' \<Longrightarrow>
   length start \<le> 1000 \<Longrightarrow> covers (sameLengthRangePatterns start end') (between start end')"
proof (induction start end' rule: sameLengthRangePatterns.induct)
  case (1 end')
  then have "end' = []" by simp
  moreover have "covers [QuoteMeta []] (between [] [])"
    by (rule covers_cong [OF covers_QuoteMeta]) (simp add: between_refl)
  ultimately show ?case by simp
next
  case (3 s start e end')
  from "3.prems" have ok: "digits start" "digits end'" "length start = length end'" "is_digit s" "is_digit e"
    and n: "length start \<le> 1000" by simp_all
  have le: "digit_val s < digit_val e \<or> s = e \<and> decval start \<le> decval end'"
    using decval_Cons_le [OF ok] "3.prems"(4) by simp
  consider "s # start = e # end'" | "s # start \<noteq> e # end'" "start = []"
    | "s # start \<noteq> e # end'" "start \<noteq> []" "s = e"
    | "start \<noteq> []" "s \<noteq> e" by auto
  then show ?case
  proof cases
    case 1
    then show ?thesis
      using covers_cong [OF covers_QuoteMeta [of "s # start"]] between_refl "3.prems"(1) by auto
  next
    case 2
    with le ok(3) have "digit_val s < digit_val e" by auto
    then have "s \<le> e" using ok by (simp add: digit_le_iff)
    from digit_block [OF ok(4,5) this, of 0] have "covers [digitRangePattern s e]
        (\<lambda>x. \<exists>c. x = [c] \<and> is_digit c \<and> digit_val s \<le> digit_val c \<and> digit_val c \<le> digit_val e)"
      by (simp add: covers_def digitWildcard_def)
    moreover have "between (s # start) (e # end') x \<longleftrightarrow>
        (\<exists>c. x = [c] \<and> is_digit c \<and> digit_val s \<le> digit_val c \<and> digit_val c \<le> digit_val e)" for x
      using 2 ok unfolding between_Cons [OF ok]
      by (auto simp: le_less digit_val_inject)
    ultimately show ?thesis using 2 by (auto simp: covers_def)
  next
    case 3
    with le have "decval start \<le> decval end'" by auto
    from covers_prepend [OF "3.IH"(1) [OF 3 ok(1-3) this n], of s] show ?thesis
      using 3 ok by (auto simp: between_Cons intro: covers_cong) (auto simp: between_def intro: covers_cong)
  next
    case 4
    with le have lt: "digit_val s < digit_val e" by blast
    have "covers (sameLengthRangePatterns start (strings_Repeat ''9'' (length start)))
        (between start (strings_Repeat ''9'' (length start)))"
      using "3.IH"(2) 4 ok(1) n decval_nines_ge [OF ok(1)] by simp
    moreover have "covers (sameLengthRangePatterns (strings_Repeat ''0'' (length end')) end')
        (between (strings_Repeat ''0'' (length end')) end')"
      using "3.IH"(3) 4 ok n by (simp add: Repeat_single decval_zeros digits_replicate)
    ultimately show ?thesis
      using covers_split [OF _ _ ok lt n] 4 by (simp add: covers_uniqueStrings)
  qed
qed simp

section \<open>Intervals of canonical decimals\<close>

abbreviation decimal :: "string \<Rightarrow> bool" where
  "decimal \<equiv> decimalValuePattern_MatchString"

lemma decimal_iff:
  "decimal s \<longleftrightarrow> digits s \<and> s \<noteq> [] \<and> (length s = 1 \<or> 10 ^ (length s - 1) \<le> decval s)"
proof (cases s)
  case (Cons c t)
  show ?thesis
  proof (cases "digits t \<and> is_digit c")
    case True
    then have t: "decval t < 10 ^ length t" by (simp add: decval_less)
    have zero: "digit_val c = 0 \<longleftrightarrow> c = CHR ''0''"
      by (rule digit_val_zero) (use True in simp)
    have "(10 ^ length t \<le> digit_val c * 10 ^ length t + decval t) \<longleftrightarrow> digit_val c \<noteq> 0"
      using t by (cases "digit_val c") auto
    moreover have "decimal s \<longleftrightarrow> t = [] \<or> c \<noteq> CHR ''0''"
      using True Cons by (auto simp: decimalValuePattern_MatchString_def)
    ultimately show ?thesis using True Cons zero by auto
  qed (auto simp: Cons decimalValuePattern_MatchString_def)
qed (simp add: decimalValuePattern_MatchString_def)

lemma decimal_length_less:
  assumes "decimal s" "decimal t" "length s < length t"
  shows "decval s < decval t"
proof -
  have "decval s < 10 ^ length s" using assms(1) by (simp add: decimal_iff decval_less)
  also have "\<dots> \<le> (10::nat) ^ (length t - 1)" using assms(3) by (intro power_increasing) auto
  also have "\<dots> \<le> decval t"
  proof -
    have "0 < length s" using assms(1) by (simp add: decimal_iff)
    with assms(2,3) show ?thesis by (auto simp: decimal_iff)
  qed
  finally show ?thesis .
qed

lemma decimal_uint64_length: "decimal s \<Longrightarrow> decval s < 2 ^ 64 \<Longrightarrow> length s \<le> 20"
proof (rule ccontr)
  assume s: "decimal s" "decval s < 2 ^ 64" and "\<not> length s \<le> 20"
  then have "(10::nat) ^ 20 \<le> 10 ^ (length s - 1)" by (intro power_increasing) auto
  also have "\<dots> \<le> decval s" using s \<open>\<not> length s \<le> 20\<close> by (auto simp: decimal_iff)
  finally show False using s(2) by simp
qed

lemma covers_anyNumber:
  assumes "2 \<le> n" "n \<le> 1000"
  shows "covers [anyNumberPattern n] (\<lambda>x. decimal x \<and> length x = n)"
proof -
  have d: "is_digit CHR ''1''" "is_digit CHR ''9''" "CHR ''1'' \<le> CHR ''9''"
    by (simp_all add: is_digit_def less_eq_char_def)
  have str: "anyNumberPattern n = digitRangePattern CHR ''1'' CHR ''9'' @ digitWildcard (n - 1)"
    using assms by (simp add: anyNumberPattern_def digitRangePattern_def)
  have one: "digit_val CHR ''1'' \<le> digit_val c \<longleftrightarrow> c \<noteq> CHR ''0''" if "is_digit c" for c
    using digit_val_zero [OF that] by (auto simp: digit_val_def Suc_le_eq)
  have "digit_val c \<le> digit_val CHR ''9''" if "is_digit c" for c
    using that by (auto simp: digit_val_def is_digit_def)
  with one have "(\<exists>c t. x = c # t \<and> is_digit c \<and> digit_val CHR ''1'' \<le> digit_val c \<and>
      digit_val c \<le> digit_val CHR ''9'' \<and> digits t \<and> length t = n - 1) \<longleftrightarrow> decimal x \<and> length x = n" for x
    using assms(1) by (cases x) (auto simp: decimalValuePattern_MatchString_def)
  then show ?thesis
    using digit_block [OF d, of "n - 1"] assms(2) by (simp add: covers_def str)
qed

lemma covers_anyNumbers:
  "2 \<le> a \<Longrightarrow> b \<le> 1000 \<Longrightarrow>
   covers (map anyNumberPattern [a..<b]) (\<lambda>x. decimal x \<and> a \<le> length x \<and> length x < b)"
  using covers_anyNumber by (auto simp: covers_def)

lemma minValueForLength_facts:
  assumes "2 \<le> n"
  shows "digits (minValueForLength n)" "length (minValueForLength n) = n"
    "decval (minValueForLength n) = 10 ^ (n - 1)"
  using assms by (auto simp: minValueForLength_def Repeat_single decval_zeros digit_val_def
      digits_replicate is_digit_def)

text \<open>A list of covering patterns joined by bars, with and without the anchors.\<close>

lemma simple_list:
  "\<forall>p\<in>set ps. simple p \<Longrightarrow> \<exists>iss. list_all (list_all item_ok) iss \<and> ps = map items_str iss"
proof (induction ps)
  case (Cons p ps)
  then obtain iss where "list_all (list_all item_ok) iss" "ps = map items_str iss" by auto
  moreover from Cons.prems obtain "is" where "list_all item_ok is" "p = items_str is"
    by (auto simp: simple_def)
  ultimately show ?case by (intro exI [of _ "is # iss"]) simp
qed simp

lemma covers_Join:
  assumes "covers ps P" "P w"
  shows "full_match (anchored (strings_Join ps ''|'')) x \<longleftrightarrow> P x"
    and "search_match (anchored (strings_Join ps ''|'')) x \<longleftrightarrow> P x"
    and "full_match (strings_Join ps ''|'') x \<longleftrightarrow> P x"
proof -
  from assms(1) obtain iss where iss: "list_all (list_all item_ok) iss" "ps = map items_str iss"
    using simple_list [of ps] by (auto simp: covers_def)
  have "ps \<noteq> []" using assms by (auto simp: covers_def)
  with iss have ne: "iss \<noteq> []" by auto
  have "P x \<longleftrightarrow> (\<exists>is\<in>set iss. items_match is x)" for x
    using assms(1) iss full_match_items by (auto simp: covers_def list_all_iff)
  then show "full_match (anchored (strings_Join ps ''|'')) x \<longleftrightarrow> P x"
    "search_match (anchored (strings_Join ps ''|'')) x \<longleftrightarrow> P x"
    "full_match (strings_Join ps ''|'') x \<longleftrightarrow> P x"
    using full_match_anchored [OF iss(1) ne] search_match_anchored [OF iss(1) ne]
      full_match_join [OF iss(1) ne] iss(2) by simp_all
qed

text \<open>Between two canonical decimals of different lengths.\<close>

lemma between_decimal:
  "decimal lo \<Longrightarrow> between lo hi x \<longleftrightarrow>
   decimal x \<and> length x = length lo \<and> decval lo \<le> decval x \<and> decval x \<le> decval hi"
  by (auto simp: between_def decimal_iff)

lemma covers_range:
  assumes "decimal a" "decimal b" "decval a \<le> decval b" "length b \<le> 1000"
  shows "covers (if length a = length b then sameLengthRangePatterns a b
      else sameLengthRangePatterns a (strings_Repeat ''9'' (length a))
        @ map anyNumberPattern [length a + 1..<length b]
        @ sameLengthRangePatterns (minValueForLength (length b)) b)
    (\<lambda>x. decimal x \<and> decval a \<le> decval x \<and> decval x \<le> decval b)"
proof -
  have digs: "digits a" "digits b" "a \<noteq> []" using assms by (auto simp: decimal_iff)
  have len: "length a \<le> length b" using assms decimal_length_less [of b a] by force
  have between_len: "length a \<le> length x \<and> length x \<le> length b"
    if "decimal x" "decval a \<le> decval x" "decval x \<le> decval b" for x
    using that assms decimal_length_less [of x a] decimal_length_less [of b x] by force
  show ?thesis
  proof (cases "length a = length b")
    case True
    then have "covers (sameLengthRangePatterns a b) (between a b)"
      using assms digs by (intro covers_sameLength) auto
    then have "covers (sameLengthRangePatterns a b)
        (\<lambda>x. decimal x \<and> decval a \<le> decval x \<and> decval x \<le> decval b)"
      by (rule covers_cong) (use True between_len assms(1) in \<open>auto simp: between_decimal le_antisym\<close>)
    with True show ?thesis by simp
  next
    case False
    moreover have "1 \<le> length a" using digs(3) by (simp add: Suc_le_eq)
    ultimately have two: "2 \<le> length b" "1 \<le> length a" "length a < length b" using len by linarith+
    note min = minValueForLength_facts [OF two(1)]
    have "decimal (minValueForLength (length b))" using min two(1) by (auto simp: decimal_iff)
    moreover have "decval (minValueForLength (length b)) \<le> decval b"
      using assms(2) two(1) min by (auto simp: decimal_iff)
    ultimately have hi: "covers (sameLengthRangePatterns (minValueForLength (length b)) b)
        (\<lambda>x. decimal x \<and> length x = length b \<and> decval x \<le> decval b)"
      by (intro covers_cong [OF covers_sameLength [OF min(1) digs(2) min(2)]])
        (use assms(4) min two(1) in \<open>auto simp: between_decimal decimal_iff\<close>)
    have lo: "covers (sameLengthRangePatterns a (strings_Repeat ''9'' (length a)))
        (\<lambda>x. decimal x \<and> length x = length a \<and> decval a \<le> decval x)"
      by (rule covers_cong [OF covers_sameLength [OF digs(1)]])
        (use digs assms(1,4) len decval_nines_ge [OF digs(1)] in
          \<open>auto simp: between_nines decimal_iff\<close>)
    have mid: "covers (map anyNumberPattern [length a + 1..<length b])
        (\<lambda>x. decimal x \<and> length a + 1 \<le> length x \<and> length x < length b)"
      using two assms(4) by (intro covers_anyNumbers) auto
    have "covers (sameLengthRangePatterns a (strings_Repeat ''9'' (length a))
        @ map anyNumberPattern [length a + 1..<length b]
        @ sameLengthRangePatterns (minValueForLength (length b)) b)
      (\<lambda>x. decimal x \<and> decval a \<le> decval x \<and> decval x \<le> decval b)"
    proof (rule covers_cong [OF covers_append [OF lo covers_append [OF mid hi]]])
      fix x
      show "decimal x \<and> length x = length a \<and> decval a \<le> decval x \<or>
          (decimal x \<and> length a + 1 \<le> length x \<and> length x < length b) \<or>
          (decimal x \<and> length x = length b \<and> decval x \<le> decval b) \<longleftrightarrow>
        decimal x \<and> decval a \<le> decval x \<and> decval x \<le> decval b"
      proof (cases "decimal x")
        case True
        have "decval a \<le> decval x \<and> decval x \<le> decval b \<longrightarrow> length a \<le> length x \<and> length x \<le> length b"
          using between_len True by blast
        moreover have "length a < length x \<longrightarrow> decval a < decval x" "length x < length b \<longrightarrow> decval x < decval b"
          using decimal_length_less True assms(1,2) by auto
        ultimately have "length x = length a \<and> decval a \<le> decval x \<or>
            (length a + 1 \<le> length x \<and> length x < length b) \<or>
            (length x = length b \<and> decval x \<le> decval b) \<longleftrightarrow>
          decval a \<le> decval x \<and> decval x \<le> decval b"
          using two(3) by arith
        with True show ?thesis by simp
      qed simp
    qed
    with False show ?thesis by simp
  qed
qed

lemma numericRangeRegex_covers:
  assumes "range_wf r"
  shows "\<exists>ps. numericRangeRegex (rng_Start r) (rng_End r) = Inr (strings_Join ps ''|'') \<and>
    covers ps (\<lambda>x. decimal x \<and> decval (rng_Start r) \<le> decval x \<and> decval x \<le> decval (rng_End r))"
proof (cases "rng_Start r = rng_End r")
  case True
  have "covers [QuoteMeta (rng_Start r)]
      (\<lambda>x. decimal x \<and> decval (rng_Start r) \<le> decval x \<and> decval x \<le> decval (rng_End r))"
  proof (rule covers_cong [OF covers_QuoteMeta])
    fix x
    show "x = rng_Start r \<longleftrightarrow>
        decimal x \<and> decval (rng_Start r) \<le> decval x \<and> decval x \<le> decval (rng_End r)"
      using assms True decimal_length_less [of x "rng_Start r"] decimal_length_less [of "rng_Start r" x]
        decval_inject [of x "rng_Start r"]
      by (auto simp: range_wf_def dest: decimal_digits) (metis decimal_digits le_antisym nat_neq_iff)
  qed
  with True show ?thesis
    by (intro exI [of _ "[QuoteMeta (rng_Start r)]"]) (simp add: numericRangeRegex_def)
next
  case False
  from assms have wf: "decimal (rng_Start r)" "decimal (rng_End r)"
    "decval (rng_Start r) \<le> decval (rng_End r)" "decval (rng_End r) < 2 ^ 64"
    by (auto simp: range_wf_def)
  have "length (rng_End r) \<le> 1000" using decimal_uint64_length [OF wf(2,4)] by simp
  note cov = covers_uniqueStrings [THEN iffD2, OF covers_range [OF wf(1-3) this]]
  have "(of_nat (decval (rng_Start r)) :: uint64) \<le> of_nat (decval (rng_End r))"
    using wf(3,4) by (simp add: word_le_nat_alt unat_of_nat)
  then show ?thesis
    using cov wf False ParseUint_digits [of "rng_Start r"] ParseUint_digits [of "rng_End r"]
      decimal_digits [OF wf(1)] decimal_digits [OF wf(2)]
    by (intro exI conjI, simp add: numericRangeRegex_def Let_def not_less)
qed

section \<open>Properties\<close>

text \<open>
  C1: for every range that passes validation the compiler returns a regular expression, and
  once anchored that expression matches a subject exactly when the subject is a canonical
  decimal number between the two bounds, both under whole-subject matching and under search.
\<close>

theorem range_regex_exact:
  assumes "NumericRange_Validate (Some r) = None"
  shows "\<exists>regex. numericRangeRegex (rng_Start r) (rng_End r) = Inr regex \<and>
    (\<forall>x. (full_match (anchored regex) x \<longleftrightarrow>
        decimalValuePattern_MatchString x \<and> decval (rng_Start r) \<le> decval x \<and> decval x \<le> decval (rng_End r)) \<and>
      (search_match (anchored regex) x \<longleftrightarrow> full_match (anchored regex) x))"
proof -
  from assms have wf: "range_wf r" by (simp add: NumericRange_Validate_iff)
  from numericRangeRegex_covers [OF wf] obtain ps where
    ps: "numericRangeRegex (rng_Start r) (rng_End r) = Inr (strings_Join ps ''|'')" and
    cov: "covers ps (\<lambda>x. decimal x \<and> decval (rng_Start r) \<le> decval x \<and> decval x \<le> decval (rng_End r))"
    by blast
  from wf have "decimal (rng_Start r) \<and> decval (rng_Start r) \<le> decval (rng_Start r) \<and>
      decval (rng_Start r) \<le> decval (rng_End r)" by (simp add: range_wf_def)
  with covers_Join(1,2) [OF cov] ps show ?thesis by auto
qed

theorem range_regex_exact_witness:
  "NumericRange_Validate (Some \<lparr>rng_Start = ''95'', rng_End = ''102''\<rparr>) = None \<and>
   numericRangeRegex ''95'' ''102'' = Inr ''10[0-2]|9[5-9]'' \<and>
   full_match (anchored ''10[0-2]|9[5-9]'') ''101''"
proof -
  have valid: "NumericRange_Validate (Some \<lparr>rng_Start = ''95'', rng_End = ''102''\<rparr>) = None"
    by (simp add: NumericRange_Validate_iff range_wf_def decimalValuePattern_MatchString_def
        is_digit_def digit_val_def)
  have regex: "numericRangeRegex ''95'' ''102'' = Inr ''10[0-2]|9[5-9]''"
    by code_simp
  from range_regex_exact [OF valid] regex
  have "full_match (anchored ''10[0-2]|9[5-9]'') ''101''"
    by (simp add: decimalValuePattern_MatchString_def is_digit_def digit_val_def)
  with valid regex show ?thesis by simp
qed

end
