(* ===== verification/PlacementCompiler.thy ===== *)
theory PlacementCompiler
  imports RangeRegex
begin

text \<open>
  \<^verbatim>\<open>internal/controller/cellplacement_compiler.go\<close>, the part that turns one placement into a
  route: \<^verbatim>\<open>routeSpecFromPlacement\<close> and the functions it calls. The regular expression
  compiler that validation consults stays the argument \<open>subexpNames\<close>.
\<close>

section \<open>Selectors\<close>

text \<open>
  The range selector without a range is a panic in the source and the error \<open>NilDeref\<close> here;
  \<open>selectorRegexBody_covers\<close> shows that no valid selector gets there.
\<close>

definition selectorRegexBody :: "CellPlacementSelector \<Rightarrow> error + string" where
  "selectorRegexBody selector =
     (if sel_Operator selector = SelectorOperatorExact then Inr (QuoteMeta (sel_Value selector))
      else if sel_Operator selector = SelectorOperatorPrefix
      then Inr (QuoteMeta (sel_Value selector) @ ''.*'')
      else if sel_Operator selector = SelectorOperatorSuffix
      then Inr (''.*'' @ QuoteMeta (sel_Value selector))
      else if sel_Operator selector = SelectorOperatorRange then
        (case sel_Range selector of None \<Rightarrow> Inl NilDeref
         | Some r \<Rightarrow> numericRangeRegex (rng_Start r) (rng_End r))
      else Inl (Errorf (''unsupported selector operator '' @ go_quote (sel_Operator selector))))"

definition compileSelectorRegex :: "CellPlacementSelector \<Rightarrow> error + string" where
  "compileSelectorRegex selector =
     (case selectorRegexBody selector of Inl err \<Rightarrow> Inl err
      | Inr body \<Rightarrow> Inr (''^(?:'' @ body @ '')$''))"

definition compileHeaderSelector :: "CellPlacementSelector \<Rightarrow> error + HTTPHeaderMatch" where
  "compileHeaderSelector selector =
     (if sel_Operator selector = SelectorOperatorExact
      then Inr \<lparr>hm_Name = src_Name (sel_Source selector), hm_Value = sel_Value selector,
                hm_Type = Some HeaderMatchExact\<rparr>
      else case compileSelectorRegex selector of Inl err \<Rightarrow> Inl err
        | Inr regexValue \<Rightarrow> Inr \<lparr>hm_Name = src_Name (sel_Source selector), hm_Value = regexValue,
              hm_Type = Some HeaderMatchRegularExpression\<rparr>)"

definition compileQuerySelector :: "CellPlacementSelector \<Rightarrow> error + HTTPQueryParamMatch" where
  "compileQuerySelector selector =
     (if sel_Operator selector = SelectorOperatorExact
      then Inr \<lparr>qm_Name = src_Name (sel_Source selector), qm_Value = sel_Value selector,
                qm_Type = Some QueryParamMatchExact\<rparr>
      else case compileSelectorRegex selector of Inl err \<Rightarrow> Inl err
        | Inr regexValue \<Rightarrow> Inr \<lparr>qm_Name = src_Name (sel_Source selector), qm_Value = regexValue,
              qm_Type = Some QueryParamMatchRegularExpression\<rparr>)"

section \<open>Path captures\<close>

text \<open>
  The scan for the parenthesis that closes the capture: the rest of the pattern, the flags of
  the source and the depth. The result is the offset of the closing parenthesis.
\<close>

fun capture_close :: "string \<Rightarrow> bool \<Rightarrow> bool \<Rightarrow> nat \<Rightarrow> nat option" where
  "capture_close [] inClass escaped depth = None"
| "capture_close (ch # rest) inClass escaped depth =
     (if escaped then map_option Suc (capture_close rest inClass False depth)
      else if ch = backslash then map_option Suc (capture_close rest inClass True depth)
      else if ch = CHR ''['' then map_option Suc (capture_close rest True False depth)
      else if ch = CHR '']'' then map_option Suc (capture_close rest False False depth)
      else if ch = CHR ''('' \<and> \<not> inClass
      then map_option Suc (capture_close rest inClass False (depth + 1))
      else if ch = CHR '')'' \<and> \<not> inClass then
        (if depth - 1 = 0 then Some 0
         else map_option Suc (capture_close rest inClass False (depth - 1)))
      else map_option Suc (capture_close rest inClass False depth))"

definition capture_prefix :: "string \<Rightarrow> string" where
  "capture_prefix captureName = ''(?P<'' @ captureName @ ''>''"

definition replaceNamedCaptureBody :: "string \<Rightarrow> string \<Rightarrow> string \<Rightarrow> error + string" where
  "replaceNamedCaptureBody pattern captureName replacement =
     (let pre = capture_prefix captureName; index = strings_Index pattern pre in
      if index < 0 then Inl (Errorf (''pathRegex must contain named capture '' @ go_quote captureName))
      else let bodyStart = nat index + length pre in
        (case capture_close (drop bodyStart pattern) False False 1 of
           None \<Rightarrow> Inl (Errorf (''pathRegex capture '' @ go_quote captureName @ '' is not closed''))
         | Some n \<Rightarrow> Inr (take bodyStart pattern @ replacement @ drop (bodyStart + n) pattern)))"

fun compile_path_loop :: "CellPlacementSelector list \<Rightarrow> string \<Rightarrow> error + string" where
  "compile_path_loop [] pathRegex = Inr pathRegex"
| "compile_path_loop (selector # selectors) pathRegex =
     (case selectorRegexBody selector of Inl err \<Rightarrow> Inl err
      | Inr body \<Rightarrow> (case replaceNamedCaptureBody pathRegex (src_Name (sel_Source selector)) body of
            Inl err \<Rightarrow> Inl err
          | Inr pathRegex' \<Rightarrow> compile_path_loop selectors pathRegex'))"

definition is_path_selector :: "CellPlacementSelector \<Rightarrow> bool" where
  "is_path_selector selector \<longleftrightarrow> src_Type (sel_Source selector) = SelectorSourcePathCapture"

definition compilePathRegex :: "CellPlacementSelector list \<Rightarrow> error + string" where
  "compilePathRegex selectors =
     (case filter is_path_selector selectors of
        [] \<Rightarrow> Inr []
      | s # ss \<Rightarrow> compile_path_loop (s # ss) (src_PathRegex (sel_Source s)))"

section \<open>Placements\<close>

text \<open>The loop that collects header and query matches into the route.\<close>

fun collect_matches :: "CellPlacementSelector list \<Rightarrow> CellRouteSpec \<Rightarrow> error + CellRouteSpec" where
  "collect_matches [] spec = Inr spec"
| "collect_matches (selector # selectors) spec =
     (if src_Type (sel_Source selector) = SelectorSourceHeader then
        (case compileHeaderSelector selector of Inl err \<Rightarrow> Inl err
         | Inr match \<Rightarrow> collect_matches selectors
             (spec\<lparr>rt_HeaderMatches := rt_HeaderMatches spec @ [match]\<rparr>))
      else if src_Type (sel_Source selector) = SelectorSourceQueryParam then
        (case compileQuerySelector selector of Inl err \<Rightarrow> Inl err
         | Inr match \<Rightarrow> collect_matches selectors
             (spec\<lparr>rt_QueryParamMatches := rt_QueryParamMatches spec @ [match]\<rparr>))
      else collect_matches selectors spec)"

definition routeSpecFromPlacement ::
    "(string \<Rightarrow> string list option) \<Rightarrow> CellPlacement \<Rightarrow> error + CellRouteSpec" where
  "routeSpecFromPlacement subexpNames placement =
     (case Placement_Validate subexpNames placement of Some err \<Rightarrow> Inl err
      | None \<Rightarrow>
          let pspec = placement_Spec placement;
              spec = \<lparr>rt_Name = placement_Name placement, rt_CellRef = [],
                rt_ListenerNames = ps_ListenerNames pspec, rt_Hostnames = ps_Hostnames pspec,
                rt_PathMatch = None, rt_HeaderMatches = [], rt_QueryParamMatches = [],
                rt_Weight = None, rt_AdditionalBackends = [], rt_FallbackBackend = None\<rparr> in
          (case compilePathRegex (ps_Selectors pspec) of Inl err \<Rightarrow> Inl err
           | Inr pathRegex \<Rightarrow>
               let spec = (if pathRegex \<noteq> [] then spec\<lparr>rt_PathMatch :=
                     Some \<lparr>pm_Type = Some PathMatchRegularExpression, pm_Value = pathRegex\<rparr>\<rparr>
                   else spec) in
               (case collect_matches (ps_Selectors pspec) spec of Inl err \<Rightarrow> Inl err
                | Inr spec \<Rightarrow>
                    (case ps_Destinations pspec of [] \<Rightarrow> Inr spec
                     | d # ds \<Rightarrow> Inr (spec\<lparr>rt_CellRef := br_CellRef d, rt_Weight := br_Weight d,
                         rt_AdditionalBackends := ds\<rparr>)))))"

section \<open>What a selector asks of a request\<close>

text \<open>
  The intended meaning of the operators on an extracted value, stated without regular
  expressions.
\<close>

definition selector_accepts :: "CellPlacementSelector \<Rightarrow> string \<Rightarrow> bool" where
  "selector_accepts s x \<longleftrightarrow>
     (if sel_Operator s = SelectorOperatorExact then x = sel_Value s
      else if sel_Operator s = SelectorOperatorPrefix then prefix (sel_Value s) x
      else if sel_Operator s = SelectorOperatorSuffix then suffix (sel_Value s) x
      else if sel_Operator s = SelectorOperatorRange then
        (case sel_Range s of None \<Rightarrow> False
         | Some r \<Rightarrow> decimalValuePattern_MatchString x \<and> decval (rng_Start r) \<le> decval x \<and>
             decval x \<le> decval (rng_End r))
      else False)"

lemma covers_prefix: "covers [QuoteMeta v @ ''.*''] (\<lambda>x. \<exists>u. x = v @ u \<and> CHR 0x0A \<notin> set u)"
proof -
  have "simple ''.*''" unfolding simple_def by (intro exI [of _ "[IAny]"]) simp
  moreover have "full_match ''.*'' x \<longleftrightarrow> CHR 0x0A \<notin> set x" for x
    using full_match_items [of "[IAny]" x] by simp
  ultimately show ?thesis
    by (simp add: covers_def simple_append full_match_QuoteMeta_append)
qed

lemma covers_suffix: "covers [''.*'' @ QuoteMeta v] (\<lambda>x. \<exists>u. x = u @ v \<and> CHR 0x0A \<notin> set u)"
proof -
  have str: "''.*'' @ QuoteMeta v = items_str (IAny # map IChar v)"
    by (simp add: QuoteMeta_items)
  have ok: "list_all item_ok (IAny # map IChar v)" by (simp add: list_all_iff)
  have "items_match (IAny # map IChar v) x \<longleftrightarrow> (\<exists>u. x = u @ v \<and> CHR 0x0A \<notin> set u)" for x
    using items_match_chars [of v "[]"] by auto
  moreover have "simple (items_str (IAny # map IChar v))"
    unfolding simple_def using ok by (intro exI [of _ "IAny # map IChar v"] conjI refl)
  ultimately show ?thesis
    unfolding covers_def str using full_match_items [OF ok] by (simp del: items_match.simps)
qed

text \<open>The alternatives behind the body of a well-formed selector.\<close>

lemma selectorRegexBody_covers:
  assumes "selector_wf s"
  shows "\<exists>ps P w. selectorRegexBody s = Inr (strings_Join ps ''|'') \<and> covers ps P \<and> P w \<and>
    (\<forall>x. CHR 0x0A \<notin> set x \<longrightarrow> (P x \<longleftrightarrow> selector_accepts s x))"
proof -
  from assms consider
      "sel_Operator s = SelectorOperatorExact" | "sel_Operator s = SelectorOperatorPrefix"
    | "sel_Operator s = SelectorOperatorSuffix"
    | r where "sel_Operator s = SelectorOperatorRange" "sel_Range s = Some r" "range_wf r"
    by (auto simp: selector_wf_def split: if_splits)
  then show ?thesis
  proof cases
    case 1
    then show ?thesis
      using covers_QuoteMeta [of "sel_Value s"]
      by (intro exI [of _ "[QuoteMeta (sel_Value s)]"] exI [of _ "\<lambda>x. x = sel_Value s"])
        (simp add: selectorRegexBody_def selector_accepts_def)
  next
    case 2
    then show ?thesis
      using covers_prefix [of "sel_Value s"]
      by (intro exI [of _ "[QuoteMeta (sel_Value s) @ ''.*'']"]
          exI [of _ "\<lambda>x. \<exists>u. x = sel_Value s @ u \<and> CHR 0x0A \<notin> set u"] exI [of _ "sel_Value s"])
        (auto simp: selectorRegexBody_def selector_accepts_def prefix_def)
  next
    case 3
    then show ?thesis
      using covers_suffix [of "sel_Value s"]
      by (intro exI [of _ "[''.*'' @ QuoteMeta (sel_Value s)]"]
          exI [of _ "\<lambda>x. \<exists>u. x = u @ sel_Value s \<and> CHR 0x0A \<notin> set u"] exI [of _ "sel_Value s"])
        (auto simp: selectorRegexBody_def selector_accepts_def suffix_def)
  next
    case (4 r)
    from numericRangeRegex_covers [OF 4(3)] obtain ps where ps:
      "numericRangeRegex (rng_Start r) (rng_End r) = Inr (strings_Join ps ''|'')"
      "covers ps (\<lambda>x. decimal x \<and> decval (rng_Start r) \<le> decval x \<and> decval x \<le> decval (rng_End r))"
      by blast
    moreover have "decimal (rng_Start r) \<and> decval (rng_Start r) \<le> decval (rng_Start r) \<and>
        decval (rng_Start r) \<le> decval (rng_End r)" using 4(3) by (simp add: range_wf_def)
    ultimately show ?thesis
      using 4
      by (intro exI [of _ ps] exI [of _ "\<lambda>x. decimal x \<and> decval (rng_Start r) \<le> decval x \<and>
              decval x \<le> decval (rng_End r)"] exI [of _ "rng_Start r"])
        (simp add: selectorRegexBody_def selector_accepts_def)
  qed
qed

section \<open>Selectors against their meaning\<close>

lemma compileSelectorRegex_exact:
  assumes "selector_wf s"
  obtains regex where "compileSelectorRegex s = Inr regex" "re_parse regex \<noteq> None"
    and "\<And>x. CHR 0x0A \<notin> set x \<Longrightarrow> full_match regex x = selector_accepts s x"
    and "\<And>x. CHR 0x0A \<notin> set x \<Longrightarrow> search_match regex x = selector_accepts s x"
proof -
  from selectorRegexBody_covers [OF assms] obtain ps P w where
    ps: "selectorRegexBody s = Inr (strings_Join ps ''|'')" "covers ps P" "P w"
      "\<And>x. CHR 0x0A \<notin> set x \<Longrightarrow> P x = selector_accepts s x" by blast
  let ?regex = "anchored (strings_Join ps ''|'')"
  note eq = covers_Join(1,2) [OF ps(2,3)]
  have "full_match ?regex w" using eq(1) ps(3) by blast
  then have parse: "re_parse ?regex \<noteq> None" by (auto simp: full_match_def split: option.splits)
  have "compileSelectorRegex s = Inr ?regex"
    using ps(1) by (simp add: compileSelectorRegex_def anchored_def)
  then show ?thesis
    by (rule that [OF _ parse]) (simp_all only: eq ps(4) not_False_eq_True)
qed

text \<open>
  A data plane evaluates a match of the Gateway API on the value it extracted: an exact match
  compares, a regular expression goes to the engine of the data plane, the argument \<open>engine\<close>
  (pattern, subject). An absent type means \<^verbatim>\<open>Exact\<close>.
\<close>

definition header_match_holds :: "(string \<Rightarrow> string \<Rightarrow> bool) \<Rightarrow> HTTPHeaderMatch \<Rightarrow> string \<Rightarrow> bool" where
  "header_match_holds engine m x \<longleftrightarrow>
     (if hm_Type m = Some HeaderMatchRegularExpression then engine (hm_Value m) x
      else x = hm_Value m)"

definition query_match_holds :: "(string \<Rightarrow> string \<Rightarrow> bool) \<Rightarrow> HTTPQueryParamMatch \<Rightarrow> string \<Rightarrow> bool" where
  "query_match_holds engine m x \<longleftrightarrow>
     (if qm_Type m = Some QueryParamMatchRegularExpression then engine (qm_Value m) x
      else x = qm_Value m)"

text \<open>
  The engine follows the documented syntax: on every pattern of the modelled fragment it agrees
  with a whole-subject match or, like \<^verbatim>\<open>regexp.MatchString\<close>, with a search. The compiler only
  emits anchors, groups, quoted literals, digit classes with a repetition count and \<^verbatim>\<open>.*\<close>; the
  corners where an RE2 engine departs from the fragment (two groups of one name, a quantifier
  after a literal of several bytes, nested counts above 1000) are in none of its header and
  query expressions.
\<close>

definition conforming :: "(string \<Rightarrow> string \<Rightarrow> bool) \<Rightarrow> bool" where
  "conforming engine \<longleftrightarrow>
     (\<forall>p. re_parse p \<noteq> None \<longrightarrow> engine p = full_match p \<or> engine p = search_match p)"

lemma compileHeaderSelector_exact:
  assumes "selector_wf s" "conforming engine"
  obtains m where "compileHeaderSelector s = Inr m" "hm_Name m = src_Name (sel_Source s)"
    and "\<And>x. CHR 0x0A \<notin> set x \<Longrightarrow> header_match_holds engine m x = selector_accepts s x"
proof (cases "sel_Operator s = SelectorOperatorExact")
  case True
  then show ?thesis
    by (intro that [OF compileHeaderSelector_def [THEN trans]])
      (auto simp: header_match_holds_def selector_accepts_def)
next
  case False
  from assms(1) obtain regex where regex: "compileSelectorRegex s = Inr regex" "re_parse regex \<noteq> None"
    and eq: "\<And>x. CHR 0x0A \<notin> set x \<Longrightarrow> full_match regex x = selector_accepts s x"
      "\<And>x. CHR 0x0A \<notin> set x \<Longrightarrow> search_match regex x = selector_accepts s x"
    by (rule compileSelectorRegex_exact) blast
  from assms(2) regex(2) have "engine regex = full_match regex \<or> engine regex = search_match regex"
    by (simp add: conforming_def)
  then have "CHR 0x0A \<notin> set x \<Longrightarrow> engine regex x = selector_accepts s x" for x
    using eq [of x] by auto
  with False regex(1) show ?thesis
    by (intro that [OF compileHeaderSelector_def [THEN trans]])
      (auto simp: header_match_holds_def)
qed

lemma compileQuerySelector_exact:
  assumes "selector_wf s" "conforming engine"
  obtains m where "compileQuerySelector s = Inr m" "qm_Name m = src_Name (sel_Source s)"
    and "\<And>x. CHR 0x0A \<notin> set x \<Longrightarrow> query_match_holds engine m x = selector_accepts s x"
proof -
  let ?q = "\<lambda>m. \<lparr>qm_Name = hm_Name m, qm_Value = hm_Value m,
      qm_Type = Some (if hm_Type m = Some HeaderMatchExact then QueryParamMatchExact
        else QueryParamMatchRegularExpression)\<rparr>"
  from assms obtain m where m: "compileHeaderSelector s = Inr m" "hm_Name m = src_Name (sel_Source s)"
    and eq: "\<And>x. CHR 0x0A \<notin> set x \<Longrightarrow> header_match_holds engine m x = selector_accepts s x"
    by (rule compileHeaderSelector_exact) blast
  have "compileQuerySelector s = Inr (?q m) \<and> query_match_holds engine (?q m) = header_match_holds engine m"
    using m(1) by (auto simp: compileHeaderSelector_def compileQuerySelector_def
        query_match_holds_def header_match_holds_def split: if_splits sum.splits)
  with m(2) eq show ?thesis by (intro that [of "?q m"]) simp_all
qed

section \<open>Routes against placements\<close>

definition is_header_selector :: "CellPlacementSelector \<Rightarrow> bool" where
  "is_header_selector s \<longleftrightarrow> src_Type (sel_Source s) = SelectorSourceHeader"

definition is_query_selector :: "CellPlacementSelector \<Rightarrow> bool" where
  "is_query_selector s \<longleftrightarrow> src_Type (sel_Source s) = SelectorSourceQueryParam"

text \<open>A compiled match stands for a selector: same name, same verdict on every value in one line.\<close>

definition header_match_for :: "(string \<Rightarrow> string \<Rightarrow> bool) \<Rightarrow> CellPlacementSelector \<Rightarrow> HTTPHeaderMatch \<Rightarrow> bool" where
  "header_match_for engine s m \<longleftrightarrow> hm_Name m = src_Name (sel_Source s) \<and>
     (\<forall>x. CHR 0x0A \<notin> set x \<longrightarrow> header_match_holds engine m x = selector_accepts s x)"

definition query_match_for :: "(string \<Rightarrow> string \<Rightarrow> bool) \<Rightarrow> CellPlacementSelector \<Rightarrow> HTTPQueryParamMatch \<Rightarrow> bool" where
  "query_match_for engine s m \<longleftrightarrow> qm_Name m = src_Name (sel_Source s) \<and>
     (\<forall>x. CHR 0x0A \<notin> set x \<longrightarrow> query_match_holds engine m x = selector_accepts s x)"

lemma collect_matches_exact:
  assumes "list_all selector_wf sels" "conforming engine"
  shows "\<exists>hs qs. collect_matches sels spec = Inr (spec\<lparr>rt_HeaderMatches := rt_HeaderMatches spec @ hs,
      rt_QueryParamMatches := rt_QueryParamMatches spec @ qs\<rparr>) \<and>
    list_all2 (header_match_for engine) (filter is_header_selector sels) hs \<and>
    list_all2 (query_match_for engine) (filter is_query_selector sels) qs"
  using assms(1)
proof (induction sels arbitrary: spec)
  case (Cons s sels)
  then have wf: "selector_wf s" and IH: "\<And>spec. \<exists>hs qs. collect_matches sels spec =
        Inr (spec\<lparr>rt_HeaderMatches := rt_HeaderMatches spec @ hs,
          rt_QueryParamMatches := rt_QueryParamMatches spec @ qs\<rparr>) \<and>
      list_all2 (header_match_for engine) (filter is_header_selector sels) hs \<and>
      list_all2 (query_match_for engine) (filter is_query_selector sels) qs" by simp_all
  consider "is_header_selector s" | "is_query_selector s" "\<not> is_header_selector s"
    | "\<not> is_header_selector s" "\<not> is_query_selector s" by blast
  then show ?case
  proof cases
    case 1
    from wf assms(2) obtain m where m: "compileHeaderSelector s = Inr m" "header_match_for engine s m"
      by (rule compileHeaderSelector_exact) (auto simp: header_match_for_def)
    from IH [of "spec\<lparr>rt_HeaderMatches := rt_HeaderMatches spec @ [m]\<rparr>"] obtain hs qs where
      "collect_matches sels (spec\<lparr>rt_HeaderMatches := rt_HeaderMatches spec @ [m]\<rparr>) =
        Inr (spec\<lparr>rt_HeaderMatches := rt_HeaderMatches spec @ m # hs,
          rt_QueryParamMatches := rt_QueryParamMatches spec @ qs\<rparr>)"
      "list_all2 (header_match_for engine) (filter is_header_selector sels) hs"
      "list_all2 (query_match_for engine) (filter is_query_selector sels) qs" by auto
    moreover from 1 have "src_Type (sel_Source s) = SelectorSourceHeader" "\<not> is_query_selector s"
      by (simp_all add: is_header_selector_def is_query_selector_def)
    ultimately show ?thesis
      using 1 m by (intro exI [of _ "m # hs"] exI [of _ qs]) simp
  next
    case 2
    from wf assms(2) obtain m where m: "compileQuerySelector s = Inr m" "query_match_for engine s m"
      by (rule compileQuerySelector_exact) (auto simp: query_match_for_def)
    from IH [of "spec\<lparr>rt_QueryParamMatches := rt_QueryParamMatches spec @ [m]\<rparr>"] obtain hs qs where
      "collect_matches sels (spec\<lparr>rt_QueryParamMatches := rt_QueryParamMatches spec @ [m]\<rparr>) =
        Inr (spec\<lparr>rt_HeaderMatches := rt_HeaderMatches spec @ hs,
          rt_QueryParamMatches := rt_QueryParamMatches spec @ m # qs\<rparr>)"
      "list_all2 (header_match_for engine) (filter is_header_selector sels) hs"
      "list_all2 (query_match_for engine) (filter is_query_selector sels) qs" by auto
    moreover from 2 have "src_Type (sel_Source s) = SelectorSourceQueryParam"
      by (simp add: is_query_selector_def)
    ultimately show ?thesis
      using 2 m by (intro exI [of _ hs] exI [of _ "m # qs"]) simp
  next
    case 3
    then have "collect_matches (s # sels) spec = collect_matches sels spec"
      by (simp add: is_header_selector_def is_query_selector_def)
    with 3 IH [of spec] show ?thesis by simp
  qed
qed simp

lemma validated_selectors:
  assumes "Placement_Validate subexpNames p = None"
  shows "list_all selector_wf (ps_Selectors (placement_Spec p))" "ps_Destinations (placement_Spec p) \<noteq> []"
  using assms
  by (auto simp: Placement_Validate_def PlacementSpec_Validate_def validate_selectors_iff
      Selector_Validate_iff list_all_iff split: if_splits)

lemma validated_source:
  assumes "Placement_Validate subexpNames p = None" "s \<in> set (ps_Selectors (placement_Spec p))"
  shows "Source_Validate subexpNames (sel_Source s) = None"
  using assms
  by (auto simp: Placement_Validate_def PlacementSpec_Validate_def validate_selectors_iff
      Selector_Validate_iff list_all_iff split: if_splits)

lemma replaceNamedCaptureBody_not_Nil:
  "replaceNamedCaptureBody pattern name body = Inr regex \<Longrightarrow> regex \<noteq> []"
proof -
  assume eq: "replaceNamedCaptureBody pattern name body = Inr regex"
  then have "0 \<le> strings_Index pattern (capture_prefix name)"
    by (auto simp: replaceNamedCaptureBody_def Let_def split: if_splits)
  then have "pattern \<noteq> []" by (auto simp: capture_prefix_def)
  with eq show "regex \<noteq> []"
    by (auto simp: replaceNamedCaptureBody_def Let_def capture_prefix_def split: if_splits option.splits)
qed

lemma compile_path_loop_not_Nil:
  "compile_path_loop (s # ss) pathRegex = Inr regex \<Longrightarrow> regex \<noteq> []"
proof (induction ss arbitrary: s pathRegex)
  case Nil
  then show ?case by (auto split: sum.splits dest: replaceNamedCaptureBody_not_Nil)
next
  case (Cons t ts)
  then show ?case by (simp split: sum.splits)
qed

lemma compilePathRegex_Nil_iff:
  "compilePathRegex sels = Inr regex \<Longrightarrow> regex = [] \<longleftrightarrow> filter is_path_selector sels = []"
  by (auto simp: compilePathRegex_def simp del: compile_path_loop.simps
      dest: compile_path_loop_not_Nil split: list.splits)

lemma routeSpecFromPlacement_exact:
  assumes valid: "Placement_Validate subexpNames p = None"
    and path: "compilePathRegex (ps_Selectors (placement_Spec p)) = Inr regex"
    and engine: "conforming engine"
  shows "\<exists>spec. routeSpecFromPlacement subexpNames p = Inr spec \<and>
    rt_Name spec = placement_Name p \<and> rt_ListenerNames spec = ps_ListenerNames (placement_Spec p) \<and>
    rt_Hostnames spec = ps_Hostnames (placement_Spec p) \<and>
    rt_PathMatch spec = (if path_regexes (ps_Selectors (placement_Spec p)) = [] then None
       else Some \<lparr>pm_Type = Some PathMatchRegularExpression, pm_Value = regex\<rparr>) \<and>
    list_all2 (header_match_for engine)
      (filter is_header_selector (ps_Selectors (placement_Spec p))) (rt_HeaderMatches spec) \<and>
    list_all2 (query_match_for engine)
      (filter is_query_selector (ps_Selectors (placement_Spec p))) (rt_QueryParamMatches spec) \<and>
    ps_Destinations (placement_Spec p) =
      \<lparr>br_CellRef = rt_CellRef spec, br_Weight = rt_Weight spec\<rparr> # rt_AdditionalBackends spec \<and>
    rt_FallbackBackend spec = None"
proof -
  let ?sels = "ps_Selectors (placement_Spec p)"
  have none: "regex = [] \<longleftrightarrow> path_regexes ?sels = []"
    using compilePathRegex_Nil_iff [OF path]
    by (simp add: path_regexes_def is_path_selector_def [abs_def])
  from validated_selectors [OF valid] obtain d ds where wf: "list_all selector_wf ?sels"
    and d: "ps_Destinations (placement_Spec p) = d # ds" by (auto simp: neq_Nil_conv)
  let ?base = "\<lparr>rt_Name = placement_Name p, rt_CellRef = [],
      rt_ListenerNames = ps_ListenerNames (placement_Spec p), rt_Hostnames = ps_Hostnames (placement_Spec p),
      rt_PathMatch = (if regex = [] then None
        else Some \<lparr>pm_Type = Some PathMatchRegularExpression, pm_Value = regex\<rparr>),
      rt_HeaderMatches = [], rt_QueryParamMatches = [],
      rt_Weight = None, rt_AdditionalBackends = [], rt_FallbackBackend = None\<rparr>"
  from collect_matches_exact [OF wf engine, of ?base] obtain hs qs where
    c: "collect_matches ?sels ?base = Inr (?base\<lparr>rt_HeaderMatches := hs, rt_QueryParamMatches := qs\<rparr>)"
    "list_all2 (header_match_for engine) (filter is_header_selector ?sels) hs"
    "list_all2 (query_match_for engine) (filter is_query_selector ?sels) qs" by auto
  have "routeSpecFromPlacement subexpNames p = Inr (?base\<lparr>rt_HeaderMatches := hs,
      rt_QueryParamMatches := qs, rt_CellRef := br_CellRef d, rt_Weight := br_Weight d,
      rt_AdditionalBackends := ds\<rparr>)"
    using valid path c(1) d
    by (cases "regex = []") (simp_all add: routeSpecFromPlacement_def Let_def)
  then show ?thesis using c(2,3) d none by simp
qed

section \<open>Path templates\<close>

text \<open>
  The shape of the path expressions the documentation recommends: an anchored literal path with
  one named capture.
\<close>

definition path_template :: "string \<Rightarrow> string \<Rightarrow> string \<Rightarrow> string \<Rightarrow> string" where
  "path_template pre name body post =
     ''^'' @ QuoteMeta pre @ capture_prefix name @ body @ '')'' @ QuoteMeta post @ ''$''"

lemma Index_skip:
  assumes "\<And>k. k < length u \<Longrightarrow> \<not> prefix sub (drop k u @ sub @ v)"
  shows "strings_Index (u @ sub @ v) sub = int (length u)"
  using assms
proof (induction u)
  case Nil
  have "prefix sub (sub @ v)" by simp
  then show ?case by (cases "sub @ v") auto
next
  case (Cons c u)
  have "\<not> prefix sub (drop k u @ sub @ v)" if "k < length u" for k
    using Cons.prems [of "Suc k"] that by simp
  then have "strings_Index (u @ sub @ v) sub = int (length u)" by (rule Cons.IH)
  moreover have "\<not> prefix sub ((c # u) @ sub @ v)" using Cons.prems [of 0] by simp
  ultimately show ?case by simp
qed

text \<open>In quoted text a parenthesis is never followed by a question mark.\<close>

lemma QuoteMeta_no_capture:
  "k < length (QuoteMeta s) \<Longrightarrow>
   \<not> prefix (capture_prefix name) (drop k (QuoteMeta s) @ capture_prefix name @ v)"
proof (induction s arbitrary: k)
  case (Cons c s)
  have q: "QuoteMeta (c # s) = QuoteMeta [c] @ QuoteMeta s" using QuoteMeta_append [of "[c]" s] by simp
  have nq: "\<not> prefix ''?'' (QuoteMeta s @ capture_prefix name @ v)"
    by (cases s) (auto simp: QuoteMeta_def capture_prefix_def special_def)
  show ?case
  proof (cases "k < length (QuoteMeta [c])")
    case True
    then consider "k = 0" | "k = 1" "special c" by (cases "special c") (auto simp: QuoteMeta_def less_Suc_eq)
    then show ?thesis
    proof cases
      case 1
      have "drop k (QuoteMeta (c # s)) \<noteq> [] \<and> hd (drop k (QuoteMeta (c # s))) \<noteq> CHR ''(''"
        by (auto simp: 1 QuoteMeta_def special_def)
      then show ?thesis by (cases "drop k (QuoteMeta (c # s))") (auto simp: capture_prefix_def)
    next
      case 2
      then have "drop k (QuoteMeta (c # s)) = c # QuoteMeta s" by (simp add: QuoteMeta_def)
      then show ?thesis using nq by (cases "QuoteMeta s") (auto simp: capture_prefix_def)
    qed
  next
    case False
    then have "drop k (QuoteMeta (c # s)) = drop (k - length (QuoteMeta [c])) (QuoteMeta s)"
      by (simp add: q)
    then show ?thesis using Cons.IH [of "k - length (QuoteMeta [c])"] Cons.prems False by (simp add: q)
  qed
qed simp

lemma Index_template:
  "strings_Index (path_template pre name body post) (capture_prefix name) = int (1 + length (QuoteMeta pre))"
proof -
  have "\<not> prefix (capture_prefix name)
      (drop k (''^'' @ QuoteMeta pre) @ capture_prefix name @ (body @ '')'' @ QuoteMeta post @ ''$''))"
    if "k < length (''^'' @ QuoteMeta pre)" for k
    using that QuoteMeta_no_capture [of "k - 1" pre name] by (cases k) (auto simp: capture_prefix_def)
  from Index_skip [of "''^'' @ QuoteMeta pre" "capture_prefix name", OF this]
  show ?thesis by (simp add: path_template_def)
qed

lemma capture_close_append:
  "capture_close s inClass escaped depth = Some n \<Longrightarrow> capture_close (s @ t) inClass escaped depth = Some n"
  by (induction s inClass escaped depth arbitrary: n rule: capture_close.induct)
    (auto split: if_splits)

lemma replace_template:
  assumes "capture_close (body @ '')'') False False 1 = Some (length body)"
  shows "replaceNamedCaptureBody (path_template pre name body post) name replacement =
    Inr (path_template pre name replacement post)"
proof -
  let ?n = "1 + length (QuoteMeta pre) + length (capture_prefix name)"
  let ?rest = "body @ '')'' @ QuoteMeta post @ ''$''"
  have split: "path_template pre name body post = (''^'' @ QuoteMeta pre @ capture_prefix name) @ ?rest"
    by (simp add: path_template_def)
  have rest: "drop ?n (path_template pre name body post) = ?rest"
    "take ?n (path_template pre name body post) = ''^'' @ QuoteMeta pre @ capture_prefix name"
    "drop (?n + length body) (path_template pre name body post) = '')'' @ QuoteMeta post @ ''$''"
    unfolding split by simp_all
  have "capture_close ?rest False False 1 = Some (length body)"
    using capture_close_append [OF assms, of "QuoteMeta post @ ''$''"] by simp
  then show ?thesis
    using rest by (simp add: replaceNamedCaptureBody_def Let_def Index_template nat_add_distrib)
      (simp add: path_template_def)
qed

lemma lex_QuoteMeta: "lex (QuoteMeta s @ t) = prepend_toks (map TChar s) (lex t)"
proof -
  have "concat (map item_toks (map IChar s)) = map TChar s" by (induction s) simp_all
  moreover have "list_all item_ok (map IChar s)" by (simp add: list_all_iff)
  ultimately show ?thesis unfolding QuoteMeta_items by (simp only: lex_items)
qed

lemma build_chars: "build (map TChar s @ ts) st (a, cur) = build ts st (a, rev (map Lit s) @ cur)"
  by (induction s arbitrary: cur) simp_all

lemma matches_Lits:
  "matches (seqs (map Lit u @ rs)) b e x \<longleftrightarrow> (\<exists>v. x = u @ v \<and> matches (seqs rs) (b \<and> u = []) e v)"
proof (induction u arbitrary: b x)
  case (Cons c u)
  have "matches (seqs (map Lit (c # u) @ rs)) b e x \<longleftrightarrow>
      (\<exists>v. x = c # v \<and> matches (seqs (map Lit u @ rs)) False e v)"
    by (auto simp: seqs_def matches_Seq)
  then show ?case by (simp add: Cons.IH) blast
qed simp

lemma parse_capture:
  assumes "list_all (list_all item_ok) iss" "iss \<noteq> []" "name \<noteq> []" "list_all word_char name"
  shows "re_parse (path_template pre name (strings_Join (map items_str iss) ''|'') post) =
    Some (seqs (Caret # map Lit pre @ Grp (alts (map (\<lambda>is. seqs (map item_re is)) iss)) #
      map Lit post @ [Dollar]))"
proof -
  have "\<not> word_char CHR ''>''" by (simp add: word_char_def is_alnum_def is_digit_def less_eq_char_def)
  then have "takeWhile word_char (name @ CHR ''>'' # s) = name" for s
    using assms(4) by (simp add: takeWhile_append2 list_all_iff)
  then have "group_open (CHR ''?'' # CHR ''P'' # CHR ''<'' # name @ CHR ''>'' # s) = Some s" for s
    using assms(3) by (simp add: group_open.simps Let_def)
  then have "lex (path_template pre name (strings_Join (map items_str iss) ''|'') post) =
      Some (TCaret # map TChar pre @ TOpen # alt_toks iss @ TClose # map TChar post @ [TDollar])"
    using lex_join [OF assms(1)] lex_QuoteMeta [of post "''$''"]
    by (simp add: path_template_def capture_prefix_def lex_QuoteMeta)
  then show ?thesis
    using assms(2) close_join [OF assms(2)]
    by (simp add: re_parse_def build_chars build_join) (simp add: close_frame_def)
qed

lemma full_match_capture:
  assumes "covers ps P" "P w" "name \<noteq> []" "list_all word_char name"
  shows "full_match (path_template pre name (strings_Join ps ''|'') post) x \<longleftrightarrow>
    (\<exists>v. x = pre @ v @ post \<and> P v)"
proof -
  from assms(1) obtain iss where iss: "list_all (list_all item_ok) iss" "ps = map items_str iss"
    using simple_list [of ps] by (auto simp: covers_def)
  have "ps \<noteq> []" using assms by (auto simp: covers_def)
  with iss have ne: "iss \<noteq> []" by auto
  let ?g = "Grp (alts (map (\<lambda>is. seqs (map item_re is)) iss))"
  have g: "matches ?g b e v \<longleftrightarrow> P v" for b e v
    using assms(1) iss full_match_items ne by (simp add: covers_def list_all_iff matches_alts_items)
  have post: "matches (seqs (map Lit post @ [Dollar])) b True v \<longleftrightarrow> v = post" for b v
    by (simp add: matches_Lits) (simp add: seqs_def matches_Seq)
  have tail: "matches (seqs (?g # map Lit post @ [Dollar])) b True v \<longleftrightarrow> (\<exists>u. v = u @ post \<and> P u)" for b v
    using g post by (simp add: seqs_def matches_Seq del: matches.simps(13))
  have "matches (seqs (Caret # rs)) True True x \<longleftrightarrow> matches (seqs rs) True True x" for rs
    by (simp add: seqs_def matches_Seq)
  then show ?thesis
    using parse_capture [OF iss(1) ne assms(3,4)] iss(2) tail
    by (simp add: full_match_def matches_Lits) blast
qed

lemma strings_Index_split:
  "0 \<le> strings_Index s sub \<Longrightarrow> \<exists>v. s = take (nat (strings_Index s sub)) s @ sub @ v"
proof (induction s)
  case (Cons c s)
  show ?case
  proof (cases "prefix sub (c # s)")
    case True
    then show ?thesis by (auto simp: prefix_def)
  next
    case False
    with Cons obtain v where "s = take (nat (strings_Index s sub)) s @ sub @ v"
      by (auto simp: Let_def split: if_splits)
    with False Cons.prems show ?thesis
      by (auto simp: Let_def nat_add_distrib split: if_splits)
  qed
qed (auto split: if_splits)

lemma capture_close_split:
  "capture_close s inClass escaped depth = Some n \<Longrightarrow> n < length s \<and> s ! n = CHR '')''"
  by (induction s inClass escaped depth arbitrary: n rule: capture_close.induct)
    (auto split: if_splits)

section \<open>Properties\<close>

text \<open>
  Every selector that passes validation compiles, and its anchored expression accepts a
  one-line value exactly when the operator does: equality for Exact, a prefix or a suffix of
  the value, or a canonical decimal inside the range; search and whole match agree.
\<close>

theorem selector_regex_exact:
  assumes "Selector_Validate subexpNames s = None"
  shows "\<exists>regex. compileSelectorRegex s = Inr regex \<and>
    (\<forall>x. CHR 0x0A \<notin> set x \<longrightarrow> full_match regex x = selector_accepts s x \<and>
      search_match regex x = selector_accepts s x)"
proof -
  from assms have "selector_wf s" by (simp add: Selector_Validate_iff)
  then show ?thesis by (rule compileSelectorRegex_exact) blast
qed

theorem selector_regex_exact_witness:
  "\<exists>regex. compileSelectorRegex \<lparr>sel_Source = \<lparr>src_Type = ''Header'', src_Name = ''X-Zone'', src_PathRegex = []\<rparr>,
      sel_Operator = ''Suffix'', sel_Value = ''.eu'', sel_Range = None\<rparr> = Inr regex \<and>
    full_match regex ''a.eu'' \<and> \<not> search_match regex ''aXeu''"
proof -
  let ?s = "\<lparr>sel_Source = \<lparr>src_Type = ''Header'', src_Name = ''X-Zone'', src_PathRegex = []\<rparr>,
      sel_Operator = ''Suffix'', sel_Value = ''.eu'', sel_Range = None\<rparr>"
  have "Selector_Validate (\<lambda>_. None) ?s = None"
    by (simp add: Selector_Validate_iff selector_wf_def) code_simp
  from selector_regex_exact [OF this] obtain regex where regex: "compileSelectorRegex ?s = Inr regex"
    "\<And>x. CHR 0x0A \<notin> set x \<Longrightarrow> full_match regex x = selector_accepts ?s x \<and>
      search_match regex x = selector_accepts ?s x" by blast
  have "selector_accepts ?s ''a.eu''" "\<not> selector_accepts ?s ''aXeu''"
    by (simp_all add: selector_accepts_def suffix_Cons)
  with regex show ?thesis by (intro exI [of _ regex]) simp
qed

text \<open>
  C7: a placement that passes validation and whose path captures compile becomes a route that
  keeps its name, listeners, hostnames and destinations in order; it has a path match exactly
  when the placement has path captures, and one header match per header selector and one query
  match per query selector, in order, each naming the selector's source and accepting exactly
  the one-line values the selector accepts in every conforming data plane.
\<close>

theorem placement_route_exact:
  assumes "Placement_Validate subexpNames p = None"
    and "compilePathRegex (ps_Selectors (placement_Spec p)) = Inr regex"
    and "conforming engine"
  shows "\<exists>spec. routeSpecFromPlacement subexpNames p = Inr spec \<and>
    rt_Name spec = placement_Name p \<and> rt_ListenerNames spec = ps_ListenerNames (placement_Spec p) \<and>
    rt_Hostnames spec = ps_Hostnames (placement_Spec p) \<and>
    rt_PathMatch spec = (if path_regexes (ps_Selectors (placement_Spec p)) = [] then None
       else Some \<lparr>pm_Type = Some PathMatchRegularExpression, pm_Value = regex\<rparr>) \<and>
    list_all2 (header_match_for engine)
      (filter is_header_selector (ps_Selectors (placement_Spec p))) (rt_HeaderMatches spec) \<and>
    list_all2 (query_match_for engine)
      (filter is_query_selector (ps_Selectors (placement_Spec p))) (rt_QueryParamMatches spec) \<and>
    ps_Destinations (placement_Spec p) =
      \<lparr>br_CellRef = rt_CellRef spec, br_Weight = rt_Weight spec\<rparr> # rt_AdditionalBackends spec \<and>
    rt_FallbackBackend spec = None"
  using assms by (rule routeSpecFromPlacement_exact)

definition example_placement :: CellPlacement where
  "example_placement =
     \<lparr>placement_Meta = NewMeta ''eu-tenants'' [],
      placement_Spec = \<lparr>ps_RouterRef = ''edge'', ps_ListenerNames = [''https''], ps_Hostnames = [''app.example.com''],
        ps_Selectors = [\<lparr>sel_Source = \<lparr>src_Type = ''Header'', src_Name = ''X-Tenant'', src_PathRegex = []\<rparr>,
            sel_Operator = ''Range'', sel_Value = [], sel_Range = Some \<lparr>rng_Start = ''7'', rng_End = ''12''\<rparr>\<rparr>,
          \<lparr>sel_Source = \<lparr>src_Type = ''QueryParam'', src_Name = ''zone'', src_PathRegex = []\<rparr>,
            sel_Operator = ''Prefix'', sel_Value = ''eu-'', sel_Range = None\<rparr>],
        ps_Destinations = [\<lparr>br_CellRef = ''cell-a'', br_Weight = None\<rparr>]\<rparr>,
      placement_Status = \<lparr>pst_ObservedGeneration = 0, pst_ResolvedBackends = [], pst_Conditions = []\<rparr>\<rparr>"

lemma example_placement_valid: "Placement_Validate (\<lambda>_. None) example_placement = None"
  unfolding example_placement_def by code_simp

theorem placement_route_exact_witness:
  "\<exists>spec. routeSpecFromPlacement (\<lambda>_. None) example_placement = Inr spec \<and>
    rt_CellRef spec = ''cell-a'' \<and> (\<exists>h. rt_HeaderMatches spec = [h] \<and> header_match_holds full_match h ''10'')"
proof -
  have path: "compilePathRegex (ps_Selectors (placement_Spec example_placement)) = Inr []"
    by (simp add: example_placement_def compilePathRegex_def is_path_selector_def)
  have "conforming full_match" by (simp add: conforming_def)
  from placement_route_exact [OF example_placement_valid path this] obtain spec where
    spec: "routeSpecFromPlacement (\<lambda>_. None) example_placement = Inr spec"
    "list_all2 (header_match_for full_match)
      (filter is_header_selector (ps_Selectors (placement_Spec example_placement))) (rt_HeaderMatches spec)"
    "ps_Destinations (placement_Spec example_placement) =
      \<lparr>br_CellRef = rt_CellRef spec, br_Weight = rt_Weight spec\<rparr> # rt_AdditionalBackends spec" by blast
  from spec(2) obtain h where h: "rt_HeaderMatches spec = [h]"
    "header_match_for full_match (hd (ps_Selectors (placement_Spec example_placement))) h"
    by (auto simp: example_placement_def is_header_selector_def list_all2_Cons1)
  have "selector_accepts (hd (ps_Selectors (placement_Spec example_placement))) ''10''"
    by (simp add: example_placement_def selector_accepts_def decimalValuePattern_MatchString_def
        is_digit_def digit_val_def)
  with h(2) have "header_match_holds full_match h ''10''" by (simp add: header_match_for_def)
  with spec(1,3) h(1) show ?thesis by (simp add: example_placement_def)
qed

text \<open>
  C29: when the path expression is an anchored literal path around one named capture, a valid
  path selector compiles to an expression that matches a one-line path exactly when the part
  between the two literals is accepted by the selector.
\<close>

theorem path_capture_exact:
  assumes "Selector_Validate subexpNames s = None"
    and "sel_Source s = \<lparr>src_Type = SelectorSourcePathCapture, src_Name = name,
      src_PathRegex = path_template pre name body post\<rparr>"
    and "list_all word_char name" "name \<noteq> []"
    and "capture_close (body @ '')'') False False 1 = Some (length body)"
  shows "\<exists>regex. compilePathRegex [s] = Inr regex \<and>
    (\<forall>x. CHR 0x0A \<notin> set x \<longrightarrow>
      full_match regex x = (\<exists>v. x = pre @ v @ post \<and> selector_accepts s v))"
proof -
  from assms(1) have "selector_wf s" by (simp add: Selector_Validate_iff)
  from selectorRegexBody_covers [OF this] obtain ps P w where
    ps: "selectorRegexBody s = Inr (strings_Join ps ''|'')" "covers ps P" "P w"
      "\<And>x. CHR 0x0A \<notin> set x \<Longrightarrow> P x = selector_accepts s x" by blast
  have "compilePathRegex [s] = Inr (path_template pre name (strings_Join ps ''|'') post)"
    using ps(1) assms(2) replace_template [OF assms(5)]
    by (simp add: compilePathRegex_def is_path_selector_def)
  moreover have "full_match (path_template pre name (strings_Join ps ''|'') post) x =
      (\<exists>v. x = pre @ v @ post \<and> selector_accepts s v)" if "CHR 0x0A \<notin> set x" for x
    using full_match_capture [OF ps(2,3) assms(4,3)] ps(4) that by auto
  ultimately show ?thesis by blast
qed

definition example_path_selector :: CellPlacementSelector where
  "example_path_selector =
     \<lparr>sel_Source = \<lparr>src_Type = ''PathCapture'', src_Name = ''tenantID'',
        src_PathRegex = ''^/tenants/(?P<tenantID>[a-z]+)$''\<rparr>,
      sel_Operator = ''Suffix'', sel_Value = ''-west'', sel_Range = None\<rparr>"

text \<open>
  The witness also shows how far the capture's own expression counts: it asks for letters, and
  the compiled expression accepts a slash.
\<close>

theorem path_capture_exact_witness:
  "\<exists>regex. compilePathRegex [example_path_selector] = Inr regex \<and>
     full_match regex ''/tenants/acme-west'' \<and> full_match regex ''/tenants/a/b-west'' \<and>
     \<not> full_match regex ''/tenants/acme-east''"
proof -
  let ?names = "\<lambda>_::string. Some [[], ''tenantID'']"
  have valid: "Selector_Validate ?names example_path_selector = None"
    unfolding example_path_selector_def by code_simp
  have src: "sel_Source example_path_selector = \<lparr>src_Type = SelectorSourcePathCapture, src_Name = ''tenantID'',
      src_PathRegex = path_template ''/tenants/'' ''tenantID'' ''[a-z]+'' []\<rparr>"
    by (simp add: example_path_selector_def path_template_def capture_prefix_def QuoteMeta_def special_def)
  have word: "list_all word_char ''tenantID''" by code_simp
  have close: "capture_close (''[a-z]+'' @ '')'') False False 1 = Some (length ''[a-z]+'')" by code_simp
  from path_capture_exact [OF valid src word _ close] obtain regex where
    regex: "compilePathRegex [example_path_selector] = Inr regex"
    "\<And>x. CHR 0x0A \<notin> set x \<Longrightarrow> full_match regex x =
      (\<exists>v. x = ''/tenants/'' @ v @ [] \<and> selector_accepts example_path_selector v)" by auto
  show ?thesis
    using regex by (intro exI [of _ regex])
      (simp add: example_path_selector_def selector_accepts_def suffix_Cons)
qed

text \<open>
  Replacing the body of a named capture changes nothing outside it: a successful result
  is the pattern with the text between the first opening of that capture and a closing
  parenthesis exchanged for the replacement, and the replacement does not decide whether it
  succeeds.
\<close>

lemma replace_capture_frame:
  "(\<exists>err. \<forall>replacement. replaceNamedCaptureBody pattern name replacement = Inl err) \<or>
   (\<exists>pre body post. pattern = pre @ capture_prefix name @ body @ '')'' @ post \<and>
      int (length pre) = strings_Index pattern (capture_prefix name) \<and>
      (\<forall>replacement. replaceNamedCaptureBody pattern name replacement =
         Inr (pre @ capture_prefix name @ replacement @ '')'' @ post)))"
proof (cases "strings_Index pattern (capture_prefix name) < 0")
  case True
  then show ?thesis by (simp add: replaceNamedCaptureBody_def)
next
  case False
  let ?i = "nat (strings_Index pattern (capture_prefix name))"
  from False obtain v where v: "pattern = take ?i pattern @ capture_prefix name @ v"
    using strings_Index_split [of pattern "capture_prefix name"] by auto
  let ?b = "?i + length (capture_prefix name)"
  have "length pattern = length (take ?i pattern) + length (capture_prefix name) + length v"
    by (subst v) simp
  then have len: "?i \<le> length pattern" by (auto simp: capture_prefix_def)
  have "take (length u + length pre) (u @ pre @ w) = u @ pre" "drop (length u + length pre) (u @ pre @ w) = w"
    for u pre w :: string by simp_all
  from this [of "take ?i pattern" "capture_prefix name" v]
  have cut: "take ?b pattern = take ?i pattern @ capture_prefix name" "drop ?b pattern = v"
    unfolding v [symmetric] using len by (simp_all add: min_absorb2)
  show ?thesis
  proof (cases "capture_close v False False 1")
    case None
    with False cut show ?thesis by (simp add: replaceNamedCaptureBody_def Let_def)
  next
    case (Some n)
    from capture_close_split [OF Some] have dn: "drop n v = '')'' @ drop (Suc n) v"
      using Cons_nth_drop_Suc [of n v] by simp
    have dp: "drop (?b + n) pattern = '')'' @ drop (Suc n) v"
      using cut(2) dn by (metis add.commute drop_drop)
    have "v = take n v @ '')'' @ drop (Suc n) v"
      by (metis dn append_take_drop_id)
    with v have "pattern = take ?i pattern @ capture_prefix name @ take n v @ '')'' @ drop (Suc n) v"
      by metis
    moreover have "replaceNamedCaptureBody pattern name r =
        Inr (take ?i pattern @ capture_prefix name @ r @ '')'' @ drop (Suc n) v)" for r
      using False Some cut dp by (simp add: replaceNamedCaptureBody_def Let_def)
    moreover have "int (length (take ?i pattern)) = strings_Index pattern (capture_prefix name)"
      using False len by simp
    ultimately show ?thesis by blast
  qed
qed

lemma strings_Index_negative: "strings_Index s sub < 0 \<longleftrightarrow> \<not> sublist sub s"
proof (induction s)
  case (Cons c s)
  then show ?case by (auto simp: Let_def sublist_Cons_right)
qed simp

text \<open>
  C35: a placement with one path selector that passes validation is refused for a missing
  capture exactly when its expression does not contain the text \<^verbatim>\<open>(?P<name>\<close>. The other way
  to write a named group, \<^verbatim>\<open>(?<name>\<close>, passes validation, which reads the names of the compiled
  expression, and is refused by the compiler, which looks for the text.
\<close>

theorem path_capture_text_required:
  assumes "Placement_Validate subexpNames p = None"
    and "filter (\<lambda>s. src_Type (sel_Source s) = ''PathCapture'') (ps_Selectors (placement_Spec p)) = [s]"
  shows "routeSpecFromPlacement subexpNames p =
      Inl (Errorf (''pathRegex must contain named capture '' @ go_quote (src_Name (sel_Source s)))) \<longleftrightarrow>
    \<not> sublist (''(?P<'' @ src_Name (sel_Source s) @ ''>'') (src_PathRegex (sel_Source s))"
proof -
  let ?err = "\<lambda>name. Inl (Errorf (''pathRegex must contain named capture '' @ go_quote name))"
  from assms(2) have path: "filter is_path_selector (ps_Selectors (placement_Spec p)) = [s]"
    by (simp add: is_path_selector_def [abs_def])
  then have "s \<in> set (ps_Selectors (placement_Spec p))" by (metis filter_is_subset in_mono list.set_intros(1))
  with validated_selectors(1) [OF assms(1)] have "selector_wf s" by (simp add: list_all_iff)
  from selectorRegexBody_covers [OF this] obtain body where "selectorRegexBody s = Inr body" by blast
  with path have compile: "compilePathRegex (ps_Selectors (placement_Spec p)) =
      replaceNamedCaptureBody (src_PathRegex (sel_Source s)) (src_Name (sel_Source s)) body"
    by (simp add: compilePathRegex_def split: sum.splits)
  show ?thesis
  proof (cases "compilePathRegex (ps_Selectors (placement_Spec p))")
    case (Inl err)
    with assms(1) have "routeSpecFromPlacement subexpNames p = Inl err"
      by (simp add: routeSpecFromPlacement_def Let_def)
    with Inl compile show ?thesis
      by (auto simp: replaceNamedCaptureBody_def Let_def strings_Index_negative capture_prefix_def
          split: if_splits option.splits)
  next
    case (Inr regex)
    have "conforming full_match" by (simp add: conforming_def)
    from routeSpecFromPlacement_exact [OF assms(1) Inr this] Inr compile show ?thesis
      by (auto simp: replaceNamedCaptureBody_def Let_def strings_Index_negative capture_prefix_def
          split: if_splits option.splits)
  qed
qed

definition group_placement :: "string \<Rightarrow> CellPlacement" where
  "group_placement pattern = example_placement\<lparr>placement_Spec := (placement_Spec example_placement)
     \<lparr>ps_Selectors := [\<lparr>sel_Source = \<lparr>src_Type = ''PathCapture'', src_Name = ''id'', src_PathRegex = pattern\<rparr>,
        sel_Operator = ''Prefix'', sel_Value = ''a'', sel_Range = None\<rparr>]\<rparr>\<rparr>"

theorem path_capture_text_required_witness:
  "Placement_Validate (\<lambda>_. Some [[], ''id'']) (group_placement ''^/t/(?<id>[^/]+)$'') = None \<and>
   routeSpecFromPlacement (\<lambda>_. Some [[], ''id'']) (group_placement ''^/t/(?<id>[^/]+)$'') =
     Inl (Errorf (''pathRegex must contain named capture '' @ go_quote ''id'')) \<and>
   routeSpecFromPlacement (\<lambda>_. Some [[], ''id'']) (group_placement ''^/t/(?P<id>[^/]+)$'') \<noteq>
     Inl (Errorf (''pathRegex must contain named capture '' @ go_quote ''id''))"
proof (intro conjI)
  let ?names = "\<lambda>_::string. Some [[], ''id'']"
  have valid: "Placement_Validate ?names (group_placement ''^/t/(?<id>[^/]+)$'') = None"
    "Placement_Validate ?names (group_placement ''^/t/(?P<id>[^/]+)$'') = None" by code_simp+
  then show "Placement_Validate ?names (group_placement ''^/t/(?<id>[^/]+)$'') = None" by simp
  have literal: "\<not> sublist (''(?P<'' @ ''id'' @ ''>'') ''^/t/(?<id>[^/]+)$''"
    "sublist (''(?P<'' @ ''id'' @ ''>'') ''^/t/(?P<id>[^/]+)$''" by code_simp+
  show "routeSpecFromPlacement ?names (group_placement ''^/t/(?<id>[^/]+)$'') =
      Inl (Errorf (''pathRegex must contain named capture '' @ go_quote ''id''))"
    using path_capture_text_required [OF valid(1)] literal(1) by (simp add: group_placement_def)
  show "routeSpecFromPlacement ?names (group_placement ''^/t/(?P<id>[^/]+)$'') \<noteq>
      Inl (Errorf (''pathRegex must contain named capture '' @ go_quote ''id''))"
    using path_capture_text_required [OF valid(2)] literal(2) by (simp add: group_placement_def)
qed

end
