(* ===== verification/Overlap.thy ===== *)
theory Overlap
  imports PlacementCompiler
begin

text \<open>
  \<^verbatim>\<open>internal/controller/cellplacement_compiler.go\<close>, the part that compares placements:
  \<^verbatim>\<open>validatePlacementOverlaps\<close> and what it calls. \<^verbatim>\<open>selectorSignature\<close> dereferences the range
  of a range selector without a check, so it and its callers return an option: \<open>None\<close> is the
  panic of the nil dereference.
\<close>

section \<open>Signatures and ranges\<close>

definition sortedStrings :: "string list \<Rightarrow> string list" where
  "sortedStrings values = sort_Strings values"

definition sortedHostnames :: "string list \<Rightarrow> string list" where
  "sortedHostnames values = sort_Strings values"

fun signature_parts :: "CellPlacementSelector list \<Rightarrow> bool \<Rightarrow> string list option" where
  "signature_parts [] includeRanges = Some []"
| "signature_parts (selector # selectors) includeRanges =
     (if sel_Operator selector = SelectorOperatorRange then
        (if \<not> includeRanges then signature_parts selectors includeRanges
         else case sel_Range selector of None \<Rightarrow> None
           | Some r \<Rightarrow> map_option ((#) (SourceKey selector @ ''|'' @ sel_Operator selector @ ''|'' @
               rng_Start r @ ''|'' @ rng_End r)) (signature_parts selectors includeRanges))
      else map_option ((#) (SourceKey selector @ ''|'' @ sel_Operator selector @ ''|'' @
             sel_Value selector)) (signature_parts selectors includeRanges))"

definition selectorSignature :: "CellPlacementSelector list \<Rightarrow> bool \<Rightarrow> string option" where
  "selectorSignature selectors includeRanges =
     map_option (\<lambda>parts. strings_Join (sort_Strings parts) '';'') (signature_parts selectors includeRanges)"

text \<open>The map from source keys to ranges; a later selector overwrites an earlier one.\<close>

fun ranges_loop :: "CellPlacementSelector list \<Rightarrow> (string, CellPlacementNumericRange) fmap \<Rightarrow>
    (string, CellPlacementNumericRange) fmap" where
  "ranges_loop [] ranges = ranges"
| "ranges_loop (selector # selectors) ranges =
     (case sel_Range selector of
        Some r \<Rightarrow> ranges_loop selectors
          (if sel_Operator selector = SelectorOperatorRange then fmupd (SourceKey selector) r ranges
           else ranges)
      | None \<Rightarrow> ranges_loop selectors ranges)"

definition rangeSelectorsBySource ::
    "CellPlacementSelector list \<Rightarrow> (string, CellPlacementNumericRange) fmap" where
  "rangeSelectorsBySource selectors = ranges_loop selectors fmempty"

text \<open>The errors of the four calls of \<^verbatim>\<open>strconv.ParseUint\<close> are dropped.\<close>

definition numericRangesIntersect ::
    "CellPlacementNumericRange \<Rightarrow> CellPlacementNumericRange \<Rightarrow> bool" where
  "numericRangesIntersect left right =
     (let leftStart = fst (ParseUint (rng_Start left)); leftEnd = fst (ParseUint (rng_End left));
          rightStart = fst (ParseUint (rng_Start right)); rightEnd = fst (ParseUint (rng_End right)) in
      leftStart \<le> rightEnd \<and> rightStart \<le> leftEnd)"

section \<open>Overlap\<close>

text \<open>
  The loop over the left ranges returns at the first intersection; the order in which Go visits
  the map does not change the result.
\<close>

definition ranges_overlap :: "(string, CellPlacementNumericRange) fmap \<Rightarrow>
    (string, CellPlacementNumericRange) fmap \<Rightarrow> bool" where
  "ranges_overlap leftRanges rightRanges =
     fBex (fmdom leftRanges) (\<lambda>sourceKey.
       case (fmlookup leftRanges sourceKey, fmlookup rightRanges sourceKey) of
         (Some leftRange, Some rightRange) \<Rightarrow> numericRangesIntersect leftRange rightRange
       | _ \<Rightarrow> False)"

definition placementsObviouslyOverlap :: "CellPlacement \<Rightarrow> CellPlacement \<Rightarrow> bool option" where
  "placementsObviouslyOverlap left right =
     (let l = placement_Spec left; r = placement_Spec right in
      if sortedStrings (ps_ListenerNames l) \<noteq> sortedStrings (ps_ListenerNames r) then Some False
      else if sortedHostnames (ps_Hostnames l) \<noteq> sortedHostnames (ps_Hostnames r) then Some False
      else
        Option.bind (selectorSignature (ps_Selectors l) False) (\<lambda>leftExact.
        Option.bind (selectorSignature (ps_Selectors r) False) (\<lambda>rightExact.
        Option.bind (if leftExact = rightExact then
            Option.bind (selectorSignature (ps_Selectors l) True) (\<lambda>leftAll.
            Option.bind (selectorSignature (ps_Selectors r) True) (\<lambda>rightAll.
            Some (leftAll = rightAll)))
          else Some False) (\<lambda>equal.
        if equal then Some True
        else if leftExact \<noteq> rightExact then Some False
        else Some (ranges_overlap (rangeSelectorsBySource (ps_Selectors l))
               (rangeSelectorsBySource (ps_Selectors r)))))))"

text \<open>The two loops: the inner one over the placements after \<open>left\<close>.\<close>

definition overlap_reason :: "CellPlacement \<Rightarrow> string" where
  "overlap_reason p = ''placement overlaps with '' @ go_quote (placement_Name p)"

fun overlaps_with :: "CellPlacement \<Rightarrow> CellPlacement list \<Rightarrow> (string, string) fmap \<Rightarrow>
    (string, string) fmap option" where
  "overlaps_with left [] conflicts = Some conflicts"
| "overlaps_with left (right # rest) conflicts =
     (case placementsObviouslyOverlap left right of None \<Rightarrow> None
      | Some True \<Rightarrow> overlaps_with left rest
          (fmupd (placement_Name right) (overlap_reason left)
            (fmupd (placement_Name left) (overlap_reason right) conflicts))
      | Some False \<Rightarrow> overlaps_with left rest conflicts)"

fun overlaps_loop :: "CellPlacement list \<Rightarrow> (string, string) fmap \<Rightarrow> (string, string) fmap option" where
  "overlaps_loop [] conflicts = Some conflicts"
| "overlaps_loop (left # rest) conflicts =
     (case overlaps_with left rest conflicts of None \<Rightarrow> None
      | Some conflicts' \<Rightarrow> overlaps_loop rest conflicts')"

definition validatePlacementOverlaps :: "CellPlacement list \<Rightarrow> (string, string) fmap option" where
  "validatePlacementOverlaps placements = overlaps_loop placements fmempty"

section \<open>When the comparison is defined\<close>

definition has_range :: "CellPlacementSelector \<Rightarrow> bool" where
  "has_range s \<longleftrightarrow> (sel_Operator s = SelectorOperatorRange \<longrightarrow> sel_Range s \<noteq> None)"

definition comparable :: "CellPlacement \<Rightarrow> bool" where
  "comparable p \<longleftrightarrow> list_all has_range (ps_Selectors (placement_Spec p))"

lemma validated_comparable: "Placement_Validate subexpNames p = None \<Longrightarrow> comparable p"
proof -
  assume "Placement_Validate subexpNames p = None"
  moreover have "selector_wf s \<Longrightarrow> has_range s" for s by (auto simp: selector_wf_def has_range_def)
  ultimately show "comparable p"
    using validated_selectors(1) [of subexpNames p] by (simp add: comparable_def list_all_iff)
qed

lemma signature_parts_defined:
  "signature_parts sels includeRanges \<noteq> None \<longleftrightarrow> (includeRanges \<longrightarrow> list_all has_range sels)"
  by (induction sels includeRanges rule: signature_parts.induct)
    (auto simp: has_range_def split: option.splits)

lemma selectorSignature_defined:
  "selectorSignature sels includeRanges = None \<longleftrightarrow> includeRanges \<and> \<not> list_all has_range sels"
  using signature_parts_defined [of sels includeRanges] by (auto simp: selectorSignature_def)

text \<open>The verdict on comparable placements, in one formula.\<close>

definition same_scope :: "CellPlacement \<Rightarrow> CellPlacement \<Rightarrow> bool" where
  "same_scope l r \<longleftrightarrow>
     mset (ps_ListenerNames (placement_Spec l)) = mset (ps_ListenerNames (placement_Spec r)) \<and>
     mset (ps_Hostnames (placement_Spec l)) = mset (ps_Hostnames (placement_Spec r))"

lemma overlap_verdict:
  assumes "comparable l" "comparable r"
  shows "placementsObviouslyOverlap l r = Some (same_scope l r \<and>
    selectorSignature (ps_Selectors (placement_Spec l)) False =
      selectorSignature (ps_Selectors (placement_Spec r)) False \<and>
    (selectorSignature (ps_Selectors (placement_Spec l)) True =
      selectorSignature (ps_Selectors (placement_Spec r)) True \<or>
     ranges_overlap (rangeSelectorsBySource (ps_Selectors (placement_Spec l)))
       (rangeSelectorsBySource (ps_Selectors (placement_Spec r)))))"
proof -
  from assms selectorSignature_defined obtain a b c d where
    "selectorSignature (ps_Selectors (placement_Spec l)) False = Some a"
    "selectorSignature (ps_Selectors (placement_Spec r)) False = Some b"
    "selectorSignature (ps_Selectors (placement_Spec l)) True = Some c"
    "selectorSignature (ps_Selectors (placement_Spec r)) True = Some d"
    by (metis comparable_def not_None_eq)
  then show ?thesis
    by (auto simp: placementsObviouslyOverlap_def Let_def same_scope_def sortedStrings_def
        sortedHostnames_def sort_Strings_eq_iff)
qed

section \<open>Symmetry\<close>

lemma numericRangesIntersect_sym: "numericRangesIntersect l r = numericRangesIntersect r l"
  by (auto simp: numericRangesIntersect_def)

lemma ranges_overlap_iff:
  "ranges_overlap l r \<longleftrightarrow>
     (\<exists>k a b. fmlookup l k = Some a \<and> fmlookup r k = Some b \<and> numericRangesIntersect a b)"
proof -
  have "(case (fmlookup l k, fmlookup r k) of (Some a, Some b) \<Rightarrow> numericRangesIntersect a b | _ \<Rightarrow> False) \<longleftrightarrow>
      (\<exists>a b. fmlookup l k = Some a \<and> fmlookup r k = Some b \<and> numericRangesIntersect a b)" for k
    by (auto split: option.splits)
  then show ?thesis unfolding ranges_overlap_def by (blast intro: fmdomI)
qed

lemma ranges_overlap_sym: "ranges_overlap l r = ranges_overlap r l"
  unfolding ranges_overlap_iff using numericRangesIntersect_sym by blast

lemma overlap_sym: "placementsObviouslyOverlap l r = placementsObviouslyOverlap r l"
proof -
  show ?thesis
    using ranges_overlap_sym
      [of "rangeSelectorsBySource (ps_Selectors (placement_Spec l))" "rangeSelectorsBySource (ps_Selectors (placement_Spec r))"]
    by (cases "selectorSignature (ps_Selectors (placement_Spec l)) False";
        cases "selectorSignature (ps_Selectors (placement_Spec r)) False";
        cases "selectorSignature (ps_Selectors (placement_Spec l)) True";
        cases "selectorSignature (ps_Selectors (placement_Spec r)) True")
      (auto simp: placementsObviouslyOverlap_def Let_def)
qed

section \<open>The conflict map\<close>

lemma overlaps_with_lookup:
  assumes "overlaps_with left rest conflicts = Some conflicts'"
  shows "fmlookup conflicts' n \<noteq> None \<longleftrightarrow> fmlookup conflicts n \<noteq> None \<or>
    (\<exists>right\<in>set rest. placementsObviouslyOverlap left right = Some True \<and>
      n \<in> {placement_Name left, placement_Name right})"
  using assms
proof (induction left rest conflicts rule: overlaps_with.induct)
  case (2 left right rest conflicts)
  then show ?case by (auto split: option.splits bool.splits if_splits)
qed simp

lemma ordered_pair_Cons:
  "(\<exists>i j. i < j \<and> j < length (p # ps) \<and> Q ((p # ps) ! i) ((p # ps) ! j)) \<longleftrightarrow>
     (\<exists>r\<in>set ps. Q p r) \<or> (\<exists>i j. i < j \<and> j < length ps \<and> Q (ps ! i) (ps ! j))"
  (is "?l \<longleftrightarrow> ?first \<or> ?rest")
proof
  assume ?l
  then obtain i j where "i < j" "j < length (p # ps)" "Q ((p # ps) ! i) ((p # ps) ! j)" by blast
  then show "?first \<or> ?rest" by (cases i; cases j) auto
next
  assume "?first \<or> ?rest"
  then show ?l
  proof
    assume ?first
    then obtain k where "k < length ps" "Q p (ps ! k)" by (auto simp: in_set_conv_nth)
    then show ?l by (intro exI [of _ 0] exI [of _ "Suc k"]) simp
  next
    assume ?rest
    then obtain i j where "i < j" "j < length ps" "Q (ps ! i) (ps ! j)" by blast
    then show ?l by (intro exI [of _ "Suc i"] exI [of _ "Suc j"]) simp
  qed
qed

lemma overlaps_loop_lookup:
  "overlaps_loop ps conflicts = Some conflicts' \<Longrightarrow>
   fmlookup conflicts' n \<noteq> None \<longleftrightarrow> fmlookup conflicts n \<noteq> None \<or>
     (\<exists>i j. i < j \<and> j < length ps \<and> placementsObviouslyOverlap (ps ! i) (ps ! j) = Some True \<and>
       n \<in> {placement_Name (ps ! i), placement_Name (ps ! j)})"
proof (induction ps arbitrary: conflicts)
  case (Cons p ps)
  then obtain c where c: "overlaps_with p ps conflicts = Some c" "overlaps_loop ps c = Some conflicts'"
    by (auto split: option.splits)
  show ?case
    unfolding Cons.IH [OF c(2)] overlaps_with_lookup [OF c(1), of n]
      ordered_pair_Cons [where Q = "\<lambda>l r. placementsObviouslyOverlap l r = Some True \<and>
        n \<in> {placement_Name l, placement_Name r}"] by blast
qed simp

lemma overlaps_with_defined:
  "list_all (\<lambda>r. placementsObviouslyOverlap left r \<noteq> None) rest \<Longrightarrow> overlaps_with left rest conflicts \<noteq> None"
  by (induction left rest conflicts rule: overlaps_with.induct) (auto split: bool.splits option.splits)

lemma overlaps_loop_defined:
  "list_all comparable ps \<Longrightarrow> overlaps_loop ps conflicts \<noteq> None"
proof (induction ps arbitrary: conflicts)
  case (Cons p ps)
  then have "list_all (\<lambda>r. placementsObviouslyOverlap p r \<noteq> None) ps"
    by (auto simp: overlap_verdict list_all_iff)
  from overlaps_with_defined [OF this, of conflicts] Cons show ?case by (auto split: option.splits)
qed simp

section \<open>Ranges as sets of numbers\<close>

lemma ParseUint_value:
  "decimal s \<Longrightarrow> decval s < 2 ^ 64 \<Longrightarrow> unat (fst (ParseUint s)) = decval s"
  using ParseUint_digits [of s] decimal_digits [of s] by (simp add: unat_of_nat)

lemma numericRangesIntersect_iff:
  assumes "range_wf l" "range_wf r"
  shows "numericRangesIntersect l r \<longleftrightarrow>
    (\<exists>x. decimal x \<and> decval x \<in> {decval (rng_Start l)..decval (rng_End l)} \<inter>
      {decval (rng_Start r)..decval (rng_End r)})" (is "_ \<longleftrightarrow> ?common")
proof -
  let ?ls = "decval (rng_Start l)" and ?le = "decval (rng_End l)"
  let ?rs = "decval (rng_Start r)" and ?re = "decval (rng_End r)"
  have "numericRangesIntersect l r \<longleftrightarrow> ?ls \<le> ?re \<and> ?rs \<le> ?le"
    using assms by (simp add: numericRangesIntersect_def Let_def range_wf_def word_le_nat_alt ParseUint_value)
  moreover have "?ls \<le> ?re \<Longrightarrow> ?rs \<le> ?le \<Longrightarrow> ?common"
    using assms
    by (cases "?ls \<le> ?rs") (auto simp: range_wf_def intro: exI [of _ "rng_Start r"] exI [of _ "rng_Start l"])
  ultimately show ?thesis by auto
qed

section \<open>What a signature determines\<close>

lemma Join_inject:
  assumes "list_all (\<lambda>p. p \<noteq> [] \<and> c \<notin> set p) xs" "list_all (\<lambda>p. p \<noteq> [] \<and> c \<notin> set p) ys"
    and "strings_Join xs [c] = strings_Join ys [c]"
  shows "xs = ys"
  using assms
proof (induction xs arbitrary: ys)
  case Nil
  then show ?case by (cases ys; cases "tl ys") auto
next
  case (Cons x xs)
  have tk: "takeWhile (\<lambda>d. d \<noteq> c) (strings_Join (p # ps) [c]) = p \<and>
      dropWhile (\<lambda>d. d \<noteq> c) (strings_Join (p # ps) [c]) = (if ps = [] then [] else c # strings_Join ps [c])"
    if "c \<notin> set p" for p ps
  proof -
    from that have "\<forall>d\<in>set p. d \<noteq> c" by auto
    then show ?thesis by (cases ps) (simp_all add: takeWhile_append dropWhile_append takeWhile_eq_all_conv)
  qed
  from Cons.prems obtain y ys' where ys: "ys = y # ys'" by (cases ys; cases xs) auto
  have "x = y" using Cons.prems tk [of x xs] tk [of y ys'] ys by simp
  moreover have "(xs = [] \<longleftrightarrow> ys' = []) \<and> (xs \<noteq> [] \<longrightarrow> strings_Join xs [c] = strings_Join ys' [c])"
    using Cons.prems tk [of x xs] tk [of y ys'] ys by (auto split: if_splits)
  ultimately show ?case using Cons.IH [of ys'] Cons.prems ys by auto
qed

text \<open>A selector whose signature part holds no semicolon.\<close>

definition plain :: "CellPlacementSelector \<Rightarrow> bool" where
  "plain s \<longleftrightarrow> CHR '';'' \<notin> set (SourceKey s @ sel_Value s)"

definition selector_part :: "CellPlacementSelector \<Rightarrow> string" where
  "selector_part s = SourceKey s @ ''|'' @ sel_Operator s @ ''|'' @
     (if sel_Operator s = SelectorOperatorRange then rng_Start (the (sel_Range s)) @ ''|'' @ rng_End (the (sel_Range s))
      else sel_Value s)"

definition is_range :: "CellPlacementSelector \<Rightarrow> bool" where
  "is_range s \<longleftrightarrow> sel_Operator s = SelectorOperatorRange"

lemma signature_parts_eq:
  "list_all has_range sels \<Longrightarrow> signature_parts sels True = Some (map selector_part sels)"
  "signature_parts sels False = Some (map selector_part (filter (\<lambda>s. \<not> is_range s) sels))"
  by (induction sels) (auto simp: has_range_def selector_part_def is_range_def)

lemma selector_part_plain:
  assumes "selector_wf s" "plain s"
  shows "selector_part s \<noteq> [] \<and> CHR '';'' \<notin> set (selector_part s)"
proof -
  have "CHR '';'' \<notin> set d" if "decimal d" for d
    using decimal_digits [OF that] by (auto simp: digits_def list_all_iff is_digit_def dest!: bspec)
  with assms show ?thesis
    by (auto simp: selector_part_def plain_def selector_wf_def range_wf_def split: if_splits)
qed

lemma signature_eq_iff:
  assumes "list_all (\<lambda>s. selector_wf s \<and> plain s) xs" "list_all (\<lambda>s. selector_wf s \<and> plain s) ys"
  shows "selectorSignature xs True = selectorSignature ys True \<longleftrightarrow>
      mset (map selector_part xs) = mset (map selector_part ys)"
    and "selectorSignature xs False = selectorSignature ys False \<longleftrightarrow>
      mset (map selector_part (filter (\<lambda>s. \<not> is_range s) xs)) =
      mset (map selector_part (filter (\<lambda>s. \<not> is_range s) ys))"
proof -
  have wf: "selector_wf s \<Longrightarrow> has_range s" for s by (auto simp: selector_wf_def has_range_def)
  have *: "strings_Join (sort_Strings (map selector_part us)) '';'' =
      strings_Join (sort_Strings (map selector_part vs)) '';'' \<longleftrightarrow>
      mset (map selector_part us) = mset (map selector_part vs)"
    if "list_all (\<lambda>s. selector_wf s \<and> plain s) us" "list_all (\<lambda>s. selector_wf s \<and> plain s) vs" for us vs
  proof -
    have "list_all (\<lambda>p. p \<noteq> [] \<and> CHR '';'' \<notin> set p) (sort_Strings (map selector_part ws))"
      if "list_all (\<lambda>s. selector_wf s \<and> plain s) ws" for ws
      using that selector_part_plain by (simp add: list_all_iff sort_Strings_def)
    from Join_inject [OF this [OF that(1)] this [OF that(2)]] show ?thesis
      unfolding sort_Strings_eq_iff [symmetric] by (intro iffI) simp_all
  qed
  show "selectorSignature xs True = selectorSignature ys True \<longleftrightarrow>
      mset (map selector_part xs) = mset (map selector_part ys)"
    using assms wf * [OF assms] by (auto simp: selectorSignature_def signature_parts_eq list_all_iff)
  show "selectorSignature xs False = selectorSignature ys False \<longleftrightarrow>
      mset (map selector_part (filter (\<lambda>s. \<not> is_range s) xs)) =
      mset (map selector_part (filter (\<lambda>s. \<not> is_range s) ys))"
    using assms * [of "filter (\<lambda>s. \<not> is_range s) xs" "filter (\<lambda>s. \<not> is_range s) ys"]
    by (auto simp: selectorSignature_def signature_parts_eq list_all_iff)
qed

text \<open>
  The parts are joined with bars, so a part determines its selector when neither the source key
  nor the value contains one.
\<close>

definition unambiguous :: "CellPlacementSelector \<Rightarrow> bool" where
  "unambiguous s \<longleftrightarrow> CHR '';'' \<notin> set (SourceKey s @ sel_Value s) \<and> CHR ''|'' \<notin> set (SourceKey s @ sel_Value s)"

definition selector_fields ::
    "CellPlacementSelector \<Rightarrow> string \<times> string \<times> string \<times> CellPlacementNumericRange option" where
  "selector_fields s = (SourceKey s, sel_Operator s, sel_Value s, sel_Range s)"

lemma mset_map_inject:
  assumes "\<And>x y. x \<in> set xs \<union> set ys \<Longrightarrow> y \<in> set xs \<union> set ys \<Longrightarrow> f x = f y \<longleftrightarrow> g x = g y"
  shows "mset (map f xs) = mset (map f ys) \<longleftrightarrow> mset (map g xs) = mset (map g ys)"
proof -
  have *: "mset (map g xs) = mset (map g ys)"
    if same: "\<And>x y. x \<in> set xs \<union> set ys \<Longrightarrow> y \<in> set xs \<union> set ys \<Longrightarrow> f x = f y \<Longrightarrow> g x = g y"
      and eq: "mset (map f xs) = mset (map f ys)" for f :: "'a \<Rightarrow> 'x" and g :: "'a \<Rightarrow> 'y"
  proof -
    define h where "h v = g (hd (filter (\<lambda>x. f x = v) (xs @ ys)))" for v
    have "h (f x) = g x" if "x \<in> set xs \<union> set ys" for x
    proof -
      have "filter (\<lambda>y. f y = f x) (xs @ ys) \<noteq> []" using that by (auto simp: filter_empty_conv)
      then have "hd (filter (\<lambda>y. f y = f x) (xs @ ys)) \<in> set (filter (\<lambda>y. f y = f x) (xs @ ys))"
        by (rule hd_in_set)
      then have "hd (filter (\<lambda>y. f y = f x) (xs @ ys)) \<in> set xs \<union> set ys"
        "f (hd (filter (\<lambda>y. f y = f x) (xs @ ys))) = f x"
        unfolding set_filter set_append by auto
      from same [OF this(1) that this(2)] show ?thesis unfolding h_def .
    qed
    then have "map g xs = map h (map f xs)" "map g ys = map h (map f ys)" by simp_all
    with eq show ?thesis by (metis mset_map)
  qed
  show ?thesis
  proof
    assume "mset (map f xs) = mset (map f ys)"
    then show "mset (map g xs) = mset (map g ys)" by (rule * [rotated]) (simp add: assms)
  next
    assume "mset (map g xs) = mset (map g ys)"
    then show "mset (map f xs) = mset (map f ys)" by (rule * [rotated]) (simp add: assms)
  qed
qed

lemma selector_part_range_inject:
  assumes "is_range s" "is_range t" "selector_wf s" "selector_wf t" "SourceKey s = SourceKey t"
    and "selector_part s = selector_part t"
  shows "sel_Range s = sel_Range t"
proof -
  from assms(1-4) obtain a b where s: "sel_Range s = Some a" "range_wf a"
    and t: "sel_Range t = Some b" "range_wf b" by (auto simp: is_range_def selector_wf_def)
  have free: "CHR ''|'' \<notin> set d" if "decimal d" for d
    using decimal_digits [OF that] by (auto simp: digits_def list_all_iff is_digit_def dest!: bspec)
  from assms s(1) t(1) have "rng_Start a @ CHR ''|'' # rng_End a = rng_Start b @ CHR ''|'' # rng_End b"
    by (simp add: selector_part_def is_range_def)
  then have "rng_Start a = rng_Start b \<and> rng_End a = rng_End b"
    using free [of "rng_Start a"] free [of "rng_End a"] s(2)
    by (simp add: range_wf_def append_Cons_eq_iff)
  then show ?thesis using s(1) t(1) by simp
qed

lemma selector_part_inject:
  assumes "selector_wf s" "unambiguous s" "selector_wf t" "unambiguous t"
  shows "selector_part s = selector_part t \<longleftrightarrow> selector_fields s = selector_fields t"
proof
  have bar: "a @ CHR ''|'' # b = a' @ CHR ''|'' # b' \<Longrightarrow> a = a' \<and> b = b'"
    if "CHR ''|'' \<notin> set a" "CHR ''|'' \<notin> set a'" for a a' b b'
    using that by (auto simp: append_eq_append_conv2 append_eq_Cons_conv) (auto simp: Cons_eq_append_conv)
  have op: "CHR ''|'' \<notin> set (sel_Operator u)" if "selector_wf u" for u
    using that by (auto simp: selector_wf_def split: if_splits)
  have digits: "CHR ''|'' \<notin> set d" if "decimal d" for d
    using decimal_digits [OF that] by (auto simp: digits_def list_all_iff is_digit_def dest!: bspec)
  have free: "CHR ''|'' \<notin> set (SourceKey u)" if "unambiguous u" for u
    using that by (simp add: unambiguous_def)
  assume eq: "selector_part s = selector_part t"
  let ?rest = "\<lambda>u. if is_range u then rng_Start (the (sel_Range u)) @ ''|'' @ rng_End (the (sel_Range u))
    else sel_Value u"
  have part: "selector_part u = SourceKey u @ CHR ''|'' # sel_Operator u @ CHR ''|'' # ?rest u" for u
    by (simp add: selector_part_def is_range_def)
  from bar [OF free [OF assms(2)] free [OF assms(4)] eq [unfolded part]]
  have key: "SourceKey s = SourceKey t"
    and tail: "sel_Operator s @ CHR ''|'' # ?rest s = sel_Operator t @ CHR ''|'' # ?rest t" by blast+
  from bar [OF op [OF assms(1)] op [OF assms(3)] tail]
  have oper: "sel_Operator s = sel_Operator t" and operand: "?rest s = ?rest t" by blast+
  show "selector_fields s = selector_fields t"
  proof (cases "is_range s")
    case True
    with oper have "is_range t" by (simp add: is_range_def)
    with True assms have "sel_Value s = []" "sel_Value t = []"
      by (auto simp: is_range_def selector_wf_def)
    with True \<open>is_range t\<close> show ?thesis
      using selector_part_range_inject [OF True _ assms(1,3) key eq] key oper by (simp add: selector_fields_def)
  next
    case False
    with oper have "\<not> is_range t" by (simp add: is_range_def)
    with False assms have "sel_Range s = None" "sel_Range t = None"
      by (auto simp: is_range_def selector_wf_def split: if_splits)
    with False \<open>\<not> is_range t\<close> key oper operand show ?thesis by (simp add: selector_fields_def)
  qed
next
  assume "selector_fields s = selector_fields t"
  then show "selector_part s = selector_part t" by (simp add: selector_fields_def selector_part_def)
qed

section \<open>One range\<close>

lemma ranges_loop_skip:
  "list_all (\<lambda>s. \<not> is_range s) xs \<Longrightarrow> ranges_loop (xs @ ys) m = ranges_loop ys m"
  by (induction xs) (auto simp: is_range_def split: option.splits)

lemma rangeSelectorsBySource_single:
  assumes "list_all (\<lambda>s. \<not> is_range s) pre" "list_all (\<lambda>s. \<not> is_range s) post"
    and "is_range s" "sel_Range s = Some r"
  shows "rangeSelectorsBySource (pre @ s # post) = fmupd (SourceKey s) r fmempty"
  using assms(3,4) ranges_loop_skip [OF assms(1)] ranges_loop_skip [OF assms(2), of "[]"]
  by (simp add: rangeSelectorsBySource_def is_range_def)

lemma selector_accepts_range:
  "is_range s \<Longrightarrow> sel_Range s = Some r \<Longrightarrow> selector_accepts s x \<longleftrightarrow>
     decimal x \<and> decval (rng_Start r) \<le> decval x \<and> decval x \<le> decval (rng_End r)"
  by (simp add: selector_accepts_def is_range_def)

lemma range_overlap_verdict:
  assumes wf: "list_all (\<lambda>s. selector_wf s \<and> plain s) (pre @ sl # post)"
      "list_all (\<lambda>s. selector_wf s \<and> plain s) (pre @ sr # post)"
    and other: "list_all (\<lambda>s. \<not> is_range s) pre" "list_all (\<lambda>s. \<not> is_range s) post"
    and range: "is_range sl" "is_range sr" "SourceKey sl = SourceKey sr"
    and sels: "ps_Selectors (placement_Spec l) = pre @ sl # post" "ps_Selectors (placement_Spec r) = pre @ sr # post"
    and scope: "same_scope l r"
  shows "placementsObviouslyOverlap l r = Some (\<exists>x. selector_accepts sl x \<and> selector_accepts sr x)"
proof -
  from wf range obtain a b where a: "sel_Range sl = Some a" "range_wf a"
    and b: "sel_Range sr = Some b" "range_wf b" by (auto simp: is_range_def selector_wf_def)
  have comparable: "comparable l" "comparable r"
    using wf sels by (auto simp: comparable_def list_all_iff has_range_def selector_wf_def split: if_splits)
  have exact: "selectorSignature (pre @ sl # post) False = selectorSignature (pre @ sr # post) False"
    using range by (simp add: selectorSignature_def signature_parts_eq(2))
  have ranges: "ranges_overlap (rangeSelectorsBySource (pre @ sl # post)) (rangeSelectorsBySource (pre @ sr # post)) \<longleftrightarrow>
      numericRangesIntersect a b"
    using range a b rangeSelectorsBySource_single [OF other] by (simp add: ranges_overlap_iff)
  have common: "numericRangesIntersect a b \<longleftrightarrow> (\<exists>x. selector_accepts sl x \<and> selector_accepts sr x)"
    using numericRangesIntersect_iff [OF a(2) b(2)] selector_accepts_range [OF range(1) a(1)]
      selector_accepts_range [OF range(2) b(1)] by auto
  have "numericRangesIntersect a b" if "selectorSignature (pre @ sl # post) True = selectorSignature (pre @ sr # post) True"
  proof -
    from that have "selector_part sl = selector_part sr" using signature_eq_iff(1) [OF wf] by simp
    then have "a = b" using selector_part_range_inject [OF range(1,2) _ _ range(3)] wf a(1) b(1) by simp
    then show ?thesis
      using a(2) numericRangesIntersect_iff [OF a(2) a(2)] by (auto simp: range_wf_def)
  qed
  then show ?thesis
    unfolding overlap_verdict [OF comparable] sels using scope exact ranges common by auto
qed

section \<open>Properties\<close>

text \<open>
  C26: on placements whose range selectors have a range, the overlap check ends without a
  panic, and a name is in the conflict map exactly when two placements at different positions
  overlap and one of them has this name.
\<close>

theorem overlap_conflicts_exact:
  assumes "list_all comparable placements"
  shows "\<exists>conflicts. validatePlacementOverlaps placements = Some conflicts \<and>
    (\<forall>n. fmlookup conflicts n \<noteq> None \<longleftrightarrow>
      (\<exists>i j. i < j \<and> j < length placements \<and>
        placementsObviouslyOverlap (placements ! i) (placements ! j) = Some True \<and>
        n \<in> {placement_Name (placements ! i), placement_Name (placements ! j)}))"
proof -
  from overlaps_loop_defined [OF assms] obtain c where "overlaps_loop placements fmempty = Some c" by blast
  with overlaps_loop_lookup [OF this] show ?thesis
    unfolding validatePlacementOverlaps_def by (intro exI [of _ c]) simp
qed

theorem overlap_conflicts_exact_witness:
  "\<exists>conflicts. validatePlacementOverlaps [example_placement, example_placement] = Some conflicts \<and>
     fmlookup conflicts ''eu-tenants'' \<noteq> None"
proof -
  have "comparable example_placement"
    by (rule validated_comparable [OF example_placement_valid])
  then have all: "list_all comparable [example_placement, example_placement]" by simp
  have "placementsObviouslyOverlap example_placement example_placement = Some True"
    using overlap_verdict [of example_placement example_placement] all by (simp add: same_scope_def)
  then have "\<exists>i j. i < j \<and> j < length [example_placement, example_placement] \<and>
      placementsObviouslyOverlap ([example_placement, example_placement] ! i) ([example_placement, example_placement] ! j) = Some True \<and>
      ''eu-tenants'' \<in> {placement_Name ([example_placement, example_placement] ! i),
        placement_Name ([example_placement, example_placement] ! j)}"
    by (intro exI [of _ 0] exI [of _ 1]) (simp add: example_placement_def NewMeta_def)
  with overlap_conflicts_exact [OF all] show ?thesis by blast
qed

text \<open>
  The overlap check does not depend on the order of its arguments, not even in whether it
  panics.
\<close>

lemma overlap_symmetric:
  "placementsObviouslyOverlap left right = placementsObviouslyOverlap right left"
  by (rule overlap_sym)

text \<open>
  For two valid placements with the same listeners and hostnames that differ in one range
  selector over the same source, and whose source keys and values hold no semicolon, the check
  reports an overlap exactly when some value is accepted by both range selectors.
\<close>

theorem range_overlap_exact:
  assumes "list_all (\<lambda>s. selector_wf s \<and> plain s) (pre @ sl # post)"
      "list_all (\<lambda>s. selector_wf s \<and> plain s) (pre @ sr # post)"
    and "list_all (\<lambda>s. \<not> is_range s) pre" "list_all (\<lambda>s. \<not> is_range s) post"
    and "is_range sl" "is_range sr" "SourceKey sl = SourceKey sr"
    and "ps_Selectors (placement_Spec l) = pre @ sl # post" "ps_Selectors (placement_Spec r) = pre @ sr # post"
    and "same_scope l r"
  shows "placementsObviouslyOverlap l r = Some (\<exists>x. selector_accepts sl x \<and> selector_accepts sr x)"
  using assms by (rule range_overlap_verdict)

definition header_selector :: "string \<Rightarrow> string \<Rightarrow> string \<Rightarrow> CellPlacementSelector" where
  "header_selector name a b =
     \<lparr>sel_Source = \<lparr>src_Type = SelectorSourceHeader, src_Name = name, src_PathRegex = []\<rparr>,
      sel_Operator = SelectorOperatorRange, sel_Value = [], sel_Range = Some \<lparr>rng_Start = a, rng_End = b\<rparr>\<rparr>"

definition with_selectors :: "string \<Rightarrow> CellPlacementSelector list \<Rightarrow> CellPlacement" where
  "with_selectors name sels = example_placement\<lparr>placement_Meta := NewMeta name [],
     placement_Spec := (placement_Spec example_placement)\<lparr>ps_Selectors := sels\<rparr>\<rparr>"

lemma header_selector_facts:
  "is_range (header_selector n a b)" "SourceKey (header_selector n a b) = ''Header:'' @ n"
  "selector_wf (header_selector n a b) \<longleftrightarrow> range_wf \<lparr>rng_Start = a, rng_End = b\<rparr>"
  "plain (header_selector n a b) \<longleftrightarrow> CHR '';'' \<notin> set n"
  "selector_accepts (header_selector n a b) x \<longleftrightarrow> decimal x \<and> decval a \<le> decval x \<and> decval x \<le> decval b"
  by (auto simp: header_selector_def is_range_def SourceKey_def source_key_def selector_wf_def plain_def
      selector_accepts_def)

theorem range_overlap_exact_witness:
  "placementsObviouslyOverlap (with_selectors ''a'' [header_selector ''X'' ''1'' ''5''])
     (with_selectors ''b'' [header_selector ''X'' ''5'' ''9'']) = Some True"
proof -
  have wf: "range_wf \<lparr>rng_Start = ''1'', rng_End = ''5''\<rparr>" "range_wf \<lparr>rng_Start = ''5'', rng_End = ''9''\<rparr>"
    by (simp_all add: range_wf_def decimalValuePattern_MatchString_def is_digit_def digit_val_def)
  have "placementsObviouslyOverlap (with_selectors ''a'' [header_selector ''X'' ''1'' ''5''])
     (with_selectors ''b'' [header_selector ''X'' ''5'' ''9'']) =
    Some (\<exists>x. selector_accepts (header_selector ''X'' ''1'' ''5'') x \<and> selector_accepts (header_selector ''X'' ''5'' ''9'') x)"
    by (rule range_overlap_exact [where pre = "[]" and post = "[]"])
      (simp_all add: header_selector_facts wf with_selectors_def same_scope_def)
  moreover have "decimal ''5'' \<and> decval ''5'' = 5 \<and> decval ''1'' = 1 \<and> decval ''9'' = 9"
    by (simp add: decimalValuePattern_MatchString_def is_digit_def digit_val_def)
  ultimately show ?thesis by (auto simp: header_selector_facts intro!: exI [of _ "''5''"])
qed

text \<open>
  C36: one intersecting range source decides, whatever the other ranges say: two valid
  placements that agree on their other selectors and share a source whose ranges intersect are
  reported as overlapping. In the witness the second range source is disjoint, so no request
  satisfies both placements.
\<close>

theorem intersecting_source_overlaps:
  assumes "comparable l" "comparable r" "same_scope l r"
    and "selectorSignature (ps_Selectors (placement_Spec l)) False =
      selectorSignature (ps_Selectors (placement_Spec r)) False"
    and "fmlookup (rangeSelectorsBySource (ps_Selectors (placement_Spec l))) key = Some a"
    and "fmlookup (rangeSelectorsBySource (ps_Selectors (placement_Spec r))) key = Some b"
    and "numericRangesIntersect a b"
  shows "placementsObviouslyOverlap l r = Some True"
  using assms overlap_verdict [OF assms(1,2)] by (auto simp: ranges_overlap_iff)

theorem intersecting_source_overlaps_witness:
  "placementsObviouslyOverlap
     (with_selectors ''a'' [header_selector ''X'' ''1'' ''5'', header_selector ''Y'' ''1'' ''5''])
     (with_selectors ''b'' [header_selector ''X'' ''3'' ''9'', header_selector ''Y'' ''6'' ''9'']) = Some True \<and>
   (\<nexists>y. selector_accepts (header_selector ''Y'' ''1'' ''5'') y \<and> selector_accepts (header_selector ''Y'' ''6'' ''9'') y)"
proof
  let ?l = "with_selectors ''a'' [header_selector ''X'' ''1'' ''5'', header_selector ''Y'' ''1'' ''5'']"
  let ?r = "with_selectors ''b'' [header_selector ''X'' ''3'' ''9'', header_selector ''Y'' ''6'' ''9'']"
  show "placementsObviouslyOverlap ?l ?r = Some True"
  proof (rule intersecting_source_overlaps [where key = "''Header:X''"])
    show "numericRangesIntersect \<lparr>rng_Start = ''1'', rng_End = ''5''\<rparr> \<lparr>rng_Start = ''3'', rng_End = ''9''\<rparr>"
      by code_simp
  qed (simp_all add: with_selectors_def comparable_def has_range_def header_selector_def same_scope_def
      selectorSignature_def rangeSelectorsBySource_def SourceKey_def source_key_def)
  have "decval ''5'' = 5" "decval ''6'' = 6" by (simp_all add: digit_val_def)
  then show "\<nexists>y. selector_accepts (header_selector ''Y'' ''1'' ''5'') y \<and>
      selector_accepts (header_selector ''Y'' ''6'' ''9'') y"
    by (simp add: header_selector_facts)
qed

text \<open>
  C37: when no source key and no value contains a semicolon or a bar, the signature is exact:
  two lists of valid selectors have the same signature exactly when they are the same selectors
  up to order, each with its source key, operator, value and range.
\<close>

theorem selector_signature_exact:
  assumes "list_all (\<lambda>s. selector_wf s \<and> unambiguous s) xs" "list_all (\<lambda>s. selector_wf s \<and> unambiguous s) ys"
  shows "selectorSignature xs True = selectorSignature ys True \<longleftrightarrow>
    mset (map selector_fields xs) = mset (map selector_fields ys)"
proof -
  from assms have "list_all (\<lambda>s. selector_wf s \<and> plain s) xs" "list_all (\<lambda>s. selector_wf s \<and> plain s) ys"
    by (auto simp: list_all_iff unambiguous_def plain_def)
  from signature_eq_iff(1) [OF this] show ?thesis
    using mset_map_inject [of xs ys selector_part selector_fields] selector_part_inject assms
    by (auto simp: list_all_iff)
qed

text \<open>
  The rest of the witness drops the assumption: a semicolon inside a value makes one selector
  look like two, and a bar makes the key of one selector look like the value of another.
\<close>

definition exact_selector :: "string \<Rightarrow> string \<Rightarrow> CellPlacementSelector" where
  "exact_selector name value =
     \<lparr>sel_Source = \<lparr>src_Type = SelectorSourceHeader, src_Name = name, src_PathRegex = []\<rparr>,
      sel_Operator = SelectorOperatorExact, sel_Value = value, sel_Range = None\<rparr>"

theorem selector_signature_exact_witness:
  "selectorSignature [exact_selector ''a'' ''x'', exact_selector ''b'' ''y''] True =
     selectorSignature [exact_selector ''b'' ''y'', exact_selector ''a'' ''x''] True \<and>
   selectorSignature [exact_selector ''a'' ''x'', exact_selector ''b'' ''y''] True \<noteq>
     selectorSignature [exact_selector ''a'' ''y'', exact_selector ''b'' ''x''] True \<and>
   selectorSignature [exact_selector ''a'' ''x'', exact_selector ''b'' ''y''] True =
     selectorSignature [exact_selector ''a'' ''x;Header:b|Exact|y''] True \<and>
   selectorSignature [exact_selector ''a|Exact|x'' ''y''] True =
     selectorSignature [exact_selector ''a'' ''x|Exact|y''] True"
proof (intro conjI)
  have wf: "selector_wf (exact_selector n v) \<and> unambiguous (exact_selector n v)"
    if "v \<noteq> []" "CHR '';'' \<notin> set (n @ v)" "CHR ''|'' \<notin> set (n @ v)" for n v
    using that by (auto simp: exact_selector_def selector_wf_def unambiguous_def SourceKey_def source_key_def)
  show "selectorSignature [exact_selector ''a'' ''x'', exact_selector ''b'' ''y''] True =
      selectorSignature [exact_selector ''b'' ''y'', exact_selector ''a'' ''x''] True"
    by (subst selector_signature_exact) (simp_all add: wf)
  show "selectorSignature [exact_selector ''a'' ''x'', exact_selector ''b'' ''y''] True \<noteq>
      selectorSignature [exact_selector ''a'' ''y'', exact_selector ''b'' ''x''] True"
    by (subst selector_signature_exact)
      (simp_all add: wf, simp add: add_eq_conv_ex selector_fields_def exact_selector_def SourceKey_def source_key_def)
qed code_simp+

end
