(* ===== verification/Metadata.thy ===== *)
theory Metadata
  imports Types
begin

text \<open>
  \<^verbatim>\<open>internal/utils/metadata/merge.go\<close>: the overlay of user metadata onto operator metadata,
  and the contract every resource builder keeps towards the reconcilers, as a locale.
\<close>

section \<open>Merge\<close>

definition Merge :: "gomap \<Rightarrow> gomap \<Rightarrow> string list \<Rightarrow> gomap" where
  "Merge dst src protectedKeys =
     (if gomap_empty src then (case dst of None \<Rightarrow> Some fmempty | Some d \<Rightarrow> Some d)
      else let d = (case dst of None \<Rightarrow> fmempty | Some d \<Rightarrow> d);
               s = (case src of None \<Rightarrow> fmempty | Some s \<Rightarrow> s)
           in Some (d ++\<^sub>f fmfilter (\<lambda>k. k \<notin> set protectedKeys) s))"

text \<open>
  The loop of the source over one enumeration of the entries of \<open>src\<close>. Go leaves the order
  of the enumeration open.
\<close>

fun merge_loop :: "string list \<Rightarrow> (string \<times> string) list \<Rightarrow>
    (string, string) fmap \<Rightarrow> (string, string) fmap" where
  "merge_loop protected [] dst = dst"
| "merge_loop protected ((k, v) # src) dst =
     merge_loop protected src (if k \<in> set protected then dst else fmupd k v dst)"

lemma merge_loop_lookup:
  "distinct (map fst kvs) \<Longrightarrow>
   fmlookup (merge_loop protected kvs dst) k =
     (if k \<in> set protected then fmlookup dst k
      else case map_of kvs k of None \<Rightarrow> fmlookup dst k | Some v \<Rightarrow> Some v)"
proof (induction kvs arbitrary: dst)
  case (Cons kv kvs)
  obtain k' v' where kv: "kv = (k', v')" by (cases kv)
  from Cons.prems kv have "map_of kvs k' = None" by (simp add: map_of_eq_None_iff)
  with Cons kv show ?case by (auto split: option.splits)
qed simp

lemma Merge_lookup:
  "gomap_lookup (Merge dst src protectedKeys) k =
     (if k \<in> set protectedKeys then gomap_lookup dst k
      else case gomap_lookup src k of None \<Rightarrow> gomap_lookup dst k | Some v \<Rightarrow> Some v)"
  by (auto simp: Merge_def Let_def gomap_empty_iff gomap_lookup_def fmlookup_dom_iff
      split: option.splits if_splits)

lemma Merge_not_nil: "\<exists>d. Merge dst src protectedKeys = Some d"
  by (auto simp: Merge_def Let_def split: option.splits)

lemma gomap_eqI:
  assumes "m = Some d" "m' = Some d'" "\<And>k. gomap_lookup m k = gomap_lookup m' k"
  shows "m = m'"
proof -
  from assms(3) have "fmlookup d k = fmlookup d' k" for k unfolding assms(1,2) by simp
  then have "d = d'" by (rule fmap_ext)
  with assms(1,2) show ?thesis by simp
qed

lemma Merge_eqI:
  assumes "\<And>k. gomap_lookup (Merge a b p) k = gomap_lookup (Merge c d q) k"
  shows "Merge a b p = Merge c d q"
proof -
  obtain x where "Merge a b p = Some x" using Merge_not_nil by blast
  moreover obtain y where "Merge c d q = Some y" using Merge_not_nil by blast
  ultimately show ?thesis using assms by (rule gomap_eqI)
qed

lemma gomap_lit_lookup [simp]: "gomap_lookup (gomap_lit kvs) k = map_of kvs k"
  by (simp add: gomap_lit_def fmlookup_of_list)

text \<open>A second pass over the two merges of labels changes nothing.\<close>

lemma Merge_twice: "Merge (Merge d s p) s p = Merge d s p"
  by (rule Merge_eqI) (simp add: Merge_lookup split: option.splits)

lemma Merge_owned_twice:
  assumes "dom (map_of owned) \<subseteq> set p"
  shows "Merge (Merge (Merge (Merge d (gomap_lit owned) []) s p) (gomap_lit owned) []) s p =
    Merge (Merge d (gomap_lit owned) []) s p"
proof (rule Merge_eqI)
  fix k
  from assms have "k \<notin> set p \<Longrightarrow> map_of owned k = None" by auto
  then show "gomap_lookup (Merge (Merge (Merge (Merge d (gomap_lit owned) []) s p) (gomap_lit owned) []) s p) k =
      gomap_lookup (Merge (Merge d (gomap_lit owned) []) s p) k"
    by (auto simp: Merge_lookup split: option.splits)
qed

section \<open>The contract of a resource builder\<close>

text \<open>
  What a reconciler relies on when it passes a \<^verbatim>\<open>Mutate\<close> function of
  \<^verbatim>\<open>internal/resource\<close> to \<^verbatim>\<open>controllerutil.CreateOrUpdate\<close>: the operator's ownership
  labels are on the result whatever the object and the user metadata were, the identity of
  the object is untouched, and applying the builder to its own result changes nothing.
\<close>

locale resource_builder =
  fixes mutate :: "'o \<Rightarrow> 'o"
    and meta :: "'o \<Rightarrow> ObjectMeta"
    and owned :: "(string \<times> string) list"
  assumes mutate_owned: "(k, v) \<in> set owned \<Longrightarrow> gomap_lookup (om_Labels (meta (mutate obj))) k = Some v"
    and mutate_name: "om_Name (meta (mutate obj)) = om_Name (meta obj)"
    and mutate_namespace: "om_Namespace (meta (mutate obj)) = om_Namespace (meta obj)"
    and mutate_uid: "om_UID (meta (mutate obj)) = om_UID (meta obj)"
    and mutate_owners: "om_OwnerReferences (meta (mutate obj)) = om_OwnerReferences (meta obj)"
    and mutate_finalizers: "om_Finalizers (meta (mutate obj)) = om_Finalizers (meta obj)"
    and mutate_idem: "mutate (mutate obj) = mutate obj"
begin

text \<open>Any number of reconciles after the first one leaves the object as it is.\<close>

lemma repeated_mutate: "(mutate ^^ Suc n) obj = mutate obj"
  by (induction n) (simp_all add: mutate_idem)

text \<open>The object is selected by every label query over a part of the owned labels.\<close>

lemma selected_by_owned:
  "set sel \<subseteq> set owned \<Longrightarrow>
   list_all (\<lambda>(k, v). gomap_lookup (om_Labels (meta (mutate obj))) k = Some v) sel"
  by (auto simp: list_all_iff intro: mutate_owned)

lemmas mutate_identity = mutate_name mutate_namespace mutate_uid mutate_owners mutate_finalizers

end

section \<open>Properties\<close>

text \<open>
  The loop of Merge gives one result for every order in which Go may enumerate the
  source map, namely the map Merge returns.
\<close>

theorem merge_order_independent:
  assumes "distinct (map fst kvs)"
  shows "Merge (Some dst) (gomap_lit kvs) protected = Some (merge_loop protected kvs dst)"
proof -
  obtain d where d: "Merge (Some dst) (gomap_lit kvs) protected = Some d"
    using Merge_not_nil by blast
  show ?thesis
    by (rule gomap_eqI [OF d refl])
      (simp add: Merge_lookup merge_loop_lookup [OF assms] split: option.splits)
qed

theorem merge_order_independent_witness:
  "distinct (map fst [(''a'', ''1''), (''b'', ''2'')]) \<and>
   Merge (Some fmempty) (gomap_lit [(''a'', ''1''), (''b'', ''2'')]) [''b''] =
     Some (merge_loop [''b''] [(''a'', ''1''), (''b'', ''2'')] fmempty)"
  using merge_order_independent [of "[(''a'', ''1''), (''b'', ''2'')]" fmempty "[''b'']"] by simp

text \<open>
  Merge keeps every protected key as the destination has it, takes every other key of the
  source, and keeps the remaining keys of the destination.
\<close>

theorem merge_respects_protected:
  "gomap_lookup (Merge dst src protectedKeys) k =
     (if k \<in> set protectedKeys \<or> gomap_lookup src k = None then gomap_lookup dst k
      else gomap_lookup src k)"
  by (auto simp: Merge_lookup split: option.splits)

end
