(* ===== verification/RouterBuilder.thy ===== *)
theory RouterBuilder
  imports Metadata
begin

text \<open>
  \<^verbatim>\<open>internal/resource/router/builder.go\<close>: the functions that write the desired state of a
  router into its gateway namespace, gateway, routes and reference grants, the name of a
  reference grant, and the interpretation of the builder contract on each function.
\<close>

unbundle bit_operations_syntax

section \<open>Backends and grant names\<close>

record BackendTarget =
  bt_Namespace :: string
  bt_Name :: string
  bt_Port :: int32
  bt_Weight :: "int32 option"
  bt_CellRef :: string

text \<open>\<^verbatim>\<open>hash/fnv\<close>: the 32-bit FNV-1a hash.\<close>

definition fnv32a :: "string \<Rightarrow> 32 word" where
  "fnv32a s = foldl (\<lambda>hash c. (hash XOR of_nat (of_char c)) * 16777619) 2166136261 s"

definition ReferenceGrantName :: "string \<Rightarrow> BackendTarget \<Rightarrow> string" where
  "ReferenceGrantName routeName backend =
     (let hash = fnv32a (routeName @ ''/'' @ bt_Namespace backend @ ''/'' @ bt_Name backend) in
      routeName @ ''-'' @ hex_fixed 8 (unat hash) @ ''-backend'')"

text \<open>The hash in hexadecimal without the detour over natural numbers, for evaluation.\<close>

fun hex_int :: "nat \<Rightarrow> int \<Rightarrow> string" where
  "hex_int 0 x = []"
| "hex_int (Suc n) x = hex_int n (x div 16) @ [hex_digit (nat (x mod 16))]"

lemma hex_fixed_int: "hex_fixed n x = hex_int n (int x)"
  by (induction n arbitrary: x) (simp_all add: zdiv_int zmod_int nat_mod_distrib)

lemma ReferenceGrantName_code [code]:
  "ReferenceGrantName routeName backend =
     routeName @ ''-'' @ hex_int 8 (uint (fnv32a (routeName @ ''/'' @ bt_Namespace backend @ ''/'' @ bt_Name backend))) @
     ''-backend''"
  by (simp add: ReferenceGrantName_def hex_fixed_int Let_def)

section \<open>Builders\<close>

definition MutateGatewayNamespace :: "Namespace \<Rightarrow> CellRouter \<Rightarrow> Namespace" where
  "MutateGatewayNamespace ns router =
     (let m = ns_Meta ns in
      ns\<lparr>ns_Meta := m\<lparr>om_Labels := Merge (om_Labels m)
        (gomap_lit [(ManagedByLabel, OperatorName), (RouterNameLabel, router_Name router)]) []\<rparr>\<rparr>)"

definition build_listener :: "CellGatewayListener \<Rightarrow> Listener" where
  "build_listener l =
     \<lparr>l_Name = gl_Name l, l_Port = gl_Port l, l_Protocol = gl_Protocol l,
      l_Hostname = gl_Hostname l, l_TLS = gl_TLS l\<rparr>"

text \<open>\<^verbatim>\<open>sort.SliceStable\<close> by name is the stable \<open>sort_key\<close> of HOL.\<close>

definition MutateGateway :: "Gateway \<Rightarrow> CellRouter \<Rightarrow> Gateway" where
  "MutateGateway gw router =
     (let spec = crs_Gateway (router_Spec router); m = gw_Meta gw;
          m = m\<lparr>om_Labels := Merge (om_Labels m)
            (gomap_lit [(ManagedByLabel, OperatorName), (RouterNameLabel, router_Name router)]) []\<rparr>;
          m = m\<lparr>om_Annotations := Merge (om_Annotations m) (gs_Annotations spec) []\<rparr>;
          m = m\<lparr>om_Labels := Merge (om_Labels m) (gs_Labels spec) [ManagedByLabel, RouterNameLabel]\<rparr> in
      gw\<lparr>gw_Meta := m, gw_GatewayClassName := gs_GatewayClassName spec,
        gw_Listeners := sort_key l_Name (map build_listener (gs_Listeners spec))\<rparr>)"

definition GatewayGroupName :: string where [simp]: "GatewayGroupName = ''gateway.networking.k8s.io''"

definition MutateReferenceGrant ::
    "ReferenceGrant \<Rightarrow> CellRouter \<Rightarrow> string \<Rightarrow> string \<Rightarrow> string \<Rightarrow> BackendTarget \<Rightarrow> ReferenceGrant" where
  "MutateReferenceGrant grant router routeName cellRef gatewayNamespace backend =
     (let m = grant_Meta grant;
          m = m\<lparr>om_Labels := Merge (om_Labels m)
            (gomap_lit [(ManagedByLabel, OperatorName), (RouterNameLabel, router_Name router),
              (CellNameLabel, cellRef)]) []\<rparr>;
          m = m\<lparr>om_Annotations := Merge (om_Annotations m)
            (gomap_lit [(''cellrouter.io/route-name'', routeName)]) []\<rparr> in
      grant\<lparr>grant_Meta := m,
        grant_From := [\<lparr>from_Group = GatewayGroupName, from_Kind = ''HTTPRoute'',
          from_Namespace = gatewayNamespace\<rparr>],
        grant_To := [\<lparr>to_Group = [], to_Kind = ''Service'', to_Name = Some (bt_Name backend)\<rparr>]\<rparr>)"

definition buildMatches :: "CellRouteSpec \<Rightarrow> HTTPRouteMatch list" where
  "buildMatches spec =
     (let match = \<lparr>m_Path = None, m_Headers = [], m_QueryParams = []\<rparr>;
          match = (case rt_PathMatch spec of None \<Rightarrow> match
            | Some p \<Rightarrow> match\<lparr>m_Path := Some \<lparr>gpm_Type = pm_Type p, gpm_Value = Some (pm_Value p)\<rparr>\<rparr>);
          match = (if rt_HeaderMatches spec \<noteq> [] then match\<lparr>m_Headers :=
            map (\<lambda>h. \<lparr>ghm_Type = hm_Type h, ghm_Name = hm_Name h, ghm_Value = hm_Value h\<rparr>) (rt_HeaderMatches spec)\<rparr>
            else match);
          match = (if rt_QueryParamMatches spec \<noteq> [] then match\<lparr>m_QueryParams :=
            map (\<lambda>q. \<lparr>gqm_Type = qm_Type q, gqm_Name = qm_Name q, gqm_Value = qm_Value q\<rparr>) (rt_QueryParamMatches spec)\<rparr>
            else match) in
      if m_Path match \<noteq> None \<or> m_Headers match \<noteq> [] \<or> m_QueryParams match \<noteq> [] then [match] else [])"

definition MutateHTTPRoute ::
    "HTTPRoute \<Rightarrow> CellRouter \<Rightarrow> CellRouteSpec \<Rightarrow> string \<Rightarrow> BackendTarget list \<Rightarrow> string \<Rightarrow> HTTPRoute" where
  "MutateHTTPRoute route router spec gatewayNamespace backends placementName =
     (let labels = [(ManagedByLabel, OperatorName), (RouterNameLabel, router_Name router),
            (CellNameLabel, rt_CellRef spec)] @
            (if placementName \<noteq> [] then [(PlacementNameLabel, placementName)] else []);
          m = route_Meta route;
          m = m\<lparr>om_Labels := Merge (om_Labels m) (gomap_lit labels) []\<rparr>;
          gatewayName = gs_Name (crs_Gateway (router_Spec router));
          parentRefs = (if rt_ListenerNames spec = []
            then [\<lparr>pr_Name = gatewayName, pr_Namespace = Some gatewayNamespace, pr_SectionName = None\<rparr>]
            else map (\<lambda>l. \<lparr>pr_Name = gatewayName, pr_Namespace = Some gatewayNamespace,
              pr_SectionName = Some l\<rparr>) (rt_ListenerNames spec));
          backendRefs = map (\<lambda>b. \<lparr>b_Name = bt_Name b, b_Namespace = Some (bt_Namespace b),
            b_Port = Some (bt_Port b), b_Weight = bt_Weight b\<rparr>) backends;
          rule = \<lparr>rule_Matches = buildMatches spec, rule_BackendRefs = backendRefs\<rparr> in
      route\<lparr>route_Meta := m, route_Spec := \<lparr>hr_ParentRefs = parentRefs,
        hr_Hostnames = rt_Hostnames spec, hr_Rules = [rule]\<rparr>\<rparr>)"

section \<open>The builder contract\<close>

definition router_labels :: "CellRouter \<Rightarrow> (string \<times> string) list" where
  "router_labels router = [(ManagedByLabel, OperatorName), (RouterNameLabel, router_Name router)]"

definition route_labels :: "CellRouter \<Rightarrow> CellRouteSpec \<Rightarrow> string \<Rightarrow> (string \<times> string) list" where
  "route_labels router spec placementName =
     router_labels router @ [(CellNameLabel, rt_CellRef spec)] @
     (if placementName \<noteq> [] then [(PlacementNameLabel, placementName)] else [])"

lemmas router_builder_simps = Merge_lookup Merge_twice Merge_owned_twice Let_def router_labels_def route_labels_def

interpretation gateway_namespace_builder: resource_builder
  "\<lambda>ns. MutateGatewayNamespace ns router" ns_Meta "router_labels router" for router
  by unfold_locales (auto simp: MutateGatewayNamespace_def router_builder_simps)

interpretation gateway_builder: resource_builder
  "\<lambda>gw. MutateGateway gw router" gw_Meta "router_labels router" for router
  by unfold_locales (auto simp: MutateGateway_def router_builder_simps)

interpretation grant_builder: resource_builder
  "\<lambda>grant. MutateReferenceGrant grant router routeName cellRef gatewayNamespace backend" grant_Meta
  "router_labels router @ [(CellNameLabel, cellRef)]"
  for router routeName cellRef gatewayNamespace backend
  by unfold_locales (auto simp: MutateReferenceGrant_def router_builder_simps)

interpretation route_builder: resource_builder
  "\<lambda>route. MutateHTTPRoute route router spec gatewayNamespace backends placementName" route_Meta
  "route_labels router spec placementName"
  for router spec gatewayNamespace backends placementName
  by unfold_locales (auto simp: MutateHTTPRoute_def router_builder_simps)

section \<open>Names of grants\<close>

lemma hex_fixed_length [simp]: "length (hex_fixed n x) = n"
  by (induction n arbitrary: x) simp_all

lemma hex_digit_inject: "a < 16 \<Longrightarrow> b < 16 \<Longrightarrow> hex_digit a = hex_digit b \<Longrightarrow> a = b"
proof -
  assume "a < 16" "b < 16" "hex_digit a = hex_digit b"
  then have "(of_char (hex_digit a) :: nat) = of_char (hex_digit b)" by simp
  with \<open>a < 16\<close> \<open>b < 16\<close> show "a = b" by (auto simp: hex_digit_def split: if_splits)
qed

lemma hex_fixed_inject: "x < 16 ^ n \<Longrightarrow> y < 16 ^ n \<Longrightarrow> hex_fixed n x = hex_fixed n y \<Longrightarrow> x = y"
proof (induction n arbitrary: x y)
  case (Suc n)
  then have "hex_fixed n (x div 16) = hex_fixed n (y div 16)" "hex_digit (x mod 16) = hex_digit (y mod 16)"
    by simp_all
  moreover have "x div 16 < 16 ^ n" "y div 16 < 16 ^ n" using Suc.prems(1,2) by (auto simp: less_mult_imp_div_less mult.commute)
  ultimately have "x div 16 = y div 16" "x mod 16 = y mod 16"
    using Suc.IH hex_digit_inject [of "x mod 16" "y mod 16"] by auto
  then show ?case by (metis div_mult_mod_eq)
qed simp

section \<open>Properties\<close>

text \<open>
  Two reference grants have the same name only when they belong to the same route and
  the 32-bit hashes of route, namespace and service agree; grants of different routes never
  collide, whatever characters the names hold.
\<close>

theorem grant_name_separates_routes:
  "ReferenceGrantName r b = ReferenceGrantName r' b' \<longleftrightarrow>
     r = r' \<and> fnv32a (r @ ''/'' @ bt_Namespace b @ ''/'' @ bt_Name b) =
       fnv32a (r' @ ''/'' @ bt_Namespace b' @ ''/'' @ bt_Name b')"
proof -
  have "unat (h :: 32 word) < 16 ^ 8" for h using unsigned_less [of h, where 'a = nat] by simp
  then have "hex_fixed 8 (unat h) = hex_fixed 8 (unat h') \<longleftrightarrow> h = h'" for h h' :: "32 word"
    using hex_fixed_inject [of "unat h" 8 "unat h'"] by (auto simp: unsigned_word_eqI)
  moreover have "u @ hex_fixed 8 x @ ''-backend'' = u' @ hex_fixed 8 x' @ ''-backend'' \<longleftrightarrow>
      u = u' \<and> hex_fixed 8 x = hex_fixed 8 x'" for u u' x x'
    using append_eq_append_conv [of "hex_fixed 8 x @ ''-backend''" "hex_fixed 8 x' @ ''-backend''" u u']
    by simp
  from this [of "r @ ''-''" _ "r' @ ''-''"]
  have "r @ ''-'' @ hex_fixed 8 x @ ''-backend'' = r' @ ''-'' @ hex_fixed 8 x' @ ''-backend'' \<longleftrightarrow>
      r = r' \<and> hex_fixed 8 x = hex_fixed 8 x'" for x x' by simp
  ultimately show ?thesis by (simp add: ReferenceGrantName_def Let_def)
qed

text \<open>
  The listeners of the gateway do not depend on the order of the listeners in the spec:
  two specs with the same listeners, distinctly named, give the same sorted list.
\<close>

theorem gateway_listener_order:
  assumes "mset (gs_Listeners (crs_Gateway (router_Spec r))) = mset (gs_Listeners (crs_Gateway (router_Spec r')))"
    and "distinct (map gl_Name (gs_Listeners (crs_Gateway (router_Spec r))))"
  shows "gw_Listeners (MutateGateway gw r) = gw_Listeners (MutateGateway gw' r') \<and>
    sorted (map l_Name (gw_Listeners (MutateGateway gw r)))"
proof -
  let ?f = "\<lambda>r. map build_listener (gs_Listeners (crs_Gateway (router_Spec r)))"
  have "mset (?f r) = mset (?f r')" using assms(1) by simp
  moreover have "map l_Name (?f r) = map gl_Name (gs_Listeners (crs_Gateway (router_Spec r)))"
    by (simp add: build_listener_def)
  with assms(2) have "inj_on l_Name (set (?f r))" by (metis distinct_map)
  ultimately have "sort_key l_Name (?f r) = sort_key l_Name (?f r')"
    by (intro sort_key_inj_key_eq) simp_all
  then show ?thesis by (simp add: MutateGateway_def Let_def)
qed

theorem gateway_listener_order_witness:
  "\<exists>r r'. gs_Listeners (crs_Gateway (router_Spec r)) \<noteq> gs_Listeners (crs_Gateway (router_Spec r')) \<and>
     (\<forall>gw gw'. gw_Listeners (MutateGateway gw r) = gw_Listeners (MutateGateway gw' r'))"
proof -
  let ?l = "\<lambda>n p. \<lparr>gl_Name = n, gl_Port = p, gl_Protocol = ''HTTP'', gl_Hostname = None, gl_TLS = None\<rparr>"
  let ?r = "\<lambda>ls. \<lparr>router_Meta = NewMeta ''edge'' [], router_Spec = \<lparr>crs_Gateway = \<lparr>gs_Name = ''gw'', gs_Namespace = ''infra'',
      gs_GatewayClassName = ''envoy'', gs_Labels = None, gs_Annotations = None, gs_Listeners = ls\<rparr>, crs_Routes = []\<rparr>,
      router_Status = \<lparr>crst_ObservedGeneration = 0, crst_ManagedGatewayRef = [], crst_ManagedRoutes = [], crst_Conditions = []\<rparr>\<rparr>"
  show ?thesis
    using gateway_listener_order [of "?r [?l ''b'' 80, ?l ''a'' 81]" "?r [?l ''a'' 81, ?l ''b'' 80]"]
    by (intro exI [of _ "?r [?l ''b'' 80, ?l ''a'' 81]"] exI [of _ "?r [?l ''a'' 81, ?l ''b'' 80]"]) simp
qed

text \<open>
  A route has one rule, and the rule's matches are one conjunction of the path, header
  and query matches of the spec, in order; the rule has no match, and so catches every
  request, exactly when the spec has none of them. Each parent reference names the router's
  gateway, one per listener name and a single one without listener when there are no names.
\<close>

theorem route_rule_exact:
  "\<exists>rule. hr_Rules (route_Spec (MutateHTTPRoute route router spec ns backends placement)) = [rule] \<and>
     (rule_Matches rule = [] \<longleftrightarrow>
        rt_PathMatch spec = None \<and> rt_HeaderMatches spec = [] \<and> rt_QueryParamMatches spec = []) \<and>
     (\<forall>m\<in>set (rule_Matches rule).
        map_option gpm_Value (m_Path m) = map_option (Some \<circ> pm_Value) (rt_PathMatch spec) \<and>
        map (\<lambda>h. (ghm_Type h, ghm_Name h, ghm_Value h)) (m_Headers m) =
          map (\<lambda>h. (hm_Type h, hm_Name h, hm_Value h)) (rt_HeaderMatches spec) \<and>
        map (\<lambda>q. (gqm_Type q, gqm_Name q, gqm_Value q)) (m_QueryParams m) =
          map (\<lambda>q. (qm_Type q, qm_Name q, qm_Value q)) (rt_QueryParamMatches spec)) \<and>
     length (rule_Matches rule) \<le> 1 \<and>
     map (\<lambda>b. (b_Namespace b, b_Name b, b_Port b, b_Weight b)) (rule_BackendRefs rule) =
       map (\<lambda>b. (Some (bt_Namespace b), bt_Name b, Some (bt_Port b), bt_Weight b)) backends \<and>
     map pr_SectionName (hr_ParentRefs (route_Spec (MutateHTTPRoute route router spec ns backends placement))) =
       (if rt_ListenerNames spec = [] then [None] else map Some (rt_ListenerNames spec))"
  by (auto simp: MutateHTTPRoute_def buildMatches_def Let_def comp_def split: option.splits)

theorem route_rule_exact_witness:
  "\<exists>spec. \<forall>route router ns. \<exists>rule.
     hr_Rules (route_Spec (MutateHTTPRoute route router spec ns [] [])) = [rule] \<and> rule_Matches rule = []"
proof -
  let ?spec = "\<lparr>rt_Name = ''all'', rt_CellRef = ''c'', rt_ListenerNames = [], rt_Hostnames = [], rt_PathMatch = None,
    rt_HeaderMatches = [], rt_QueryParamMatches = [], rt_Weight = None, rt_AdditionalBackends = [],
    rt_FallbackBackend = None\<rparr>"
  have "\<exists>rule. hr_Rules (route_Spec (MutateHTTPRoute route router ?spec ns [] [])) = [rule] \<and>
      rule_Matches rule = []" for route router ns
    using route_rule_exact [of route router ?spec ns "[]" "[]"] by auto
  then show ?thesis by blast
qed

text \<open>
  What a grant allows: a reference from an object of a group and kind in a namespace to an
  object of a group, kind and name in the namespace of the grant.
\<close>

definition grant_allows ::
    "ReferenceGrant \<Rightarrow> string \<times> string \<times> string \<Rightarrow> string \<times> string \<times> string \<Rightarrow> bool" where
  "grant_allows grant from to \<longleftrightarrow>
     (\<exists>f\<in>set (grant_From grant). from = (from_Group f, from_Kind f, from_Namespace f)) \<and>
     (\<exists>t\<in>set (grant_To grant). fst to = to_Group t \<and> fst (snd to) = to_Kind t \<and>
        (to_Name t = None \<or> to_Name t = Some (snd (snd to))))"

text \<open>
  A managed grant allows exactly the routes of the gateway namespace to refer to exactly
  the selected service, whatever the object allowed before.
\<close>

theorem grant_least_privilege:
  "grant_allows (MutateReferenceGrant grant router routeName cellRef ns backend) from to \<longleftrightarrow>
     from = (GatewayGroupName, ''HTTPRoute'', ns) \<and> to = ([], ''Service'', bt_Name backend)"
  by (cases to) (auto simp: grant_allows_def MutateReferenceGrant_def Let_def)

text \<open>
  C38: the router builders converge at once, and the objects of the two kinds that the router lists,
  routes and reference grants, carry the labels its list queries ask for.
\<close>

theorem router_builders_converge:
  "((\<lambda>ns. MutateGatewayNamespace ns router) ^^ Suc n) ns = MutateGatewayNamespace ns router \<and>
   ((\<lambda>gw. MutateGateway gw router) ^^ Suc n) gw = MutateGateway gw router \<and>
   ((\<lambda>g. MutateReferenceGrant g router routeName cellRef gns backend) ^^ Suc n) grant =
     MutateReferenceGrant grant router routeName cellRef gns backend \<and>
   ((\<lambda>r. MutateHTTPRoute r router spec gns backends placement) ^^ Suc n) route =
     MutateHTTPRoute route router spec gns backends placement \<and>
   list_all (\<lambda>(k, v). gomap_lookup (om_Labels (grant_Meta
       (MutateReferenceGrant grant router routeName cellRef gns backend))) k = Some v \<and>
     gomap_lookup (om_Labels (route_Meta (MutateHTTPRoute route router spec gns backends placement))) k = Some v)
     [(ManagedByLabel, OperatorName), (RouterNameLabel, router_Name router)]"
proof (intro conjI gateway_namespace_builder.repeated_mutate gateway_builder.repeated_mutate
    grant_builder.repeated_mutate route_builder.repeated_mutate)
qed (auto simp: router_labels_def route_labels_def
    intro: grant_builder.mutate_owned route_builder.mutate_owned)

end
