(* ===== verification/Kube.thy ===== *)
theory Kube
  imports Types
begin

text \<open>
  The interface between the reconcilers and the packages they call. The API client, the
  condition, finalizer and owner-reference helpers, the event recorder and the order in which
  Go enumerates a map are not part of the operator: they are the fields of a record \<open>kube\<close>,
  an argument of every reconciler. Their effects are computations of the state monad over a
  world of any type. What the operator relies on is stated as named predicates on the record,
  which the theorems take as hypotheses. The second half holds the Hoare triples used to reason
  about such computations.
\<close>

section \<open>Clients\<close>

text \<open>
  The operations on one kind of object. \<open>rc_Get\<close> takes the namespace and the name,
  \<open>rc_List\<close> an optional namespace and the labels to match. \<open>rc_CreateOrUpdate\<close> is
  \<^verbatim>\<open>controllerutil.CreateOrUpdate\<close>: the object that names the key and the function that
  mutates what was found. \<open>rc_Patch\<close> and \<open>rc_StatusPatch\<close> take the object and the base of
  the merge patch; a patch of the object itself returns what the server answers.
\<close>

record ('o, 'w) resource_client =
  rc_Get :: "string \<Rightarrow> string \<Rightarrow> ('w, error + 'o) state"
  rc_List :: "string option \<Rightarrow> (string \<times> string) list \<Rightarrow> ('w, error + 'o list) state"
  rc_CreateOrUpdate :: "'o \<Rightarrow> ('o \<Rightarrow> error + 'o) \<Rightarrow> ('w, error + 'o) state"
  rc_Delete :: "'o \<Rightarrow> ('w, error option) state"
  rc_Patch :: "'o \<Rightarrow> 'o \<Rightarrow> ('w, error + 'o) state"
  rc_StatusPatch :: "'o \<Rightarrow> 'o \<Rightarrow> ('w, error option) state"

record 'w kube =
  k_cells :: "(Cell, 'w) resource_client"
  k_routers :: "(CellRouter, 'w) resource_client"
  k_placements :: "(CellPlacement, 'w) resource_client"
  k_namespaces :: "(Namespace, 'w) resource_client"
  k_services :: "(Service, 'w) resource_client"
  k_quotas :: "(ResourceQuota, 'w) resource_client"
  k_limits :: "(LimitRange, 'w) resource_client"
  k_netpols :: "(NetworkPolicy, 'w) resource_client"
  k_slices :: "(EndpointSlice, 'w) resource_client"
  k_gateways :: "(Gateway, 'w) resource_client"
  k_routes :: "(HTTPRoute, 'w) resource_client"
  k_grants :: "(ReferenceGrant, 'w) resource_client"
  k_SetStatusCondition :: "Condition list \<Rightarrow> Condition \<Rightarrow> ('w, Condition list) state"
  k_FindStatusCondition :: "Condition list \<Rightarrow> string \<Rightarrow> Condition option"
  k_SetControllerReference :: "string \<Rightarrow> ObjectMeta \<Rightarrow> ObjectMeta \<Rightarrow> error + ObjectMeta"
  k_IsControlledBy :: "ObjectMeta \<Rightarrow> ObjectMeta \<Rightarrow> bool"
  k_ContainsFinalizer :: "ObjectMeta \<Rightarrow> string \<Rightarrow> bool"
  k_AddFinalizer :: "ObjectMeta \<Rightarrow> string \<Rightarrow> ObjectMeta"
  k_RemoveFinalizer :: "ObjectMeta \<Rightarrow> string \<Rightarrow> ObjectMeta"
  k_Eventf :: "(string \<Rightarrow> string \<Rightarrow> string \<Rightarrow> ('w, unit) state) option"
  k_subexpNames :: "string \<Rightarrow> string list option"
  k_range :: "(string, string) fmap \<Rightarrow> ('w, (string \<times> string) list) state"

text \<open>The guarded call of the event recorder.\<close>

definition eventf :: "'w kube \<Rightarrow> string \<Rightarrow> string \<Rightarrow> string \<Rightarrow> ('w, unit) state" where
  "eventf K obj reason message =
     (case k_Eventf K of None \<Rightarrow> ret () | Some f \<Rightarrow> f obj reason message)"

text \<open>\<^verbatim>\<open>client.IgnoreNotFound\<close>.\<close>

definition IgnoreNotFound :: "error option \<Rightarrow> error option" where
  "IgnoreNotFound err = (case err of Some e \<Rightarrow> if IsNotFound e then None else Some e | None \<Rightarrow> None)"

text \<open>\<^verbatim>\<open>ctrl.Result\<close>, with the delay in nanoseconds; 0 asks for no requeue.\<close>

record Result =
  res_RequeueAfter :: int

definition NoRequeue :: Result where
  "NoRequeue = \<lparr>res_RequeueAfter = 0\<rparr>"

type_synonym reconcile_result = "Result \<times> error option"

section \<open>Triples\<close>

definition triple :: "('w \<Rightarrow> bool) \<Rightarrow> ('w, 'a) state \<Rightarrow> ('a \<Rightarrow> 'w \<Rightarrow> bool) \<Rightarrow> bool" where
  "triple P m Q \<longleftrightarrow> (\<forall>w. P w \<longrightarrow> Q (fst (run_state m w)) (snd (run_state m w)))"

definition keeps :: "('w \<Rightarrow> bool) \<Rightarrow> ('w, 'a) state \<Rightarrow> bool" where
  "keeps I m \<longleftrightarrow> triple I m (\<lambda>_. I)"

named_theorems keeps_intros \<open>introduction rules for invariants of computations\<close>

lemma triple_return: "(\<And>w. P w \<Longrightarrow> Q x w) \<Longrightarrow> triple P (ret x) Q"
  by (simp add: triple_def)

lemma triple_bind:
  "triple P m R \<Longrightarrow> (\<And>x. triple (R x) (f x) Q) \<Longrightarrow> triple P (bnd m f) Q"
  by (simp add: triple_def split: prod.splits) (metis fst_conv snd_conv)

lemma triple_weaken:
  "triple P' m Q' \<Longrightarrow> (\<And>w. P w \<Longrightarrow> P' w) \<Longrightarrow> (\<And>x w. Q' x w \<Longrightarrow> Q x w) \<Longrightarrow> triple P m Q"
  by (auto simp: triple_def)

lemma triple_run: "triple P m Q \<Longrightarrow> P w \<Longrightarrow> run_state m w = (x, w') \<Longrightarrow> Q x w'"
  by (auto simp: triple_def dest!: spec [of _ w])

lemma keeps_run: "keeps I m \<Longrightarrow> I w \<Longrightarrow> I (snd (run_state m w))"
  by (simp add: keeps_def triple_def)

lemma keeps_return [keeps_intros]: "keeps I (ret x)"
  by (simp add: keeps_def triple_return)

lemma keeps_bind [keeps_intros]: "keeps I m \<Longrightarrow> (\<And>x. keeps I (f x)) \<Longrightarrow> keeps I (bnd m f)"
  by (auto simp: keeps_def intro: triple_bind)

lemma keeps_if [keeps_intros]: "(b \<Longrightarrow> keeps I m) \<Longrightarrow> (\<not> b \<Longrightarrow> keeps I n) \<Longrightarrow> keeps I (if b then m else n)"
  by simp

lemma keeps_case_sum [keeps_intros]:
  "(\<And>a. r = Inl a \<Longrightarrow> keeps I (f a)) \<Longrightarrow> (\<And>b. r = Inr b \<Longrightarrow> keeps I (g b)) \<Longrightarrow> keeps I (case r of Inl a \<Rightarrow> f a | Inr b \<Rightarrow> g b)"
  by (cases r) simp_all

lemma keeps_case_option [keeps_intros]:
  "(r = None \<Longrightarrow> keeps I f) \<Longrightarrow> (\<And>b. r = Some b \<Longrightarrow> keeps I (g b)) \<Longrightarrow> keeps I (case r of None \<Rightarrow> f | Some b \<Rightarrow> g b)"
  by (cases r) simp_all

lemma keeps_case_prod [keeps_intros]:
  "(\<And>a b. r = (a, b) \<Longrightarrow> keeps I (f a b)) \<Longrightarrow> keeps I (case r of (a, b) \<Rightarrow> f a b)"
  by (cases r) simp

lemma keeps_case_list [keeps_intros]:
  "(r = [] \<Longrightarrow> keeps I f) \<Longrightarrow> (\<And>a b. r = a # b \<Longrightarrow> keeps I (g a b)) \<Longrightarrow> keeps I (case r of [] \<Rightarrow> f | a # b \<Rightarrow> g a b)"
  by (cases r) simp_all

lemma triple_conj: "triple P m Q \<Longrightarrow> triple P m R \<Longrightarrow> triple P m (\<lambda>x w. Q x w \<and> R x w)"
  by (simp add: triple_def)

lemma keeps_conj: "keeps I m \<Longrightarrow> keeps J m \<Longrightarrow> keeps (\<lambda>w. I w \<and> J w) m"
  by (simp add: keeps_def triple_def)

text \<open>A fact about the result that the world does not matter for becomes a premise of what follows.\<close>

lemma triple_bind_fact:
  "triple P m (\<lambda>x w. R x \<and> S x w) \<Longrightarrow> (\<And>x. R x \<Longrightarrow> triple (S x) (f x) Q) \<Longrightarrow> triple P (bnd m f) Q"
  by (simp add: triple_def split: prod.splits) (metis fst_conv snd_conv)

lemma triple_ex: "(\<And>x. triple (P x) m Q) \<Longrightarrow> triple (\<lambda>w. \<exists>x. P x w) m Q"
  by (auto simp: triple_def)

lemma triple_fact: "(R \<Longrightarrow> triple P m Q) \<Longrightarrow> triple (\<lambda>w. R \<and> P w) m Q"
  by (auto simp: triple_def)

lemma triple_keeps: "keeps I m \<Longrightarrow> (\<And>x. triple I (f x) Q) \<Longrightarrow> triple I (bnd m f) Q"
  unfolding keeps_def by (rule triple_bind)

lemma triple_case_option:
  "(r = None \<Longrightarrow> triple P f Q) \<Longrightarrow> (\<And>b. r = Some b \<Longrightarrow> triple P (g b) Q) \<Longrightarrow>
   triple P (case r of None \<Rightarrow> f | Some b \<Rightarrow> g b) Q"
  by (cases r) simp_all

lemma triple_case_sum:
  "(\<And>a. r = Inl a \<Longrightarrow> triple P (f a) Q) \<Longrightarrow> (\<And>b. r = Inr b \<Longrightarrow> triple P (g b) Q) \<Longrightarrow>
   triple P (case r of Inl a \<Rightarrow> f a | Inr b \<Rightarrow> g b) Q"
  by (cases r) simp_all

lemma triple_case_prod: "(\<And>a b. r = (a, b) \<Longrightarrow> triple P (f a b) Q) \<Longrightarrow> triple P (case r of (a, b) \<Rightarrow> f a b) Q"
  by (cases r) simp

lemma triple_if:
  "(b \<Longrightarrow> triple P m Q) \<Longrightarrow> (\<not> b \<Longrightarrow> triple P n Q) \<Longrightarrow> triple P (if b then m else n) Q"
  by simp

text \<open>The two shapes of error handling: an error leaves, a result goes on.\<close>

lemma triple_try_option:
  assumes "triple P m (\<lambda>r w. r = None \<longrightarrow> S w)" "triple S f Q" "\<And>e. triple (\<lambda>_. True) (g e) Q"
  shows "triple P (bnd m (\<lambda>r. case r of None \<Rightarrow> f | Some e \<Rightarrow> g e)) Q"
proof (rule triple_bind [OF assms(1)])
  fix r show "triple (\<lambda>w. r = None \<longrightarrow> S w) (case r of None \<Rightarrow> f | Some e \<Rightarrow> g e) Q"
    using assms(2,3) by (cases r) (auto simp: triple_def)
qed

lemma triple_try_sum:
  assumes "triple P m (\<lambda>r w. \<forall>x. r = Inr x \<longrightarrow> S x w)" "\<And>x. triple (S x) (f x) Q" "\<And>e. triple (\<lambda>_. True) (g e) Q"
  shows "triple P (bnd m (\<lambda>r. case r of Inl e \<Rightarrow> g e | Inr x \<Rightarrow> f x)) Q"
proof (rule triple_bind [OF assms(1)])
  fix r show "triple (\<lambda>w. \<forall>x. r = Inr x \<longrightarrow> S x w) (case r of Inl e \<Rightarrow> g e | Inr x \<Rightarrow> f x) Q"
    using assms(2,3) by (cases r) (auto simp: triple_def)
qed

section \<open>What the packages promise\<close>

text \<open>An invariant of the world that reads, writes and permitted deletions of a client keep.\<close>

definition reads_keep :: "('w \<Rightarrow> bool) \<Rightarrow> ('o, 'w) resource_client \<Rightarrow> bool" where
  "reads_keep I rc \<longleftrightarrow> (\<forall>ns n. keeps I (rc_Get rc ns n)) \<and> (\<forall>ns ls. keeps I (rc_List rc ns ls))"

definition applies_keep :: "('w \<Rightarrow> bool) \<Rightarrow> ('o, 'w) resource_client \<Rightarrow> bool" where
  "applies_keep I rc \<longleftrightarrow> (\<forall>obj f. keeps I (rc_CreateOrUpdate rc obj f))"

definition patches_keep :: "('w \<Rightarrow> bool) \<Rightarrow> ('o, 'w) resource_client \<Rightarrow> bool" where
  "patches_keep I rc \<longleftrightarrow>
     (\<forall>obj base. keeps I (rc_Patch rc obj base)) \<and> (\<forall>obj base. keeps I (rc_StatusPatch rc obj base))"

definition status_patches_keep :: "('w \<Rightarrow> bool) \<Rightarrow> ('o, 'w) resource_client \<Rightarrow> bool" where
  "status_patches_keep I rc \<longleftrightarrow> (\<forall>obj base. keeps I (rc_StatusPatch rc obj base))"

lemma patches_keep_status [simp, intro]: "patches_keep I rc \<Longrightarrow> status_patches_keep I rc"
  by (simp add: patches_keep_def status_patches_keep_def)

definition deletes_keep :: "('w \<Rightarrow> bool) \<Rightarrow> ('o, 'w) resource_client \<Rightarrow> ('o \<Rightarrow> bool) \<Rightarrow> bool" where
  "deletes_keep I rc allowed \<longleftrightarrow> (\<forall>obj. allowed obj \<longrightarrow> keeps I (rc_Delete rc obj))"

definition helpers_keep :: "('w \<Rightarrow> bool) \<Rightarrow> 'w kube \<Rightarrow> bool" where
  "helpers_keep I K \<longleftrightarrow>
     (\<forall>cs c. keeps I (k_SetStatusCondition K cs c)) \<and>
     (\<forall>f obj reason msg. k_Eventf K = Some f \<longrightarrow> keeps I (f obj reason msg)) \<and>
     (\<forall>m. keeps I (k_range K m))"

text \<open>
  \<^verbatim>\<open>apimeta.SetStatusCondition\<close> and \<^verbatim>\<open>FindStatusCondition\<close>: the condition of the given type
  takes the given status, generation, reason and message, the others stay.
\<close>

definition conditions_ok :: "'w kube \<Rightarrow> bool" where
  "conditions_ok K \<longleftrightarrow>
     (\<forall>cs c w t. let cs' = fst (run_state (k_SetStatusCondition K cs c) w) in
        (if t = c_Type c
         then \<exists>d. k_FindStatusCondition K cs' t = Some d \<and> c_Type d = t \<and> c_Status d = c_Status c \<and>
           c_ObservedGeneration d = c_ObservedGeneration c \<and> c_Reason d = c_Reason c \<and>
           c_Message d = c_Message c
         else k_FindStatusCondition K cs' t = k_FindStatusCondition K cs t))"

lemma keeps_client [keeps_intros]:
  "reads_keep I rc \<Longrightarrow> keeps I (rc_Get rc ns n)"
  "reads_keep I rc \<Longrightarrow> keeps I (rc_List rc nso ls)"
  "applies_keep I rc \<Longrightarrow> keeps I (rc_CreateOrUpdate rc obj f)"
  "patches_keep I rc \<Longrightarrow> keeps I (rc_Patch rc obj base)"
  "status_patches_keep I rc \<Longrightarrow> keeps I (rc_StatusPatch rc obj base)"
  by (simp_all add: reads_keep_def applies_keep_def patches_keep_def status_patches_keep_def)

lemma keeps_delete: "deletes_keep I rc allowed \<Longrightarrow> allowed obj \<Longrightarrow> keeps I (rc_Delete rc obj)"
  by (simp add: deletes_keep_def)

lemma keeps_helpers [keeps_intros]:
  "helpers_keep I K \<Longrightarrow> keeps I (k_SetStatusCondition K cs c)"
  "helpers_keep I K \<Longrightarrow> keeps I (k_range K m)"
  "helpers_keep I K \<Longrightarrow> keeps I (eventf K obj reason msg)"
  by (auto simp: helpers_keep_def eventf_def keeps_return split: option.splits)

text \<open>
  An object \<open>x\<close> is stored, as \<open>present\<close> tells: reads return no other object under its key,
  and only a deletion under its key removes it.
\<close>

abbreviation meta_key :: "ObjectMeta \<Rightarrow> string \<times> string" where
  "meta_key m \<equiv> (om_Namespace m, om_Name m)"

definition stores :: "('o, 'w) resource_client \<Rightarrow> ('o \<Rightarrow> ObjectMeta) \<Rightarrow> 'o \<Rightarrow> ('w \<Rightarrow> bool) \<Rightarrow> bool" where
  "stores rc meta x present \<longleftrightarrow>
     (\<forall>ns n. triple present (rc_Get rc ns n) (\<lambda>r w. present w \<and>
        (\<forall>y. r = Inr y \<longrightarrow> meta_key (meta y) = meta_key (meta x) \<longrightarrow> y = x))) \<and>
     (\<forall>ns ls. triple present (rc_List rc ns ls) (\<lambda>r w. present w \<and>
        (\<forall>ys. r = Inr ys \<longrightarrow> (\<forall>y\<in>set ys. meta_key (meta y) = meta_key (meta x) \<longrightarrow> y = x)))) \<and>
     (\<forall>y. meta_key (meta y) \<noteq> meta_key (meta x) \<longrightarrow> keeps present (rc_Delete rc y))"

text \<open>
  A status patch against the stored status stores the new one: \<open>stored\<close> reads the status of
  the object with a namespace and a name in a world.
\<close>

definition status_patched :: "('o, 'w) resource_client \<Rightarrow> ('o \<Rightarrow> ObjectMeta) \<Rightarrow> ('o \<Rightarrow> 's) \<Rightarrow>
    ('w \<Rightarrow> string \<times> string \<Rightarrow> 's option) \<Rightarrow> bool" where
  "status_patched rc meta status stored \<longleftrightarrow>
     (\<forall>x base w w'. stored w (meta_key (meta base)) = Some (status base) \<longrightarrow>
        meta_key (meta x) = meta_key (meta base) \<longrightarrow> run_state (rc_StatusPatch rc x base) w = (None, w') \<longrightarrow>
        stored w' (meta_key (meta x)) = Some (status x))"

text \<open>The pattern of every deletion by name: read, check, delete what was read.\<close>

lemma keeps_guarded_delete:
  assumes "stores rc meta x present" "\<not> allowed x"
  shows "keeps present (bnd (rc_Get rc ns n) (\<lambda>r. case r of Inl err \<Rightarrow> ret (f err)
    | Inr y \<Rightarrow> if \<not> allowed y then ret b else bnd (rc_Delete rc y) (\<lambda>err. ret (g err))))"
  unfolding keeps_def
proof (rule triple_bind)
  show "triple present (rc_Get rc ns n) (\<lambda>r w. present w \<and>
      (\<forall>y. r = Inr y \<longrightarrow> meta_key (meta y) = meta_key (meta x) \<longrightarrow> y = x))"
    using assms(1) by (simp add: stores_def)
  fix r
  have "keeps present (if \<not> allowed y then ret b else bnd (rc_Delete rc y) (\<lambda>err. ret (g err)))"
    if "meta_key (meta y) = meta_key (meta x) \<longrightarrow> y = x" for y
    using that assms by (intro keeps_intros) (auto simp: stores_def)
  then show "triple (\<lambda>w. present w \<and> (\<forall>y. r = Inr y \<longrightarrow> meta_key (meta y) = meta_key (meta x) \<longrightarrow> y = x))
      (case r of Inl err \<Rightarrow> ret (f err) | Inr y \<Rightarrow> if \<not> allowed y then ret b
        else bnd (rc_Delete rc y) (\<lambda>err. ret (g err))) (\<lambda>_. present)"
    by (cases r) (auto simp: keeps_def triple_def)
qed

end
