(* ===== verification/Cluster.thy ===== *)
theory Cluster
  imports Kube
begin

text \<open>
  An in-memory cluster that behaves as the packages document: every kind is a list of objects
  with distinct keys, the clock stands still within a pass. It shows that the hypotheses about
  the packages can hold together, and the theorems of the reconcilers are evaluated on it.
\<close>

section \<open>The store\<close>

record cluster =
  db_cells :: "Cell list"
  db_routers :: "CellRouter list"
  db_placements :: "CellPlacement list"
  db_namespaces :: "Namespace list"
  db_services :: "Service list"
  db_quotas :: "ResourceQuota list"
  db_limits :: "LimitRange list"
  db_netpols :: "NetworkPolicy list"
  db_slices :: "EndpointSlice list"
  db_gateways :: "Gateway list"
  db_routes :: "HTTPRoute list"
  db_grants :: "ReferenceGrant list"
  db_now :: time

definition empty_cluster :: cluster where
  "empty_cluster = \<lparr>db_cells = [], db_routers = [], db_placements = [], db_namespaces = [], db_services = [],
     db_quotas = [], db_limits = [], db_netpols = [], db_slices = [], db_gateways = [], db_routes = [],
     db_grants = [], db_now = 1\<rparr>"

definition has_key :: "string \<Rightarrow> string \<Rightarrow> ObjectMeta \<Rightarrow> bool" where
  "has_key ns n m \<longleftrightarrow> om_Namespace m = ns \<and> om_Name m = n"

abbreviation same_key :: "ObjectMeta \<Rightarrow> ObjectMeta \<Rightarrow> bool" where
  "same_key m \<equiv> has_key (om_Namespace m) (om_Name m)"

definition has_labels :: "(string \<times> string) list \<Rightarrow> ObjectMeta \<Rightarrow> bool" where
  "has_labels ls m \<longleftrightarrow> list_all (\<lambda>(k, v). gomap_lookup (om_Labels m) k = Some v) ls"

definition not_found :: error where
  "not_found = NotFoundErr ''not found''"

text \<open>
  The client of one kind: how to read and write its list, where the metadata is, and how to
  take the status of one object into another.
\<close>

definition mem_client :: "('w \<Rightarrow> 'o list) \<Rightarrow> ('o list \<Rightarrow> 'w \<Rightarrow> 'w) \<Rightarrow> ('o \<Rightarrow> ObjectMeta) \<Rightarrow> ('o \<Rightarrow> 'o \<Rightarrow> 'o) \<Rightarrow>
    ('o, 'w) resource_client" where
  "mem_client get put meta take_status =
     \<lparr>rc_Get = (\<lambda>ns n. State (\<lambda>w.
        (case find (has_key ns n \<circ> meta) (get w) of None \<Rightarrow> Inl not_found | Some x \<Rightarrow> Inr x, w))),
      rc_List = (\<lambda>ns ls. State (\<lambda>w.
        (Inr (filter (\<lambda>x. (case ns of None \<Rightarrow> True | Some s \<Rightarrow> om_Namespace (meta x) = s) \<and>
           has_labels ls (meta x)) (get w)), w))),
      rc_CreateOrUpdate = (\<lambda>obj f. State (\<lambda>w.
        (case find (same_key (meta obj) \<circ> meta) (get w) of
           None \<Rightarrow> (case f obj of Inl err \<Rightarrow> (Inl err, w) | Inr x \<Rightarrow> (Inr x, put (x # get w) w))
         | Some old \<Rightarrow> (case f old of Inl err \<Rightarrow> (Inl err, w)
             | Inr x \<Rightarrow> (Inr x, put (map (\<lambda>y. if same_key (meta obj) (meta y) then x else y) (get w)) w))))),
      rc_Delete = (\<lambda>obj. State (\<lambda>w.
        if list_ex (same_key (meta obj) \<circ> meta) (get w)
        then (None, put (filter (\<lambda>y. \<not> same_key (meta obj) (meta y)) (get w)) w)
        else (Some not_found, w))),
      rc_Patch = (\<lambda>obj base. State (\<lambda>w.
        if list_ex (same_key (meta obj) \<circ> meta) (get w)
        then (Inr obj, put (map (\<lambda>y. if same_key (meta obj) (meta y) then obj else y) (get w)) w)
        else (Inl not_found, w))),
      rc_StatusPatch = (\<lambda>obj base. State (\<lambda>w.
        if list_ex (same_key (meta obj) \<circ> meta) (get w)
        then (None, put (map (\<lambda>y. if same_key (meta obj) (meta y) then take_status obj y else y) (get w)) w)
        else (Some not_found, w)))\<rparr>"

section \<open>The helpers\<close>

fun set_condition :: "time \<Rightarrow> Condition \<Rightarrow> Condition list \<Rightarrow> Condition list" where
  "set_condition now c [] = [c\<lparr>c_LastTransitionTime := now\<rparr>]"
| "set_condition now c (d # ds) =
     (if c_Type d = c_Type c
      then c\<lparr>c_LastTransitionTime := if c_Status d = c_Status c then c_LastTransitionTime d else now\<rparr> # ds
      else d # set_condition now c ds)"

definition find_condition :: "Condition list \<Rightarrow> string \<Rightarrow> Condition option" where
  "find_condition cs t = find (\<lambda>c. c_Type c = t) cs"

definition is_controlled :: "ObjectMeta \<Rightarrow> ObjectMeta \<Rightarrow> bool" where
  "is_controlled m owner \<longleftrightarrow>
     list_ex (\<lambda>r. or_Controller r = Some True \<and> or_UID r = om_UID owner) (om_OwnerReferences m)"

definition set_controller :: "string \<Rightarrow> ObjectMeta \<Rightarrow> ObjectMeta \<Rightarrow> error + ObjectMeta" where
  "set_controller kind owner m =
     (if list_ex (\<lambda>r. or_Controller r = Some True \<and> or_UID r \<noteq> om_UID owner) (om_OwnerReferences m)
      then Inl (ApiErr ''already owned by another controller'')
      else if is_controlled m owner then Inr m
      else Inr (m\<lparr>om_OwnerReferences := om_OwnerReferences m @
        [\<lparr>or_Kind = kind, or_Name = om_Name owner, or_UID = om_UID owner, or_Controller = Some True\<rparr>]\<rparr>))"

definition mem_kube :: "cluster kube" where
  "mem_kube =
     \<lparr>k_cells = mem_client db_cells (\<lambda>v w. w\<lparr>db_cells := v\<rparr>) cell_Meta
        (\<lambda>n x. x\<lparr>cell_Status := cell_Status n\<rparr>),
      k_routers = mem_client db_routers (\<lambda>v w. w\<lparr>db_routers := v\<rparr>) router_Meta
        (\<lambda>n x. x\<lparr>router_Status := router_Status n\<rparr>),
      k_placements = mem_client db_placements (\<lambda>v w. w\<lparr>db_placements := v\<rparr>) placement_Meta
        (\<lambda>n x. x\<lparr>placement_Status := placement_Status n\<rparr>),
      k_namespaces = mem_client db_namespaces (\<lambda>v w. w\<lparr>db_namespaces := v\<rparr>) ns_Meta (\<lambda>n x. x),
      k_services = mem_client db_services (\<lambda>v w. w\<lparr>db_services := v\<rparr>) svc_Meta (\<lambda>n x. x),
      k_quotas = mem_client db_quotas (\<lambda>v w. w\<lparr>db_quotas := v\<rparr>) quota_Meta (\<lambda>n x. x),
      k_limits = mem_client db_limits (\<lambda>v w. w\<lparr>db_limits := v\<rparr>) limits_Meta (\<lambda>n x. x),
      k_netpols = mem_client db_netpols (\<lambda>v w. w\<lparr>db_netpols := v\<rparr>) netpol_Meta (\<lambda>n x. x),
      k_slices = mem_client db_slices (\<lambda>v w. w\<lparr>db_slices := v\<rparr>) slice_Meta (\<lambda>n x. x),
      k_gateways = mem_client db_gateways (\<lambda>v w. w\<lparr>db_gateways := v\<rparr>) gw_Meta (\<lambda>n x. x),
      k_routes = mem_client db_routes (\<lambda>v w. w\<lparr>db_routes := v\<rparr>) route_Meta
        (\<lambda>n x. x\<lparr>route_Parents := route_Parents n\<rparr>),
      k_grants = mem_client db_grants (\<lambda>v w. w\<lparr>db_grants := v\<rparr>) grant_Meta (\<lambda>n x. x),
      k_SetStatusCondition = (\<lambda>cs c. State (\<lambda>w. (set_condition (db_now w) c cs, w))),
      k_FindStatusCondition = find_condition,
      k_SetControllerReference = set_controller,
      k_IsControlledBy = is_controlled,
      k_ContainsFinalizer = (\<lambda>m f. f \<in> set (om_Finalizers m)),
      k_AddFinalizer = (\<lambda>m f. m\<lparr>om_Finalizers := om_Finalizers m @ [f]\<rparr>),
      k_RemoveFinalizer = (\<lambda>m f. m\<lparr>om_Finalizers := filter (\<lambda>g. g \<noteq> f) (om_Finalizers m)\<rparr>),
      k_Eventf = None,
      k_subexpNames = (\<lambda>_. None),
      k_range = (\<lambda>m. ret (sorted_list_of_fmap m))\<rparr>"

section \<open>The promises of the packages hold\<close>

lemma find_set_condition:
  "find_condition (set_condition now c cs) t =
     (if t = c_Type c
      then Some (c\<lparr>c_LastTransitionTime := (case find_condition cs t of None \<Rightarrow> now
        | Some d \<Rightarrow> if c_Status d = c_Status c then c_LastTransitionTime d else now)\<rparr>)
      else find_condition cs t)"
  by (induction cs) (auto simp: find_condition_def)

lemma mem_conditions_ok: "conditions_ok mem_kube"
  by (simp add: conditions_ok_def mem_kube_def find_set_condition)

text \<open>An operation on one kind keeps every invariant that does not read this kind.\<close>

lemma mem_client_keeps:
  assumes "\<And>v w. I (put v w) = I w"
  shows "reads_keep I (mem_client get put meta st)" "applies_keep I (mem_client get put meta st)"
    "patches_keep I (mem_client get put meta st)" "deletes_keep I (mem_client get put meta st) P"
  using assms
  by (auto simp: reads_keep_def applies_keep_def patches_keep_def deletes_keep_def keeps_def triple_def
      mem_client_def split: option.splits sum.splits)

lemma mem_client_reads: "reads_keep I (mem_client get put meta st)"
  by (simp add: reads_keep_def keeps_def triple_def mem_client_def)

lemma mem_helpers_keep: "helpers_keep I mem_kube"
  by (simp add: helpers_keep_def keeps_def triple_def mem_kube_def)

definition only_stored :: "('o \<Rightarrow> ObjectMeta) \<Rightarrow> 'o \<Rightarrow> 'o list \<Rightarrow> bool" where
  "only_stored meta x xs \<longleftrightarrow> x \<in> set xs \<and> (\<forall>y\<in>set xs. meta_key (meta y) = meta_key (meta x) \<longrightarrow> y = x)"

lemma mem_client_stores:
  assumes "\<And>v w. get (put v w) = v"
  shows "stores (mem_client get put meta st) meta x (\<lambda>w. only_stored meta x (get w))"
proof -
  have "find P xs = Some y \<Longrightarrow> y \<in> set xs" for P :: "'a \<Rightarrow> bool" and xs y
    by (auto simp: find_Some_iff)
  with assms show ?thesis
    by (auto simp: stores_def triple_def keeps_def mem_client_def only_stored_def has_key_def
        split: option.splits if_splits)
qed

text \<open>The status that the cluster holds under a key.\<close>

definition mem_status :: "('w \<Rightarrow> 'o list) \<Rightarrow> ('o \<Rightarrow> ObjectMeta) \<Rightarrow> ('o \<Rightarrow> 's) \<Rightarrow> 'w \<Rightarrow> string \<times> string \<Rightarrow> 's option" where
  "mem_status get meta status w k = map_option status (find (has_key (fst k) (snd k) \<circ> meta) (get w))"

lemma find_has_key_map:
  assumes "\<And>y. meta (f y) = meta y"
  shows "find (has_key ns n \<circ> meta) (map (\<lambda>y. if has_key ns n (meta y) then f y else y) xs) =
    map_option f (find (has_key ns n \<circ> meta) xs)"
  using assms by (induction xs) auto

lemma mem_client_status_patched:
  assumes "\<And>v w. get (put v w) = v" "\<And>n x. meta (take_status n x) = meta x" "\<And>n x. status (take_status n x) = status n"
  shows "status_patched (mem_client get put meta take_status) meta status (mem_status get meta status)"
proof -
  have patched: "find (has_key ns n \<circ> meta) (map (\<lambda>y. if has_key ns n (meta y) then take_status x y else y) xs) =
      map_option (take_status x) (find (has_key ns n \<circ> meta) xs)" for ns n x xs
    by (rule find_has_key_map) (rule assms(2))
  show ?thesis
    unfolding status_patched_def
    by (auto simp: mem_status_def mem_client_def patched assms split: if_splits)
qed

end
