(* ===== verification/Conditions.thy ===== *)
theory Conditions
  imports Kube
begin

text \<open>
  The contract of the status conditions. Cells, routers and placements keep a list of
  conditions in their status and set conditions one after the other before the status is
  patched. What a sequence of such calls establishes does not depend on the kind of object, so
  it is proved once, in a locale over the kind, from the documented behaviour of the condition
  helpers (\<open>conditions_ok\<close>).
\<close>

text \<open>The status of a condition, when the condition is there.\<close>

definition cond_status :: "'w kube \<Rightarrow> Condition list \<Rightarrow> string \<Rightarrow> string option" where
  "cond_status K conds t = map_option c_Status (k_FindStatusCondition K conds t)"

definition bool_status :: "bool \<Rightarrow> string" where
  "bool_status b = (if b then ConditionTrue else ConditionFalse)"

text \<open>
  The knowledge about an object while conditions are set: it differs from the object of the
  beginning in its conditions only, and the listed conditions have the listed statuses.
\<close>

definition conditions_at :: "'w kube \<Rightarrow> ('o \<Rightarrow> Condition list) \<Rightarrow> (Condition list \<Rightarrow> 'o \<Rightarrow> 'o) \<Rightarrow>
    'o \<Rightarrow> (string \<rightharpoonup> string) \<Rightarrow> 'o \<Rightarrow> bool" where
  "conditions_at K conds put x known y \<longleftrightarrow>
     (\<exists>cs. y = put cs x) \<and> (\<forall>t s. known t = Some s \<longrightarrow> cond_status K (conds y) t = Some s)"

locale status_conditions =
  fixes conds :: "'o \<Rightarrow> Condition list"
    and put :: "Condition list \<Rightarrow> 'o \<Rightarrow> 'o"
    and generation :: "'o \<Rightarrow> int64"
    and set_cond :: "'w kube \<Rightarrow> 'o \<Rightarrow> string \<Rightarrow> string \<Rightarrow> string \<Rightarrow> string \<Rightarrow> ('w, 'o) state"
  assumes set_cond_eq: "set_cond K x t s r m =
      bnd (k_SetStatusCondition K (conds x) \<lparr>c_Type = t, c_Status = s, c_ObservedGeneration = generation x,
        c_LastTransitionTime = 0, c_Reason = r, c_Message = m\<rparr>) (\<lambda>cs. ret (put cs x))"
    and conds_put: "conds (put cs x) = cs"
    and put_put: "put cs (put cs' x) = put cs x"
    and put_conds: "put (conds x) x = x"
begin

text \<open>A condition set by a computation: the other conditions and all other fields stay.\<close>

lemma triple_set_cond:
  assumes "conditions_ok K" "helpers_keep I K"
  shows "triple I (set_cond K x t s r m) (\<lambda>y w. I w \<and> (\<exists>cs. y = put cs x) \<and>
    (\<forall>u. cond_status K (conds y) u = (if u = t then Some s else cond_status K (conds x) u)))"
  unfolding triple_def
proof (intro allI impI)
  fix w assume "I w"
  let ?c = "\<lparr>c_Type = t, c_Status = s, c_ObservedGeneration = generation x,
      c_LastTransitionTime = 0, c_Reason = r, c_Message = m\<rparr>"
  obtain cs w' where run: "run_state (k_SetStatusCondition K (conds x) ?c) w = (cs, w')" by fastforce
  have "I w'" using keeps_run [OF keeps_helpers(1) [OF assms(2)] \<open>I w\<close>] run by (metis snd_conv)
  moreover have "cond_status K cs u = (if u = t then Some s else cond_status K (conds x) u)" for u
    using assms(1) [unfolded conditions_ok_def Let_def, rule_format,
        where cs = "conds x" and c = ?c and w = w and t = u] run
    by (auto simp: cond_status_def split: if_splits)
  ultimately show "I (snd (run_state (set_cond K x t s r m) w)) \<and>
      (\<exists>cs. fst (run_state (set_cond K x t s r m) w) = put cs x) \<and>
      (\<forall>u. cond_status K (conds (fst (run_state (set_cond K x t s r m) w))) u =
        (if u = t then Some s else cond_status K (conds x) u))"
    using run by (auto simp: set_cond_eq conds_put)
qed

lemma at_start: "conditions_at K conds put x Map.empty x"
  unfolding conditions_at_def by (metis option.distinct(1) put_conds)

text \<open>The rule for one call in a sequence: the list of known statuses grows.\<close>

lemma triple_condition:
  assumes "conditions_ok K" "helpers_keep I K"
    and "\<And>z. conditions_at K conds put x (known(t \<mapsto> s)) z \<Longrightarrow> triple I (f z) Q"
    and "conditions_at K conds put x known y"
  shows "triple I (bnd (set_cond K y t s r m) f) Q"
proof (rule triple_bind [OF triple_set_cond [OF assms(1,2)]])
  fix z
  let ?P = "\<lambda>w. I w \<and> (\<exists>cs. z = put cs y) \<and>
      (\<forall>u. cond_status K (conds z) u = (if u = t then Some s else cond_status K (conds y) u))"
  show "triple ?P (f z) Q"
  proof (cases "\<exists>w. ?P w")
    case True
    then have "conditions_at K conds put x (known(t \<mapsto> s)) z"
      using assms(4) by (auto simp: conditions_at_def put_put)
    from assms(3) [OF this] show ?thesis by (rule triple_weaken) simp_all
  qed (unfold triple_def, blast)
qed

lemma triple_two_conditions:
  assumes "conditions_ok K" "helpers_keep I K" "conditions_at K conds put x known y"
  shows "triple I (bnd (set_cond K y t s r m) (\<lambda>z. bnd (set_cond K z t' s' r' m') (\<lambda>z. ret (z, b))))
    (\<lambda>(z, b') w. I w \<and> conditions_at K conds put x (known(t \<mapsto> s, t' \<mapsto> s')) z \<and> b' = b)"
  by (rule triple_condition [OF assms(1,2) _ assms(3)], rule triple_condition [OF assms(1,2)], rule triple_return)
    simp_all

lemma keeps_set_cond: "helpers_keep I K \<Longrightarrow> keeps I (set_cond K x t s r m)"
  unfolding set_cond_eq by (intro keeps_intros)

end

end
