(* ===== verification/CellBuilder.thy ===== *)
theory CellBuilder
  imports Metadata
begin

text \<open>
  \<^verbatim>\<open>internal/resource/cell/builder.go\<close>: the functions that write the desired state of a cell
  into its namespace, service, quota, limit range and network policy, and the interpretation of
  the builder contract on each of them.
\<close>

section \<open>Constants of Kubernetes\<close>

definition ServiceTypeClusterIP :: string where [simp]: "ServiceTypeClusterIP = ''ClusterIP''"
definition ProtocolTCP :: string where [simp]: "ProtocolTCP = ''TCP''"
definition LimitTypeContainer :: string where [simp]: "LimitTypeContainer = ''Container''"
definition PolicyTypeIngress :: string where [simp]: "PolicyTypeIngress = ''Ingress''"

section \<open>Builders\<close>

definition WorkloadSelector :: "Cell \<Rightarrow> (string, string) fmap" where
  "WorkloadSelector cell =
     (case cs_WorkloadSelector (cell_Spec cell) of
        Some sel \<Rightarrow> if sel \<noteq> fmempty then sel else fmap_of_list [(CellNameLabel, cell_Name cell)]
      | None \<Rightarrow> fmap_of_list [(CellNameLabel, cell_Name cell)])"

definition MutateNamespace :: "Namespace \<Rightarrow> Cell \<Rightarrow> Namespace" where
  "MutateNamespace ns cell =
     (let m = ns_Meta ns;
          m = m\<lparr>om_Labels := Merge (om_Labels m)
            (gomap_lit [(ManagedByLabel, OperatorName), (CellNameLabel, cell_Name cell)]) []\<rparr>;
          m = m\<lparr>om_Annotations := Merge (om_Annotations m) (cs_NamespaceAnnotations (cell_Spec cell)) []\<rparr>;
          m = m\<lparr>om_Labels := Merge (om_Labels m) (cs_NamespaceLabels (cell_Spec cell))
            [ManagedByLabel, CellNameLabel]\<rparr> in
      ns\<lparr>ns_Meta := m\<rparr>)"

text \<open>The selector map is emptied, or made, and then filled from the workload selector.\<close>

definition reset_selector :: "gomap \<Rightarrow> (string, string) fmap \<Rightarrow> gomap" where
  "reset_selector selector workload =
     (let cleared = (case selector of None \<Rightarrow> fmempty | Some m \<Rightarrow> fmfilter (\<lambda>k. k |\<notin>| fmdom m) m) in
      Some (cleared ++\<^sub>f workload))"

definition MutateService :: "Service \<Rightarrow> Cell \<Rightarrow> Service" where
  "MutateService svc cell =
     (let entry = cs_Entrypoint (cell_Spec cell); m = svc_Meta svc;
          m = m\<lparr>om_Labels := Merge (om_Labels m)
            (gomap_lit [(ManagedByLabel, OperatorName), (CellNameLabel, cell_Name cell),
              (EntrypointServiceLabel, ep_ServiceName entry)]) []\<rparr>;
          m = m\<lparr>om_Annotations := Merge (om_Annotations m) (cs_ServiceAnnotations (cell_Spec cell)) []\<rparr>;
          m = m\<lparr>om_Labels := Merge (om_Labels m) (cs_ServiceLabels (cell_Spec cell))
            [ManagedByLabel, CellNameLabel, EntrypointServiceLabel]\<rparr>;
          serviceType = (if ep_Type entry = [] then ServiceTypeClusterIP else ep_Type entry);
          protocol = (if ep_Protocol entry = [] then ProtocolTCP else ep_Protocol entry);
          targetPort = (case ep_TargetPort entry of None \<Rightarrow> ep_Port entry | Some p \<Rightarrow> p) in
      svc\<lparr>svc_Meta := m, svc_Selector := reset_selector (svc_Selector svc) (WorkloadSelector cell),
        svc_Type := serviceType,
        svc_Ports := [\<lparr>sp_Name = ''port-'' @ Itoa_int (sint (ep_Port entry)), sp_Port = ep_Port entry,
          sp_TargetPort = targetPort, sp_Protocol = protocol\<rparr>]\<rparr>)"

definition MutateResourceQuota :: "ResourceQuota \<Rightarrow> Cell \<Rightarrow> ResourceQuota" where
  "MutateResourceQuota quota cell =
     (let m = quota_Meta quota;
          m = m\<lparr>om_Labels := Merge (om_Labels m)
            (gomap_lit [(ManagedByLabel, OperatorName), (CellNameLabel, cell_Name cell)]) []\<rparr>;
          quota = quota\<lparr>quota_Meta := m\<rparr> in
      (case Option.bind (cs_Policies (cell_Spec cell)) pol_ResourceQuota of
         None \<Rightarrow> quota\<lparr>quota_Hard := None\<rparr>
       | Some q \<Rightarrow> quota\<lparr>quota_Hard := rq_Hard q\<rparr>))"

definition MutateLimitRange :: "LimitRange \<Rightarrow> Cell \<Rightarrow> LimitRange" where
  "MutateLimitRange limitRange cell =
     (let m = limits_Meta limitRange;
          m = m\<lparr>om_Labels := Merge (om_Labels m)
            (gomap_lit [(ManagedByLabel, OperatorName), (CellNameLabel, cell_Name cell)]) []\<rparr>;
          item = \<lparr>lri_Type = LimitTypeContainer, lri_Default = None, lri_DefaultRequest = None,
            lri_Max = None, lri_Min = None\<rparr>;
          item = (case Option.bind (cs_Policies (cell_Spec cell)) pol_LimitRange of None \<Rightarrow> item
            | Some l \<Rightarrow> item\<lparr>lri_Default := lr_Default l, lri_DefaultRequest := lr_DefaultRequest l,
                lri_Max := lr_Max l, lri_Min := lr_Min l\<rparr>) in
      limitRange\<lparr>limits_Meta := m, limits_Limits := [item]\<rparr>)"

definition MutateNetworkPolicy :: "NetworkPolicy \<Rightarrow> Cell \<Rightarrow> NetworkPolicy" where
  "MutateNetworkPolicy policy cell =
     (let m = netpol_Meta policy;
          m = m\<lparr>om_Labels := Merge (om_Labels m)
            (gomap_lit [(ManagedByLabel, OperatorName), (CellNameLabel, cell_Name cell)]) []\<rparr>;
          peers = [\<lparr>peer_PodSelector = Some \<lparr>ls_MatchLabels = None\<rparr>, peer_NamespaceSelector = None\<rparr>];
          peers = (case Option.bind (cs_Policies (cell_Spec cell)) pol_NetworkPolicy of None \<Rightarrow> peers
            | Some n \<Rightarrow> if gomap_empty (np_AllowedNamespaceLabels n) then peers
                else peers @ [\<lparr>peer_PodSelector = None,
                  peer_NamespaceSelector = Some \<lparr>ls_MatchLabels = np_AllowedNamespaceLabels n\<rparr>\<rparr>]) in
      policy\<lparr>netpol_Meta := m, netpol_PodSelector := \<lparr>ls_MatchLabels = Some (WorkloadSelector cell)\<rparr>,
        netpol_PolicyTypes := [PolicyTypeIngress], netpol_Ingress := [\<lparr>ir_From = peers\<rparr>]\<rparr>)"

section \<open>The builder contract\<close>

definition cell_labels :: "Cell \<Rightarrow> (string \<times> string) list" where
  "cell_labels cell = [(ManagedByLabel, OperatorName), (CellNameLabel, cell_Name cell)]"

definition service_labels :: "Cell \<Rightarrow> (string \<times> string) list" where
  "service_labels cell =
     cell_labels cell @ [(EntrypointServiceLabel, ep_ServiceName (cs_Entrypoint (cell_Spec cell)))]"

lemma reset_selector [simp]: "reset_selector selector workload = Some workload"
proof -
  have "fmfilter (\<lambda>k. k |\<notin>| fmdom m) m = fmempty" for m :: "(string, string) fmap"
    by (rule fmap_ext) (simp add: fmlookup_dom_iff)
  then show ?thesis by (simp add: reset_selector_def Let_def split: option.splits)
qed

lemmas builder_simps = Merge_lookup Merge_twice Merge_owned_twice Let_def cell_labels_def service_labels_def

interpretation namespace_builder: resource_builder
  "\<lambda>ns. MutateNamespace ns cell" ns_Meta "cell_labels cell" for cell
  by unfold_locales (auto simp: MutateNamespace_def builder_simps)

interpretation service_builder: resource_builder
  "\<lambda>svc. MutateService svc cell" svc_Meta "service_labels cell" for cell
  by unfold_locales (auto simp: MutateService_def builder_simps)

interpretation quota_builder: resource_builder
  "\<lambda>quota. MutateResourceQuota quota cell" quota_Meta "cell_labels cell" for cell
  by unfold_locales (auto simp: MutateResourceQuota_def builder_simps split: option.splits)

interpretation limits_builder: resource_builder
  "\<lambda>limitRange. MutateLimitRange limitRange cell" limits_Meta "cell_labels cell" for cell
  by unfold_locales (auto simp: MutateLimitRange_def builder_simps split: option.splits)

interpretation netpol_builder: resource_builder
  "\<lambda>policy. MutateNetworkPolicy policy cell" netpol_Meta "cell_labels cell" for cell
  by unfold_locales (auto simp: MutateNetworkPolicy_def builder_simps split: option.splits)

section \<open>Properties\<close>

text \<open>
  Whatever service object the cluster holds, the built service selects exactly the
  workload selector of the cell, exposes exactly one port, carries the ownership labels even
  when the user's labels name the same keys, and keeps the identity of the object.
\<close>

theorem service_built:
  "svc_Selector (MutateService svc cell) = Some (WorkloadSelector cell) \<and>
   map sp_Port (svc_Ports (MutateService svc cell)) = [ep_Port (cs_Entrypoint (cell_Spec cell))] \<and>
   map sp_TargetPort (svc_Ports (MutateService svc cell)) =
     [case ep_TargetPort (cs_Entrypoint (cell_Spec cell)) of
        None \<Rightarrow> ep_Port (cs_Entrypoint (cell_Spec cell)) | Some p \<Rightarrow> p] \<and>
   list_all (\<lambda>(k, v). gomap_lookup (om_Labels (svc_Meta (MutateService svc cell))) k = Some v)
     [(ManagedByLabel, OperatorName), (CellNameLabel, cell_Name cell),
      (EntrypointServiceLabel, ep_ServiceName (cs_Entrypoint (cell_Spec cell)))] \<and>
   om_Name (svc_Meta (MutateService svc cell)) = om_Name (svc_Meta svc) \<and>
   om_OwnerReferences (svc_Meta (MutateService svc cell)) = om_OwnerReferences (svc_Meta svc)"
  using service_builder.selected_by_owned [of "service_labels cell" cell svc]
    service_builder.mutate_identity [of svc cell]
  by (simp add: service_labels_def cell_labels_def) (simp add: MutateService_def Let_def)

text \<open>
  The network policy of a cell applies to exactly the pods its service selects, and it
  admits traffic from the namespace itself and, when allowed namespace labels are given, from
  the namespaces carrying them.
\<close>

theorem network_policy_guards_service:
  "ls_MatchLabels (netpol_PodSelector (MutateNetworkPolicy policy cell)) = svc_Selector (MutateService svc cell) \<and>
   netpol_Ingress (MutateNetworkPolicy policy cell) = [\<lparr>ir_From =
     \<lparr>peer_PodSelector = Some \<lparr>ls_MatchLabels = None\<rparr>, peer_NamespaceSelector = None\<rparr> #
     (case Option.bind (cs_Policies (cell_Spec cell)) pol_NetworkPolicy of None \<Rightarrow> []
      | Some n \<Rightarrow> if \<exists>k. gomap_lookup (np_AllowedNamespaceLabels n) k \<noteq> None
          then [\<lparr>peer_PodSelector = None,
            peer_NamespaceSelector = Some \<lparr>ls_MatchLabels = np_AllowedNamespaceLabels n\<rparr>\<rparr>] else [])\<rparr>]"
  by (auto simp: MutateNetworkPolicy_def MutateService_def Let_def gomap_empty_iff split: option.splits)

text \<open>
  The cell builders converge at once: however often they are applied to their own result,
  with the same cell, the objects are those of the first application.
\<close>

theorem cell_builders_converge:
  "((\<lambda>ns. MutateNamespace ns cell) ^^ Suc n) ns = MutateNamespace ns cell \<and>
   ((\<lambda>svc. MutateService svc cell) ^^ Suc n) svc = MutateService svc cell \<and>
   ((\<lambda>quota. MutateResourceQuota quota cell) ^^ Suc n) quota = MutateResourceQuota quota cell \<and>
   ((\<lambda>limits. MutateLimitRange limits cell) ^^ Suc n) limits = MutateLimitRange limits cell \<and>
   ((\<lambda>policy. MutateNetworkPolicy policy cell) ^^ Suc n) policy = MutateNetworkPolicy policy cell"
  by (intro conjI namespace_builder.repeated_mutate service_builder.repeated_mutate
      quota_builder.repeated_mutate limits_builder.repeated_mutate netpol_builder.repeated_mutate)

end
