(* ===== verification/CellController.thy ===== *)
theory CellController
  imports Cluster Conditions CellBuilder
begin

text \<open>
  \<^verbatim>\<open>internal/controller/cell_controller.go\<close>: the reconciler of cells. A method of
  \<^verbatim>\<open>CellReconciler\<close> is a computation over the world of the record \<open>kube\<close>, which holds the
  fields of the reconciler; the cell that the Go code mutates through a pointer is passed and
  returned. Logging is left out. The error value of a method is an \<open>error option\<close>, or the left
  side of a sum when the method also returns a value.
\<close>

section \<open>Defaults\<close>

definition cellBackendRequeueDelay :: int where
  "cellBackendRequeueDelay = 5 * 10 ^ 9"

definition effectiveNamespace :: "Cell \<Rightarrow> string" where
  "effectiveNamespace cell =
     (if cs_Namespace (cell_Spec cell) \<noteq> [] then cs_Namespace (cell_Spec cell) else cell_Name cell)"

definition effectiveCellState :: "Cell \<Rightarrow> CellState" where
  "effectiveCellState cell =
     (if cs_State (cell_Spec cell) = [] then CellStateActive else cs_State (cell_Spec cell))"

text \<open>\<^verbatim>\<open>metav1.Time.IsZero\<close> on a pointer; 0 is Go's zero time.\<close>

definition Time_IsZero :: "time option \<Rightarrow> bool" where
  "Time_IsZero t = (case t of None \<Rightarrow> True | Some s \<Rightarrow> s = 0)"

section \<open>Status\<close>

definition setCellCondition ::
    "'w kube \<Rightarrow> Cell \<Rightarrow> string \<Rightarrow> string \<Rightarrow> string \<Rightarrow> string \<Rightarrow> ('w, Cell) state" where
  "setCellCondition K cell condType status reason message =
     do {
       conds \<leftarrow> k_SetStatusCondition K (cst_Conditions (cell_Status cell))
         \<lparr>c_Type = condType, c_Status = status, c_ObservedGeneration = om_Generation (cell_Meta cell),
          c_LastTransitionTime = 0, c_Reason = reason, c_Message = message\<rparr>;
       ret (cell\<lparr>cell_Status := (cell_Status cell)\<lparr>cst_Conditions := conds\<rparr>\<rparr>)
     }"

definition Cell_patchStatus :: "'w kube \<Rightarrow> Cell \<Rightarrow> Cell \<Rightarrow> ('w, error option) state" where
  "Cell_patchStatus K cell base = rc_StatusPatch (k_cells K) cell base"

text \<open>The four error branches of \<^verbatim>\<open>reconcileNormal\<close> differ in a condition and a message.\<close>

definition cell_failed :: "'w kube \<Rightarrow> Cell \<Rightarrow> Cell \<Rightarrow> string \<Rightarrow> string \<Rightarrow> error \<Rightarrow> ('w, reconcile_result) state" where
  "cell_failed K cell statusBase condType message err =
     do {
       cell \<leftarrow> setCellCondition K cell condType ConditionFalse ConditionReasonError (Error err);
       cell \<leftarrow> setCellCondition K cell CellReadyCondition ConditionFalse ConditionReasonError message;
       _ \<leftarrow> Cell_patchStatus K cell statusBase;
       ret (NoRequeue, Some err)
     }"

section \<open>Resources\<close>

text \<open>\<^verbatim>\<open>controllerutil.SetControllerReference\<close> on an object with a metadata field.\<close>

definition controlled :: "'w kube \<Rightarrow> string \<Rightarrow> ObjectMeta \<Rightarrow> ('o \<Rightarrow> ObjectMeta) \<Rightarrow> (ObjectMeta \<Rightarrow> 'o \<Rightarrow> 'o) \<Rightarrow>
    'o \<Rightarrow> error + 'o" where
  "controlled K kind owner get put obj =
     (case k_SetControllerReference K kind owner (get obj) of Inl err \<Rightarrow> Inl err
      | Inr m \<Rightarrow> Inr (put m obj))"

definition reconcileNamespace :: "'w kube \<Rightarrow> Cell \<Rightarrow> string \<Rightarrow> ('w, error option) state" where
  "reconcileNamespace K cell name =
     do {
       r \<leftarrow> rc_CreateOrUpdate (k_namespaces K) \<lparr>ns_Meta = NewMeta name []\<rparr>
         (\<lambda>ns. Inr (MutateNamespace ns cell));
       (case r of Inl err \<Rightarrow> ret (Some err)
        | Inr _ \<Rightarrow> do {
            _ \<leftarrow> eventf K (cell_Name cell) ''NamespaceReconciled'' (''Reconciled namespace '' @ name);
            ret None })
     }"

definition reconcileService :: "'w kube \<Rightarrow> Cell \<Rightarrow> string \<Rightarrow> ('w, error + string) state" where
  "reconcileService K cell namespace =
     do {
       r \<leftarrow> rc_CreateOrUpdate (k_services K)
         \<lparr>svc_Meta = NewMeta (ep_ServiceName (cs_Entrypoint (cell_Spec cell))) namespace,
          svc_Selector = None, svc_Type = [], svc_Ports = []\<rparr>
         (\<lambda>svc. controlled K ''Cell'' (cell_Meta cell) svc_Meta (\<lambda>m s. s\<lparr>svc_Meta := m\<rparr>)
           (MutateService svc cell));
       (case r of Inl err \<Rightarrow> ret (Inl err)
        | Inr service \<Rightarrow> do {
            _ \<leftarrow> eventf K (cell_Name cell) ''ServiceReconciled''
              (''Reconciled service '' @ namespace @ ''/'' @ om_Name (svc_Meta service));
            ret (Inr (namespace @ ''/'' @ om_Name (svc_Meta service))) })
     }"

definition deleteManagedResourceQuota :: "'w kube \<Rightarrow> Cell \<Rightarrow> string \<Rightarrow> ('w, error option) state" where
  "deleteManagedResourceQuota K cell namespace =
     do {
       r \<leftarrow> rc_Get (k_quotas K) namespace CellResourceQuotaName;
       (case r of Inl err \<Rightarrow> ret (if IsNotFound err then None else Some err)
        | Inr quota \<Rightarrow>
            if \<not> k_IsControlledBy K (quota_Meta quota) (cell_Meta cell) then ret None
            else do { err \<leftarrow> rc_Delete (k_quotas K) quota; ret (IgnoreNotFound err) })
     }"

definition deleteManagedLimitRange :: "'w kube \<Rightarrow> Cell \<Rightarrow> string \<Rightarrow> ('w, error option) state" where
  "deleteManagedLimitRange K cell namespace =
     do {
       r \<leftarrow> rc_Get (k_limits K) namespace CellLimitRangeName;
       (case r of Inl err \<Rightarrow> ret (if IsNotFound err then None else Some err)
        | Inr limitRange \<Rightarrow>
            if \<not> k_IsControlledBy K (limits_Meta limitRange) (cell_Meta cell) then ret None
            else do { err \<leftarrow> rc_Delete (k_limits K) limitRange; ret (IgnoreNotFound err) })
     }"

definition deleteManagedNetworkPolicy :: "'w kube \<Rightarrow> Cell \<Rightarrow> string \<Rightarrow> ('w, error option) state" where
  "deleteManagedNetworkPolicy K cell namespace =
     do {
       r \<leftarrow> rc_Get (k_netpols K) namespace CellNetworkPolicyName;
       (case r of Inl err \<Rightarrow> ret (if IsNotFound err then None else Some err)
        | Inr policy \<Rightarrow>
            if \<not> k_IsControlledBy K (netpol_Meta policy) (cell_Meta cell) then ret None
            else do { err \<leftarrow> rc_Delete (k_netpols K) policy; ret (IgnoreNotFound err) })
     }"

definition to_error :: "error + 'a \<Rightarrow> error option" where
  "to_error r = (case r of Inl err \<Rightarrow> Some err | Inr _ \<Rightarrow> None)"

definition reconcileResourceQuota :: "'w kube \<Rightarrow> Cell \<Rightarrow> string \<Rightarrow> ('w, error option) state" where
  "reconcileResourceQuota K cell namespace =
     (case Option.bind (cs_Policies (cell_Spec cell)) pol_ResourceQuota of
        None \<Rightarrow> deleteManagedResourceQuota K cell namespace
      | Some _ \<Rightarrow> do {
          r \<leftarrow> rc_CreateOrUpdate (k_quotas K)
            \<lparr>quota_Meta = NewMeta CellResourceQuotaName namespace, quota_Hard = None\<rparr>
            (\<lambda>q. controlled K ''Cell'' (cell_Meta cell) quota_Meta (\<lambda>m s. s\<lparr>quota_Meta := m\<rparr>)
              (MutateResourceQuota q cell));
          ret (to_error r) })"

definition reconcileLimitRange :: "'w kube \<Rightarrow> Cell \<Rightarrow> string \<Rightarrow> ('w, error option) state" where
  "reconcileLimitRange K cell namespace =
     (case Option.bind (cs_Policies (cell_Spec cell)) pol_LimitRange of
        None \<Rightarrow> deleteManagedLimitRange K cell namespace
      | Some _ \<Rightarrow> do {
          r \<leftarrow> rc_CreateOrUpdate (k_limits K)
            \<lparr>limits_Meta = NewMeta CellLimitRangeName namespace, limits_Limits = []\<rparr>
            (\<lambda>l. controlled K ''Cell'' (cell_Meta cell) limits_Meta (\<lambda>m s. s\<lparr>limits_Meta := m\<rparr>)
              (MutateLimitRange l cell));
          ret (to_error r) })"

definition network_policy_enabled :: "Cell \<Rightarrow> bool" where
  "network_policy_enabled cell =
     (case Option.bind (cs_Policies (cell_Spec cell)) pol_NetworkPolicy of
        None \<Rightarrow> False | Some n \<Rightarrow> np_Enabled n)"

definition reconcileNetworkPolicy :: "'w kube \<Rightarrow> Cell \<Rightarrow> string \<Rightarrow> ('w, error option) state" where
  "reconcileNetworkPolicy K cell namespace =
     (if \<not> network_policy_enabled cell then deleteManagedNetworkPolicy K cell namespace
      else do {
        r \<leftarrow> rc_CreateOrUpdate (k_netpols K)
          \<lparr>netpol_Meta = NewMeta CellNetworkPolicyName namespace, netpol_PodSelector = \<lparr>ls_MatchLabels = None\<rparr>,
           netpol_PolicyTypes = [], netpol_Ingress = []\<rparr>
          (\<lambda>p. controlled K ''Cell'' (cell_Meta cell) netpol_Meta (\<lambda>m s. s\<lparr>netpol_Meta := m\<rparr>)
            (MutateNetworkPolicy p cell));
        ret (to_error r) })"

definition reconcilePolicies :: "'w kube \<Rightarrow> Cell \<Rightarrow> string \<Rightarrow> ('w, error option) state" where
  "reconcilePolicies K cell namespace =
     do {
       r \<leftarrow> reconcileResourceQuota K cell namespace;
       (case r of Some err \<Rightarrow> ret (Some err)
        | None \<Rightarrow> do {
            r \<leftarrow> reconcileLimitRange K cell namespace;
            (case r of Some err \<Rightarrow> ret (Some err)
             | None \<Rightarrow> reconcileNetworkPolicy K cell namespace) })
     }"

section \<open>Endpoints\<close>

definition LabelServiceName :: string where [simp]: "LabelServiceName = ''kubernetes.io/service-name''"

fun count_endpoints :: "Endpoint list \<Rightarrow> int32 \<Rightarrow> int32" where
  "count_endpoints [] acc = acc"
| "count_endpoints (endpoint # endpoints) acc =
     (if e_Ready endpoint = Some False then count_endpoints endpoints acc
      else count_endpoints endpoints (acc + of_nat (length (e_Addresses endpoint))))"

fun count_slices :: "EndpointSlice list \<Rightarrow> int32 \<Rightarrow> int32" where
  "count_slices [] acc = acc"
| "count_slices (s # slices) acc = count_slices slices (count_endpoints (slice_Endpoints s) acc)"

definition countReadyEndpoints :: "'w kube \<Rightarrow> string \<Rightarrow> string \<Rightarrow> ('w, error + int32) state" where
  "countReadyEndpoints K namespace serviceName =
     do {
       r \<leftarrow> rc_List (k_slices K) (Some namespace) [(LabelServiceName, serviceName)];
       (case r of Inl err \<Rightarrow> ret (Inl err) | Inr slices \<Rightarrow> ret (Inr (count_slices slices 0)))
     }"

section \<open>Deletion\<close>

definition deleteEntrypointService :: "'w kube \<Rightarrow> Cell \<Rightarrow> string \<Rightarrow> ('w, error option) state" where
  "deleteEntrypointService K cell namespace =
     (if namespace = [] then ret None
      else do {
        r \<leftarrow> rc_Get (k_services K) namespace (ep_ServiceName (cs_Entrypoint (cell_Spec cell)));
        (case r of Inl err \<Rightarrow> ret (if IsNotFound err then None else Some err)
         | Inr service \<Rightarrow>
             if \<not> k_IsControlledBy K (svc_Meta service) (cell_Meta cell) then ret None
             else do { err \<leftarrow> rc_Delete (k_services K) service; ret (IgnoreNotFound err) }) })"

definition deleteNamespaceIfManaged :: "'w kube \<Rightarrow> Cell \<Rightarrow> string \<Rightarrow> ('w, error option) state" where
  "deleteNamespaceIfManaged K cell namespace =
     (if namespace = [] then ret None
      else do {
        r \<leftarrow> rc_Get (k_namespaces K) [] namespace;
        (case r of Inl err \<Rightarrow> ret (if IsNotFound err then None else Some err)
         | Inr ns \<Rightarrow>
             if gomap_index (om_Labels (ns_Meta ns)) ManagedByLabel \<noteq> OperatorName \<or>
                gomap_index (om_Labels (ns_Meta ns)) CellNameLabel \<noteq> cell_Name cell then ret None
             else do { err \<leftarrow> rc_Delete (k_namespaces K) ns; ret (IgnoreNotFound err) }) })"

definition Cell_removeFinalizer :: "'w kube \<Rightarrow> Cell \<Rightarrow> ('w, reconcile_result) state" where
  "Cell_removeFinalizer K cell =
     (if k_ContainsFinalizer K (cell_Meta cell) FinalizerCell then
        do {
          r \<leftarrow> rc_Patch (k_cells K)
            (cell\<lparr>cell_Meta := k_RemoveFinalizer K (cell_Meta cell) FinalizerCell\<rparr>) cell;
          (case r of Inl err \<Rightarrow> ret (NoRequeue, Some err) | Inr _ \<Rightarrow> ret (NoRequeue, None))
        }
      else ret (NoRequeue, None))"

definition Cell_reconcileDeletion :: "'w kube \<Rightarrow> Cell \<Rightarrow> ('w, reconcile_result) state" where
  "Cell_reconcileDeletion K cell =
     do {
       r \<leftarrow> deleteEntrypointService K cell (effectiveNamespace cell);
       (case r of Some err \<Rightarrow> ret (NoRequeue, Some err)
        | None \<Rightarrow> do {
            r \<leftarrow> (if cs_TearDownOnDelete (cell_Spec cell)
                  then deleteNamespaceIfManaged K cell (effectiveNamespace cell) else ret None);
            (case r of Some err \<Rightarrow> ret (NoRequeue, Some err)
             | None \<Rightarrow> Cell_removeFinalizer K cell) })
     }"

section \<open>Reconciliation\<close>

text \<open>The result is the cell after the patch, which the server's answer overwrites.\<close>

definition Cell_ensureFinalizer :: "'w kube \<Rightarrow> Cell \<Rightarrow> ('w, error + Cell) state" where
  "Cell_ensureFinalizer K cell =
     (if k_ContainsFinalizer K (cell_Meta cell) FinalizerCell then ret (Inr cell)
      else rc_Patch (k_cells K) (cell\<lparr>cell_Meta := k_AddFinalizer K (cell_Meta cell) FinalizerCell\<rparr>) cell)"

text \<open>The switch over the operational state: the cell with its last two conditions and whether to requeue.\<close>

definition backend_conditions :: "'w kube \<Rightarrow> Cell \<Rightarrow> CellState \<Rightarrow> int32 \<Rightarrow> ('w, Cell \<times> bool) state" where
  "backend_conditions K cell operationalState availableEndpoints =
     (if operationalState = CellStateDisabled then
        do {
          cell \<leftarrow> setCellCondition K cell CellBackendReadyCondition ConditionFalse
            ConditionReasonLifecycleBlocked ''cell is disabled'';
          cell \<leftarrow> setCellCondition K cell CellReadyCondition ConditionFalse
            ConditionReasonLifecycleBlocked ''cell is disabled'';
          ret (cell, False)
        }
      else if operationalState = CellStateDraining then
        do {
          (cell, needsBackendRequeue) \<leftarrow>
            (if 0 < sint availableEndpoints then
               do {
                 cell \<leftarrow> setCellCondition K cell CellBackendReadyCondition ConditionTrue
                   ConditionReasonReconciled ''backend remains available while draining'';
                 ret (cell, False)
               }
             else
               do {
                 cell \<leftarrow> setCellCondition K cell CellBackendReadyCondition ConditionFalse
                   ConditionReasonWaitingForBackend ''waiting for ready backend endpoints'';
                 ret (cell, True)
               });
          cell \<leftarrow> setCellCondition K cell CellReadyCondition ConditionFalse
            ConditionReasonLifecycleBlocked ''cell is draining and withheld from new traffic'';
          ret (cell, needsBackendRequeue)
        }
      else if availableEndpoints = 0 then
        do {
          cell \<leftarrow> setCellCondition K cell CellBackendReadyCondition ConditionFalse
            ConditionReasonWaitingForBackend ''waiting for ready backend endpoints'';
          cell \<leftarrow> setCellCondition K cell CellReadyCondition ConditionFalse
            ConditionReasonWaitingForBackend ''cell is waiting for ready backend endpoints'';
          ret (cell, True)
        }
      else
        do {
          cell \<leftarrow> setCellCondition K cell CellBackendReadyCondition ConditionTrue
            ConditionReasonReconciled ''backend endpoints are ready'';
          cell \<leftarrow> setCellCondition K cell CellReadyCondition ConditionTrue
            ConditionReasonReconciled ''cell is ready'';
          ret (cell, False)
        })"

text \<open>The part of \<^verbatim>\<open>reconcileNormal\<close> after the endpoints are counted.\<close>

definition publish_status ::
    "'w kube \<Rightarrow> Cell \<Rightarrow> Cell \<Rightarrow> string \<Rightarrow> string \<Rightarrow> CellState \<Rightarrow> int32 \<Rightarrow> ('w, reconcile_result) state" where
  "publish_status K cell statusBase namespaceName serviceFullName operationalState availableEndpoints =
     do {
       (cell, needsBackendRequeue) \<leftarrow> backend_conditions K
         (cell\<lparr>cell_Status := (cell_Status cell)\<lparr>cst_Namespace := namespaceName,
           cst_EntrypointService := serviceFullName, cst_ObservedGeneration := om_Generation (cell_Meta cell),
           cst_OperationalState := operationalState, cst_AvailableEndpoints := availableEndpoints\<rparr>\<rparr>)
         operationalState availableEndpoints;
       r \<leftarrow> Cell_patchStatus K cell statusBase;
       (case r of Some err \<Rightarrow> ret (NoRequeue, Some err)
        | None \<Rightarrow> if needsBackendRequeue then ret (\<lparr>res_RequeueAfter = cellBackendRequeueDelay\<rparr>, None)
            else ret (NoRequeue, None))
     }"

definition Cell_reconcileNormal :: "'w kube \<Rightarrow> Cell \<Rightarrow> ('w, reconcile_result) state" where
  "Cell_reconcileNormal K cell =
     (let statusBase = cell; namespaceName = effectiveNamespace cell;
          operationalState = effectiveCellState cell in
      do {
        r \<leftarrow> reconcileNamespace K cell namespaceName;
        (case r of Some err \<Rightarrow>
           cell_failed K cell statusBase CellNamespaceReadyCondition ''namespace reconciliation failed'' err
         | None \<Rightarrow> do {
        cell \<leftarrow> setCellCondition K cell CellNamespaceReadyCondition ConditionTrue
          ConditionReasonReconciled ''namespace reconciled'';
        r \<leftarrow> reconcileService K cell namespaceName;
        (case r of Inl err \<Rightarrow>
           cell_failed K cell statusBase CellServiceReadyCondition ''service reconciliation failed'' err
         | Inr serviceFullName \<Rightarrow> do {
        cell \<leftarrow> setCellCondition K cell CellServiceReadyCondition ConditionTrue
          ConditionReasonReconciled ''service reconciled'';
        r \<leftarrow> reconcilePolicies K cell namespaceName;
        (case r of Some err \<Rightarrow>
           cell_failed K cell statusBase CellPoliciesReadyCondition ''policy reconciliation failed'' err
         | None \<Rightarrow> do {
        cell \<leftarrow> setCellCondition K cell CellPoliciesReadyCondition ConditionTrue
          ConditionReasonReconciled ''policies reconciled'';
        r \<leftarrow> countReadyEndpoints K namespaceName (ep_ServiceName (cs_Entrypoint (cell_Spec cell)));
        (case r of Inl err \<Rightarrow>
           cell_failed K cell statusBase CellBackendReadyCondition ''backend discovery failed'' err
         | Inr availableEndpoints \<Rightarrow>
           publish_status K cell statusBase namespaceName serviceFullName operationalState availableEndpoints)
        }) }) }) })"

definition Cell_Reconcile :: "'w kube \<Rightarrow> string \<times> string \<Rightarrow> ('w, reconcile_result) state" where
  "Cell_Reconcile K req =
     do {
       r \<leftarrow> rc_Get (k_cells K) (fst req) (snd req);
       (case r of Inl err \<Rightarrow> ret (NoRequeue, if IsNotFound err then None else Some err)
        | Inr cell \<Rightarrow>
            if \<not> Time_IsZero (om_DeletionTimestamp (cell_Meta cell)) then Cell_reconcileDeletion K cell
            else do {
              r \<leftarrow> Cell_ensureFinalizer K cell;
              (case r of Inl err \<Rightarrow> ret (NoRequeue, Some err)
               | Inr cell \<Rightarrow> Cell_reconcileNormal K cell) })
     }"

text \<open>The map function of the watch on endpoint slices; \<open>None\<close> is an object of another type.\<close>

definition requestsForEndpointSlice ::
    "'w kube \<Rightarrow> EndpointSlice option \<Rightarrow> ('w, (string \<times> string) list) state" where
  "requestsForEndpointSlice K obj =
     (case obj of None \<Rightarrow> ret []
      | Some eslice \<Rightarrow>
          let serviceName = gomap_index (om_Labels (slice_Meta eslice)) LabelServiceName in
          if serviceName = [] then ret []
          else do {
            r \<leftarrow> rc_List (k_cells K) None [];
            (case r of Inl err \<Rightarrow> ret []
             | Inr cells \<Rightarrow> ret (map (\<lambda>cell. ([], cell_Name cell))
                 (filter (\<lambda>cell. effectiveNamespace cell = om_Namespace (slice_Meta eslice) \<and>
                    ep_ServiceName (cs_Entrypoint (cell_Spec cell)) = serviceName) cells))) })"

section \<open>What deletion and reconciliation may delete\<close>

lemmas cell_deletes =
  deleteEntrypointService_def deleteNamespaceIfManaged_def deleteManagedResourceQuota_def
  deleteManagedLimitRange_def deleteManagedNetworkPolicy_def

definition cell_owns_namespace :: "Cell \<Rightarrow> Namespace \<Rightarrow> bool" where
  "cell_owns_namespace cell ns \<longleftrightarrow>
     gomap_lookup (om_Labels (ns_Meta ns)) ManagedByLabel = Some OperatorName \<and>
     gomap_index (om_Labels (ns_Meta ns)) CellNameLabel = cell_Name cell"

lemma keeps_removeFinalizer [keeps_intros]:
  "patches_keep I (k_cells K) \<Longrightarrow> keeps I (Cell_removeFinalizer K cell)"
  unfolding Cell_removeFinalizer_def by (intro keeps_intros)

lemma keeps_deleteEntrypointService:
  assumes "stores (k_services K) svc_Meta x I" "\<not> k_IsControlledBy K (svc_Meta x) (cell_Meta cell)"
  shows "keeps I (deleteEntrypointService K cell ns)"
  unfolding deleteEntrypointService_def
  by (intro keeps_if keeps_return keeps_guarded_delete [OF assms(1), where allowed =
        "\<lambda>s. k_IsControlledBy K (svc_Meta s) (cell_Meta cell)"] assms(2))

lemma owns_namespace_guard:
  "(gomap_index (om_Labels (ns_Meta y)) ManagedByLabel \<noteq> OperatorName \<or>
    gomap_index (om_Labels (ns_Meta y)) CellNameLabel \<noteq> cell_Name cell) = (\<not> cell_owns_namespace cell y)"
  by (auto simp: cell_owns_namespace_def gomap_index_def split: option.splits)

lemma keeps_deleteNamespaceIfManaged:
  assumes "stores (k_namespaces K) ns_Meta x I" "\<not> cell_owns_namespace cell x"
  shows "keeps I (deleteNamespaceIfManaged K cell ns)"
  unfolding deleteNamespaceIfManaged_def owns_namespace_guard
  by (intro keeps_if keeps_return keeps_guarded_delete [where allowed = "cell_owns_namespace cell", OF assms])

lemma keeps_deleteManagedResourceQuota [keeps_intros]:
  assumes "reads_keep I (k_quotas K)"
    and "deletes_keep I (k_quotas K) (\<lambda>q. k_IsControlledBy K (quota_Meta q) (cell_Meta cell))"
  shows "keeps I (deleteManagedResourceQuota K cell ns)"
  unfolding deleteManagedResourceQuota_def using assms(1)
  by (intro keeps_intros keeps_delete [OF assms(2)]) simp_all

lemma keeps_deleteManagedLimitRange [keeps_intros]:
  assumes "reads_keep I (k_limits K)"
    and "deletes_keep I (k_limits K) (\<lambda>l. k_IsControlledBy K (limits_Meta l) (cell_Meta cell))"
  shows "keeps I (deleteManagedLimitRange K cell ns)"
  unfolding deleteManagedLimitRange_def using assms(1)
  by (intro keeps_intros keeps_delete [OF assms(2)]) simp_all

lemma keeps_deleteManagedNetworkPolicy [keeps_intros]:
  assumes "reads_keep I (k_netpols K)"
    and "deletes_keep I (k_netpols K) (\<lambda>p. k_IsControlledBy K (netpol_Meta p) (cell_Meta cell))"
  shows "keeps I (deleteManagedNetworkPolicy K cell ns)"
  unfolding deleteManagedNetworkPolicy_def using assms(1)
  by (intro keeps_intros keeps_delete [OF assms(2)]) simp_all

text \<open>
  The packages keep an invariant when a cell is reconciled: after the service is written, by
  reads, writes of policies and the deletion of policies the cell controls; before, by writes
  of namespaces and services.
\<close>

definition policy_packages_keep :: "('w \<Rightarrow> bool) \<Rightarrow> 'w kube \<Rightarrow> Cell \<Rightarrow> bool" where
  "policy_packages_keep I K cell \<longleftrightarrow>
     helpers_keep I K \<and> applies_keep I (k_quotas K) \<and> applies_keep I (k_limits K) \<and> applies_keep I (k_netpols K) \<and>
     reads_keep I (k_quotas K) \<and> reads_keep I (k_limits K) \<and> reads_keep I (k_netpols K) \<and>
     reads_keep I (k_slices K) \<and>
     deletes_keep I (k_quotas K) (\<lambda>q. k_IsControlledBy K (quota_Meta q) (cell_Meta cell)) \<and>
     deletes_keep I (k_limits K) (\<lambda>l. k_IsControlledBy K (limits_Meta l) (cell_Meta cell)) \<and>
     deletes_keep I (k_netpols K) (\<lambda>p. k_IsControlledBy K (netpol_Meta p) (cell_Meta cell))"

definition cell_packages_keep :: "('w \<Rightarrow> bool) \<Rightarrow> 'w kube \<Rightarrow> Cell \<Rightarrow> bool" where
  "cell_packages_keep I K cell \<longleftrightarrow>
     policy_packages_keep I K cell \<and> applies_keep I (k_namespaces K) \<and> applies_keep I (k_services K)"

lemma policy_packages_helpers: "policy_packages_keep I K cell \<Longrightarrow> helpers_keep I K"
  by (simp add: policy_packages_keep_def)

lemma cell_packages_parts:
  assumes "cell_packages_keep I K cell"
  shows "policy_packages_keep I K cell" "helpers_keep I K"
  using assms by (auto simp: cell_packages_keep_def intro: policy_packages_helpers)

lemma keeps_reconcileNamespace [keeps_intros]:
  assumes "helpers_keep I K" "applies_keep I (k_namespaces K)"
  shows "keeps I (reconcileNamespace K cell ns)"
  unfolding reconcileNamespace_def using assms by (intro keeps_intros)

lemma keeps_reconcileService [keeps_intros]:
  assumes "helpers_keep I K" "applies_keep I (k_services K)"
  shows "keeps I (reconcileService K cell ns)"
  unfolding reconcileService_def using assms by (intro keeps_intros)

lemma keeps_reconcilePolicies [keeps_intros]:
  "policy_packages_keep I K cell \<Longrightarrow> keeps I (reconcilePolicies K cell ns)"
  unfolding reconcilePolicies_def reconcileResourceQuota_def reconcileLimitRange_def
    reconcileNetworkPolicy_def policy_packages_keep_def
  by (intro keeps_intros) auto

lemma keeps_countReadyEndpoints [keeps_intros]:
  "policy_packages_keep I K cell \<Longrightarrow> keeps I (countReadyEndpoints K ns svc)"
  unfolding countReadyEndpoints_def policy_packages_keep_def by (intro keeps_intros) auto

section \<open>The published status\<close>

lemma packages_status [simp]:
  "policy_packages_keep I K (cell\<lparr>cell_Status := st\<rparr>) = policy_packages_keep I K cell"
  by (simp add: policy_packages_keep_def)

abbreviation cell_conds :: "Cell \<Rightarrow> Condition list" where
  "cell_conds cell \<equiv> cst_Conditions (cell_Status cell)"

abbreviation put_cell_conds :: "Condition list \<Rightarrow> Cell \<Rightarrow> Cell" where
  "put_cell_conds cs cell \<equiv> cell\<lparr>cell_Status := (cell_Status cell)\<lparr>cst_Conditions := cs\<rparr>\<rparr>"

interpretation cell_conditions: status_conditions cell_conds put_cell_conds
  "\<lambda>cell. om_Generation (cell_Meta cell)" setCellCondition
  by unfold_locales (simp_all add: setCellCondition_def)

abbreviation cell_at :: "'w kube \<Rightarrow> Cell \<Rightarrow> (string \<rightharpoonup> string) \<Rightarrow> Cell \<Rightarrow> bool" where
  "cell_at K \<equiv> conditions_at K cell_conds put_cell_conds"

text \<open>What the last two conditions say, from the operational state and the endpoint count.\<close>

definition backend_up :: "CellState \<Rightarrow> int32 \<Rightarrow> bool" where
  "backend_up state n \<longleftrightarrow>
     state \<noteq> CellStateDisabled \<and> (if state = CellStateDraining then 0 < sint n else n \<noteq> 0)"

definition serving :: "CellState \<Rightarrow> int32 \<Rightarrow> bool" where
  "serving state n \<longleftrightarrow> state \<noteq> CellStateDisabled \<and> state \<noteq> CellStateDraining \<and> n \<noteq> 0"

text \<open>The branches of the switch.\<close>

lemma backend_cases:
  fixes n :: int32
  obtains (disabled) "state = CellStateDisabled" | (up) "state = CellStateDraining" "0 < sint n"
  | (draining) "state = CellStateDraining" "\<not> 0 < sint n"
  | (waiting) "state \<noteq> CellStateDisabled" "state \<noteq> CellStateDraining" "n = 0"
  | (active) "state \<noteq> CellStateDisabled" "state \<noteq> CellStateDraining" "n \<noteq> 0"
  by blast

lemma triple_backend_conditions:
  assumes ok: "conditions_ok K" "helpers_keep I K" and start: "cell_at K cell known cell1"
  shows "triple I (backend_conditions K cell1 state n) (\<lambda>(cell', requeue) w. I w \<and>
    cell_at K cell (known(CellBackendReadyCondition \<mapsto> bool_status (backend_up state n),
      CellReadyCondition \<mapsto> bool_status (serving state n))) cell' \<and>
    requeue = (state \<noteq> CellStateDisabled \<and> \<not> backend_up state n))"
proof -
  note two = triple_weaken [OF cell_conditions.triple_two_conditions [OF ok start]]
  show ?thesis
    by (cases rule: backend_cases [where state = state and n = n]) (simp add: backend_conditions_def backend_up_def serving_def bool_status_def, rule two, simp, fastforce)+
qed

abbreviation cell_key :: "Cell \<Rightarrow> string \<times> string" where
  "cell_key c \<equiv> (om_Namespace (cell_Meta c), om_Name (cell_Meta c))"

abbreviation status_patch_ok :: "'w kube \<Rightarrow> ('w \<Rightarrow> string \<times> string \<Rightarrow> CellStatus option) \<Rightarrow> bool" where
  "status_patch_ok K \<equiv> status_patched (k_cells K) cell_Meta cell_Status"

definition published :: "'w kube \<Rightarrow> Cell \<Rightarrow> CellStatus \<Rightarrow> bool" where
  "published K cell st \<longleftrightarrow>
     cst_ObservedGeneration st = om_Generation (cell_Meta cell) \<and>
     cst_Namespace st = effectiveNamespace cell \<and> cst_OperationalState st = effectiveCellState cell \<and>
     cond_status K (cst_Conditions st) CellNamespaceReadyCondition = Some ConditionTrue \<and>
     cond_status K (cst_Conditions st) CellServiceReadyCondition = Some ConditionTrue \<and>
     cond_status K (cst_Conditions st) CellPoliciesReadyCondition = Some ConditionTrue \<and>
     cond_status K (cst_Conditions st) CellBackendReadyCondition =
       Some (bool_status (backend_up (effectiveCellState cell) (cst_AvailableEndpoints st))) \<and>
     cond_status K (cst_Conditions st) CellReadyCondition =
       Some (bool_status (serving (effectiveCellState cell) (cst_AvailableEndpoints st)))"

text \<open>The outcome of a successful pass: the published status and the delay it asks for.\<close>

definition outcome :: "'w kube \<Rightarrow> Cell \<Rightarrow> ('w \<Rightarrow> string \<times> string \<Rightarrow> CellStatus option) \<Rightarrow> reconcile_result \<Rightarrow> 'w \<Rightarrow> bool" where
  "outcome K cell stored r w \<longleftrightarrow>
     (snd r = None \<longrightarrow> (\<exists>st. stored w (cell_key cell) = Some st \<and> published K cell st \<and>
        res_RequeueAfter (fst r) =
          (if effectiveCellState cell \<noteq> CellStateDisabled \<and>
             \<not> backend_up (effectiveCellState cell) (cst_AvailableEndpoints st)
           then cellBackendRequeueDelay else 0)))"

lemma cell_at_status:
  assumes "cell_at K cell known cell1"
  shows "cell_at K (cell\<lparr>cell_Status := (cell_Status cell)\<lparr>cst_Namespace := a, cst_EntrypointService := b,
      cst_ObservedGeneration := g, cst_OperationalState := d, cst_AvailableEndpoints := e\<rparr>\<rparr>) known
    (cell1\<lparr>cell_Status := (cell_Status cell1)\<lparr>cst_Namespace := a, cst_EntrypointService := b,
      cst_ObservedGeneration := g, cst_OperationalState := d, cst_AvailableEndpoints := e\<rparr>\<rparr>)"
proof -
  from assms obtain cs where "cell1 = cell\<lparr>cell_Status := (cell_Status cell)\<lparr>cst_Conditions := cs\<rparr>\<rparr>"
    by (auto simp: conditions_at_def)
  with assms show ?thesis
    unfolding conditions_at_def cond_status_def
    by (intro conjI exI [of _ cs]) (auto intro: Cell.equality CellStatus.equality)
qed

lemma cell_at_same:
  assumes "cell_at K cell known cell1"
  shows "cell_Meta cell1 = cell_Meta cell" "cell_Spec cell1 = cell_Spec cell"
  using assms by (auto simp: conditions_at_def)

lemma cell_at_packages: "cell_at K cell known cell1 \<Longrightarrow> policy_packages_keep I K cell1 = policy_packages_keep I K cell"
  by (auto simp: conditions_at_def)

lemma triple_cell_failed: "triple I (cell_failed K cell1 base t msg err) (outcome K cell stored)"
  by (simp add: triple_def cell_failed_def outcome_def split: prod.splits)

lemma triple_publish:
  assumes ok: "conditions_ok K" "helpers_keep I K" "status_patch_ok K stored"
    and start: "cell_at K cell [CellNamespaceReadyCondition \<mapsto> ConditionTrue,
      CellServiceReadyCondition \<mapsto> ConditionTrue, CellPoliciesReadyCondition \<mapsto> ConditionTrue] cell1"
    and I: "I = (\<lambda>w. stored w (cell_key cell) = Some (cell_Status cell))"
  shows "triple I (publish_status K cell1 cell (effectiveNamespace cell) svc (effectiveCellState cell) n)
    (outcome K cell stored)"
  unfolding publish_status_def cell_at_same(1) [OF start]
proof (rule triple_bind [OF triple_backend_conditions [OF ok(1,2) cell_at_status [OF start]]],
    rule triple_case_prod, simp only: prod.case)
  fix cell2 requeue
  let ?cell = "cell\<lparr>cell_Status := (cell_Status cell)\<lparr>cst_Namespace := effectiveNamespace cell,
      cst_EntrypointService := svc, cst_ObservedGeneration := om_Generation (cell_Meta cell),
      cst_OperationalState := effectiveCellState cell, cst_AvailableEndpoints := n\<rparr>\<rparr>"
  let ?known = "[CellNamespaceReadyCondition \<mapsto> ConditionTrue, CellServiceReadyCondition \<mapsto> ConditionTrue,
      CellPoliciesReadyCondition \<mapsto> ConditionTrue,
      CellBackendReadyCondition \<mapsto> bool_status (backend_up (effectiveCellState cell) n),
      CellReadyCondition \<mapsto> bool_status (serving (effectiveCellState cell) n)]"
  let ?rest = "bnd (Cell_patchStatus K cell2 cell) (\<lambda>r. case r of Some err \<Rightarrow> ret (NoRequeue, Some err)
        | None \<Rightarrow> if requeue then ret (\<lparr>res_RequeueAfter = cellBackendRequeueDelay\<rparr>, None)
            else ret (NoRequeue, None))"
  show "triple (\<lambda>w. I w \<and> cell_at K ?cell ?known cell2 \<and>
        requeue = (effectiveCellState cell \<noteq> CellStateDisabled \<and> \<not> backend_up (effectiveCellState cell) n))
      ?rest (outcome K cell stored)"
    unfolding triple_def
  proof (intro allI impI, elim conjE)
    fix w
    assume w: "I w" and c: "cell_at K ?cell ?known cell2"
      and requeue: "requeue = (effectiveCellState cell \<noteq> CellStateDisabled \<and> \<not> backend_up (effectiveCellState cell) n)"
    from c have "published K cell (cell_Status cell2)" "cst_AvailableEndpoints (cell_Status cell2) = n"
      "cell_key cell2 = cell_key cell"
      by (auto simp: conditions_at_def published_def)
    moreover obtain r w' where r: "run_state (rc_StatusPatch (k_cells K) cell2 cell) w = (r, w')" by fastforce
    moreover have "stored w' (cell_key cell) = Some (cell_Status cell2)" if "r = None"
      using ok(3) w r that \<open>cell_key cell2 = cell_key cell\<close> unfolding status_patched_def I by metis
    ultimately show "outcome K cell stored (fst (run_state ?rest w)) (snd (run_state ?rest w))"
      using requeue by (cases r) (auto simp: Cell_patchStatus_def outcome_def NoRequeue_def)
  qed
qed

lemma triple_reconcileNormal:
  assumes ok: "conditions_ok K" "status_patch_ok K stored" "cell_packages_keep I K cell"
    and I: "I = (\<lambda>w. stored w (cell_key cell) = Some (cell_Status cell))"
  shows "triple I (Cell_reconcileNormal K cell) (outcome K cell stored)"
proof -
  note policies = cell_packages_parts(1) [OF ok(3)] and helpers = cell_packages_parts(2) [OF ok(3)]
  have writes: "applies_keep I (k_namespaces K)" "applies_keep I (k_services K)"
    using ok(3) by (simp_all add: cell_packages_keep_def)
  note cond = cell_conditions.triple_condition [OF ok(1) helpers]
  have same: "effectiveNamespace c = effectiveNamespace cell" "effectiveCellState c = effectiveCellState cell"
    "policy_packages_keep I K c" if "cell_at K cell known c" for known c
    using cell_at_same [OF that] cell_at_packages [OF that, of I] policies
    by (simp_all add: effectiveNamespace_def effectiveCellState_def)
  show ?thesis
    unfolding Cell_reconcileNormal_def Let_def
  proof (rule triple_keeps [OF keeps_reconcileNamespace [OF helpers writes(1)]], rule triple_case_option,
      rule cond [OF _ cell_conditions.at_start], goal_cases)
    case (1 r c1)
    show ?case
    proof (rule triple_keeps [OF keeps_reconcileService [OF helpers writes(2)]], rule triple_case_sum,
        rule triple_cell_failed, rule cond [OF _ 1(2)], goal_cases)
      case (1 r svc c2)
      show ?case
      proof (rule triple_keeps [OF keeps_reconcilePolicies [OF same(3) [OF 1(2)]]], rule triple_case_option,
          rule cond [OF _ 1(2)], goal_cases)
        case (1 r c3)
        show ?case
          by (rule triple_keeps [OF keeps_countReadyEndpoints [OF policies]], rule triple_case_sum,
              rule triple_cell_failed, rule triple_publish [OF ok(1) helpers ok(2) 1(2) I])
      qed (rule triple_cell_failed)
    qed
  qed (rule triple_cell_failed)
qed

section \<open>Counting\<close>

text \<open>The number of addresses of endpoints that are not marked as unready.\<close>

definition ready_addresses :: "EndpointSlice list \<Rightarrow> nat" where
  "ready_addresses slices =
     sum_list (map (length \<circ> e_Addresses) (filter (\<lambda>e. e_Ready e \<noteq> Some False) (concat (map slice_Endpoints slices))))"

lemma count_endpoints_eq:
  "count_endpoints es n = n + of_nat (sum_list (map (length \<circ> e_Addresses) (filter (\<lambda>e. e_Ready e \<noteq> Some False) es)))"
  by (induction es n rule: count_endpoints.induct) (simp_all add: ac_simps)

lemma count_slices_eq: "count_slices slices n = n + of_nat (ready_addresses slices)"
  by (induction slices n rule: count_slices.induct) (simp_all add: count_endpoints_eq ready_addresses_def)

section \<open>Properties\<close>

definition example_cell :: Cell where
  "example_cell =
     \<lparr>cell_Meta = (NewMeta ''alpha'' [])\<lparr>om_UID := ''uid-1'', om_Generation := 3\<rparr>,
      cell_Spec = \<lparr>cs_Namespace = ''cell-alpha'',
        cs_Entrypoint = \<lparr>ep_ServiceName = ''web'', ep_Port = 80, ep_TargetPort = None, ep_Protocol = [], ep_Type = []\<rparr>,
        cs_WorkloadSelector = None, cs_State = [], cs_NamespaceLabels = None, cs_NamespaceAnnotations = None,
        cs_ServiceLabels = None, cs_ServiceAnnotations = None, cs_TearDownOnDelete = True, cs_Policies = None\<rparr>,
      cell_Status = \<lparr>cst_ObservedGeneration = 0, cst_Namespace = [], cst_EntrypointService = [],
        cst_OperationalState = [], cst_AvailableEndpoints = 0, cst_Conditions = []\<rparr>\<rparr>"

definition example_slice :: EndpointSlice where
  "example_slice =
     \<lparr>slice_Meta = (NewMeta ''web-1'' ''cell-alpha'')\<lparr>om_Labels := gomap_lit [(LabelServiceName, ''web'')]\<rparr>,
      slice_Endpoints = [\<lparr>e_Addresses = [''10.0.0.1''], e_Ready = None\<rparr>,
        \<lparr>e_Addresses = [''10.0.0.2''], e_Ready = Some False\<rparr>]\<rparr>"

definition example_cluster :: cluster where
  "example_cluster = empty_cluster\<lparr>db_cells := [example_cell], db_slices := [example_slice]\<rparr>"

abbreviation stored_status :: "cluster \<Rightarrow> string \<times> string \<Rightarrow> CellStatus option" where
  "stored_status \<equiv> mem_status db_cells cell_Meta cell_Status"

lemma mem_status_patch_ok: "status_patch_ok mem_kube stored_status"
  by (simp add: mem_kube_def mem_client_status_patched)

lemma mem_cell_packages_keep:
  "cell_packages_keep (\<lambda>w. stored_status w k = s) mem_kube cell"
proof -
  have "stored_status (w\<lparr>db_namespaces := a\<rparr>) k = stored_status w k" "stored_status (w\<lparr>db_services := b\<rparr>) k = stored_status w k"
    "stored_status (w\<lparr>db_quotas := c\<rparr>) k = stored_status w k" "stored_status (w\<lparr>db_limits := d\<rparr>) k = stored_status w k"
    "stored_status (w\<lparr>db_netpols := e\<rparr>) k = stored_status w k" for w a b c d e
    by (simp_all add: mem_status_def)
  then show ?thesis
    unfolding cell_packages_keep_def policy_packages_keep_def
    by (intro conjI mem_helpers_keep) (simp_all add: mem_kube_def mem_client_reads mem_client_keeps)
qed

text \<open>
  C4: when a reconcile of a cell succeeds, the status stored for the cell names the current
  generation, its namespace and its operational state, and its conditions tell the truth: the
  backend is reported ready exactly when a cell that is not disabled has endpoints, and the
  cell is reported ready exactly when it is neither disabled nor draining and has endpoints.
  A pass asks for a requeue exactly when a cell that is not disabled waits for endpoints. Having
  endpoints is told by the count that is published in the same status; that this is the count of
  the listed addresses is the property of \<^verbatim>\<open>countReadyEndpoints\<close> below.
\<close>

theorem cell_status_published:
  assumes "conditions_ok K" "status_patch_ok K stored"
    and "cell_packages_keep (\<lambda>w. stored w (cell_key cell) = Some (cell_Status cell)) K cell"
    and "stored w (cell_key cell) = Some (cell_Status cell)"
    and "run_state (Cell_reconcileNormal K cell) w = ((res, None), w')"
  shows "\<exists>st. stored w' (cell_key cell) = Some st \<and> published K cell st \<and>
    res_RequeueAfter res = (if effectiveCellState cell \<noteq> CellStateDisabled \<and>
       \<not> backend_up (effectiveCellState cell) (cst_AvailableEndpoints st) then cellBackendRequeueDelay else 0)"
  using triple_run [OF triple_reconcileNormal [OF assms(1-3) refl] assms(4,5)] by (simp add: outcome_def)

theorem cell_status_published_witness:
  "\<exists>w' st. run_state (Cell_reconcileNormal mem_kube example_cell) example_cluster = ((NoRequeue, None), w') \<and>
     stored_status w' (cell_key example_cell) = Some st \<and> published mem_kube example_cell st"
proof -
  have "fst (run_state (Cell_reconcileNormal mem_kube example_cell) example_cluster) = (NoRequeue, None)"
    by code_simp
  then obtain w' where run: "run_state (Cell_reconcileNormal mem_kube example_cell) example_cluster = ((NoRequeue, None), w')"
    by (metis prod.collapse)
  have "stored_status example_cluster (cell_key example_cell) = Some (cell_Status example_cell)"
    by (simp add: mem_status_def example_cluster_def has_key_def)
  from cell_status_published [OF mem_conditions_ok mem_status_patch_ok mem_cell_packages_keep this run] run
  show ?thesis by blast
qed


text \<open>
  C13: reconciling a cell that is being deleted never deletes a namespace unless tear-down is
  asked for and the namespace carries the labels the operator put on it for this cell,
  whatever the API answers.
\<close>

theorem namespace_deletion_safe:
  assumes "stores (k_namespaces K) ns_Meta ns present"
    and "reads_keep present (k_services K)" "deletes_keep present (k_services K) (\<lambda>_. True)"
    and "patches_keep present (k_cells K)"
    and "\<not> (cs_TearDownOnDelete (cell_Spec cell) \<and> cell_owns_namespace cell ns)"
    and "present w"
  shows "present (snd (run_state (Cell_reconcileDeletion K cell) w))"
proof (rule keeps_run [where I = present, OF _ assms(6)])
  have "keeps present (deleteEntrypointService K cell n)" for n
    unfolding deleteEntrypointService_def using assms(2) keeps_delete [OF assms(3)]
    by (intro keeps_intros) auto
  then show "keeps present (Cell_reconcileDeletion K cell)"
    unfolding Cell_reconcileDeletion_def using assms(4,5) keeps_deleteNamespaceIfManaged [OF assms(1)]
    by (intro keeps_intros) auto
qed

theorem namespace_deletion_safe_witness:
  "\<lparr>ns_Meta = NewMeta ''cell-alpha'' []\<rparr> \<in> set (db_namespaces
     (snd (run_state (Cell_reconcileDeletion mem_kube example_cell)
       (example_cluster\<lparr>db_namespaces := [\<lparr>ns_Meta = NewMeta ''cell-alpha'' []\<rparr>]\<rparr>))))"
proof -
  let ?ns = "\<lparr>ns_Meta = NewMeta ''cell-alpha'' []\<rparr>"
  let ?present = "\<lambda>w. only_stored ns_Meta ?ns (db_namespaces w)"
  have "stores (k_namespaces mem_kube) ns_Meta ?ns ?present"
    by (simp add: mem_kube_def mem_client_stores)
  moreover have "\<not> cell_owns_namespace example_cell ?ns" by (simp add: cell_owns_namespace_def NewMeta_def)
  ultimately have "?present (snd (run_state (Cell_reconcileDeletion mem_kube example_cell)
      (example_cluster\<lparr>db_namespaces := [?ns]\<rparr>)))"
    by (intro namespace_deletion_safe [where ns = ?ns and present = ?present])
      (simp_all add: mem_kube_def mem_client_reads mem_client_keeps, simp add: only_stored_def)
  then show ?thesis by (simp add: only_stored_def)
qed

text \<open>
  Without tear-down, reconciling a cell that is being deleted never deletes a service the
  cell does not control, not even one with the name of the cell's entrypoint in its namespace.
\<close>

lemma service_deletion_safe:
  assumes "stores (k_services K) svc_Meta svc present" "patches_keep present (k_cells K)"
    and "\<not> k_IsControlledBy K (svc_Meta svc) (cell_Meta cell)" "\<not> cs_TearDownOnDelete (cell_Spec cell)"
    and "present w"
  shows "present (snd (run_state (Cell_reconcileDeletion K cell) w))"
proof (rule keeps_run [where I = present, OF _ assms(5)])
  show "keeps present (Cell_reconcileDeletion K cell)"
    unfolding Cell_reconcileDeletion_def using assms(2,4) keeps_deleteEntrypointService [OF assms(1,3)]
    by (intro keeps_intros) auto
qed

lemma service_deletion_safe_witness:
  "\<exists>svc cell. meta_key (svc_Meta svc) = (effectiveNamespace cell, ep_ServiceName (cs_Entrypoint (cell_Spec cell))) \<and>
     svc \<in> set (db_services (snd (run_state (Cell_reconcileDeletion mem_kube cell) (example_cluster\<lparr>db_services := [svc]\<rparr>))))"
proof -
  let ?svc = "\<lparr>svc_Meta = NewMeta ''web'' ''cell-alpha'', svc_Selector = None, svc_Type = [], svc_Ports = []\<rparr>"
  let ?cell = "example_cell\<lparr>cell_Spec := (cell_Spec example_cell)\<lparr>cs_TearDownOnDelete := False\<rparr>\<rparr>"
  let ?present = "\<lambda>w. only_stored svc_Meta ?svc (db_services w)"
  have "stores (k_services mem_kube) svc_Meta ?svc ?present"
    by (simp add: mem_kube_def mem_client_stores)
  moreover have "\<not> k_IsControlledBy mem_kube (svc_Meta ?svc) (cell_Meta ?cell)"
    by (simp add: mem_kube_def is_controlled_def NewMeta_def)
  ultimately have "?present (snd (run_state (Cell_reconcileDeletion mem_kube ?cell) (example_cluster\<lparr>db_services := [?svc]\<rparr>)))"
    by (intro service_deletion_safe [where svc = ?svc and present = ?present])
      (simp_all add: mem_kube_def mem_client_keeps, simp add: only_stored_def)
  then show ?thesis
    by (intro exI [of _ ?svc] exI [of _ ?cell])
      (simp add: only_stored_def effectiveNamespace_def example_cell_def NewMeta_def)
qed

text \<open>
  C30: the finalizer outlives a failed clean-up: when the deletion of the service reports an
  error, the pass ends with that error, and what only a patch of the cell could undo, such as
  the stored finalizer, still holds. The same for the namespace when tear-down is asked for.
\<close>

theorem finalizer_after_cleanup:
  assumes "reads_keep held (k_services K)" "deletes_keep held (k_services K) (\<lambda>_. True)"
    and "reads_keep held (k_namespaces K)" "deletes_keep held (k_namespaces K) (\<lambda>_. True)"
    and "held w"
    and "run_state (deleteEntrypointService K cell (effectiveNamespace cell)) w = (e1, w1)"
    and "run_state (deleteNamespaceIfManaged K cell (effectiveNamespace cell)) w1 = (e2, w2)"
    and "e1 \<noteq> None \<or> cs_TearDownOnDelete (cell_Spec cell) \<and> e2 \<noteq> None"
  shows "fst (run_state (Cell_reconcileDeletion K cell) w) = (NoRequeue, if e1 \<noteq> None then e1 else e2) \<and>
    held (snd (run_state (Cell_reconcileDeletion K cell) w))"
proof -
  have "keeps held (deleteEntrypointService K cell n)" for n
    unfolding deleteEntrypointService_def using assms(1) keeps_delete [OF assms(2)]
    by (intro keeps_intros) auto
  from keeps_run [OF this assms(5)] assms(6) have w1: "held w1" by (metis snd_conv)
  have "keeps held (deleteNamespaceIfManaged K cell n)" for n
    unfolding deleteNamespaceIfManaged_def using assms(3) keeps_delete [OF assms(4)]
    by (intro keeps_intros) auto
  from keeps_run [OF this w1] assms(7) have w2: "held w2" by (metis snd_conv)
  show ?thesis
    using assms(6-8) w1 w2 by (cases e1; cases e2) (simp_all add: Cell_reconcileDeletion_def)
qed

definition failing_kube :: "cluster kube" where
  "failing_kube = mem_kube\<lparr>k_services := (k_services mem_kube)\<lparr>rc_Get := \<lambda>_ _. ret (Inl (ApiErr ''timeout''))\<rparr>\<rparr>"

theorem finalizer_after_cleanup_witness:
  "snd (fst (run_state (Cell_reconcileDeletion failing_kube example_cell) example_cluster)) = Some (ApiErr ''timeout'') \<and>
   db_cells (snd (run_state (Cell_reconcileDeletion failing_kube example_cell) example_cluster)) = db_cells example_cluster"
proof -
  let ?held = "\<lambda>w. db_cells w = db_cells example_cluster"
  have "run_state (deleteEntrypointService failing_kube example_cell (effectiveNamespace example_cell)) example_cluster =
      (Some (ApiErr ''timeout''), example_cluster)"
    by (simp add: deleteEntrypointService_def failing_kube_def effectiveNamespace_def example_cell_def)
  moreover obtain e2 w2 where "run_state (deleteNamespaceIfManaged failing_kube example_cell
      (effectiveNamespace example_cell)) example_cluster = (e2, w2)" by fastforce
  ultimately show ?thesis
    using finalizer_after_cleanup [of ?held failing_kube example_cluster example_cell]
    by (simp add: failing_kube_def mem_kube_def mem_client_reads mem_client_keeps)
      (simp add: reads_keep_def deletes_keep_def keeps_def triple_def mem_client_def)
qed

text \<open>
  C31: the endpoint count is the number of addresses of the listed slices whose endpoint is
  not marked unready, modulo \<open>2 ^ 32\<close>; below \<open>2 ^ 31\<close> it is that number, so it is zero
  exactly when no address is ready.
\<close>

theorem endpoints_counted:
  assumes "run_state (rc_List (k_slices K) (Some ns) [(LabelServiceName, svc)]) w = (Inr slices, w')"
  shows "\<exists>n. run_state (countReadyEndpoints K ns svc) w = (Inr n, w') \<and>
    unat n = ready_addresses slices mod 2 ^ 32 \<and>
    (ready_addresses slices < 2 ^ 31 \<longrightarrow> sint n = int (ready_addresses slices))"
  using assms
  by (simp add: countReadyEndpoints_def count_slices_eq signed_of_nat signed_take_bit_int_eq_self unat_of_nat)

theorem endpoints_counted_witness:
  "\<exists>n. run_state (countReadyEndpoints mem_kube ''cell-alpha'' ''web'') example_cluster = (Inr n, example_cluster) \<and>
     sint n = 1"
proof -
  have list: "run_state (rc_List (k_slices mem_kube) (Some ''cell-alpha'') [(LabelServiceName, ''web'')]) example_cluster =
      (Inr [example_slice], example_cluster)"
    by (simp add: mem_kube_def mem_client_def example_cluster_def example_slice_def has_labels_def NewMeta_def)
  have "ready_addresses [example_slice] = 1" by (simp add: ready_addresses_def example_slice_def)
  with endpoints_counted [OF list] show ?thesis by auto
qed

text \<open>
  A change of an endpoint slice wakes exactly the cells whose endpoint count reads the
  slice: the requests are the cells in whose namespace the slice is and whose service name is
  the slice's service label.
\<close>

theorem slice_requests_exact:
  assumes "run_state (rc_List (k_cells K) None []) w = (Inr cells, w')"
    and "\<forall>c\<in>set cells. ep_ServiceName (cs_Entrypoint (cell_Spec c)) \<noteq> []"
  shows "set (fst (run_state (requestsForEndpointSlice K (Some s)) w)) =
    {([], cell_Name c) | c. c \<in> set cells \<and> om_Namespace (slice_Meta s) = effectiveNamespace c \<and>
       gomap_lookup (om_Labels (slice_Meta s)) LabelServiceName = Some (ep_ServiceName (cs_Entrypoint (cell_Spec c)))}"
  using assms
  by (auto simp: requestsForEndpointSlice_def Let_def gomap_index_def split: option.splits)

theorem slice_requests_exact_witness:
  "([], ''alpha'') \<in> set (fst (run_state (requestsForEndpointSlice mem_kube (Some example_slice)) example_cluster))"
proof -
  have "run_state (rc_List (k_cells mem_kube) None []) example_cluster = (Inr [example_cell], example_cluster)"
    by (simp add: mem_kube_def mem_client_def example_cluster_def has_labels_def)
  from slice_requests_exact [OF this, of example_slice] show ?thesis
    by (auto simp: example_cell_def example_slice_def effectiveNamespace_def NewMeta_def)
qed

end
