(* ===== verification/RoutePlan.thy ===== *)
theory RoutePlan
  imports Overlap RouterBuilder CellController
begin

text \<open>
  \<^verbatim>\<open>internal/controller/cellrouter_controller.go\<close>, the decisions of the router reconciler that
  need no write: which routes there are (\<^verbatim>\<open>buildRoutePlans\<close>), which cells take traffic
  (\<^verbatim>\<open>isCellTrafficReady\<close>, \<^verbatim>\<open>resolveBackend\<close>, \<^verbatim>\<open>resolveBackendCandidates\<close>,
  \<^verbatim>\<open>resolveRouteBackends\<close>) and when a route is ready (\<^verbatim>\<open>isRouteReady\<close>).
\<close>

section \<open>Plans\<close>

record routePlan =
  plan_name :: string
  plan_spec :: CellRouteSpec
  plan_placement :: "CellPlacement option"
  plan_placementRef :: string

text \<open>The loop over the static routes, with the names seen so far.\<close>

fun static_plans :: "CellRouteSpec list \<Rightarrow> string list \<Rightarrow> routePlan list \<Rightarrow> error + routePlan list \<times> string list" where
  "static_plans [] seenNames plans = Inr (plans, seenNames)"
| "static_plans (routeSpec # routes) seenNames plans =
     (if rt_Name routeSpec \<in> set seenNames
      then Inl (Errorf (''duplicate route name '' @ go_quote (rt_Name routeSpec)))
      else static_plans routes (rt_Name routeSpec # seenNames)
        (plans @ [\<lparr>plan_name = rt_Name routeSpec, plan_spec = routeSpec, plan_placement = None,
          plan_placementRef = []\<rparr>]))"

fun placement_plans :: "(string \<Rightarrow> string list option) \<Rightarrow> CellPlacement list \<Rightarrow> string list \<Rightarrow> routePlan list \<Rightarrow>
    (string, string) fmap \<Rightarrow> error + routePlan list \<times> (string, string) fmap" where
  "placement_plans subexpNames [] seenNames plans invalidPlacements = Inr (plans, invalidPlacements)"
| "placement_plans subexpNames (placement # placements) seenNames plans invalidPlacements =
     (let name = placement_Name placement in
      if name \<in> set seenNames
      then Inl (Errorf (''placement '' @ go_quote name @ '' conflicts with an existing route name''))
      else (case fmlookup invalidPlacements name of
          Some reason \<Rightarrow> placement_plans subexpNames placements (name # seenNames) plans
            (fmupd name reason invalidPlacements)
        | None \<Rightarrow> (case routeSpecFromPlacement subexpNames placement of
              Inl err \<Rightarrow> placement_plans subexpNames placements (name # seenNames) plans
                (fmupd name (''invalid placement: '' @ Error err) invalidPlacements)
            | Inr spec \<Rightarrow> placement_plans subexpNames placements (name # seenNames)
                (plans @ [\<lparr>plan_name = name, plan_spec = spec, plan_placement = Some placement,
                  plan_placementRef = name\<rparr>]) invalidPlacements)))"

text \<open>\<open>None\<close> is the panic of \<^verbatim>\<open>validatePlacementOverlaps\<close>.\<close>

definition buildRoutePlans :: "(string \<Rightarrow> string list option) \<Rightarrow> CellRouter \<Rightarrow> CellPlacement list \<Rightarrow>
    (error + routePlan list \<times> (string, string) fmap) option" where
  "buildRoutePlans subexpNames router placements =
     (case validatePlacementOverlaps placements of None \<Rightarrow> None
      | Some invalidPlacements \<Rightarrow> Some
          (case static_plans (crs_Routes (router_Spec router)) [] [] of Inl err \<Rightarrow> Inl err
           | Inr (plans, seenNames) \<Rightarrow>
               placement_plans subexpNames placements seenNames plans invalidPlacements))"

definition findPlacementByName :: "CellPlacement list \<Rightarrow> string \<Rightarrow> CellPlacement option" where
  "findPlacementByName placements name = find (\<lambda>p. placement_Name p = name) placements"

definition listPlacements :: "'w kube \<Rightarrow> string \<Rightarrow> ('w, error + CellPlacement list) state" where
  "listPlacements K routerName =
     do {
       r \<leftarrow> rc_List (k_placements K) None [];
       (case r of Inl err \<Rightarrow> ret (Inl err)
        | Inr items \<Rightarrow> ret (Inr (filter (\<lambda>p. ps_RouterRef (placement_Spec p) = routerName) items)))
     }"

section \<open>Backends\<close>

definition isCellTrafficReady :: "'w kube \<Rightarrow> Cell \<Rightarrow> bool \<times> string" where
  "isCellTrafficReady K cell =
     (if effectiveCellState cell = CellStateDisabled then (False, ''disabled'')
      else if effectiveCellState cell = CellStateDraining then (False, ''draining'')
      else
        (let conds = cst_Conditions (cell_Status cell);
             blocked = (\<lambda>t message. case k_FindStatusCondition K conds t of
                None \<Rightarrow> Some message
              | Some c \<Rightarrow> if c_Status c \<noteq> ConditionTrue
                  then Some (if c_Message c \<noteq> [] then c_Message c else message) else None) in
         (case blocked CellBackendReadyCondition ''backend condition is not ready'' of
            Some reason \<Rightarrow> (False, reason)
          | None \<Rightarrow> (case blocked CellReadyCondition ''cell condition is not ready'' of
                Some reason \<Rightarrow> (False, reason)
              | None \<Rightarrow> (True, ''ready'')))))"

definition resolveBackend :: "Cell \<Rightarrow> error + BackendTarget" where
  "resolveBackend cell =
     (let namespace = (if cst_Namespace (cell_Status cell) = [] then effectiveNamespace cell
            else cst_Namespace (cell_Status cell));
          entry = cs_Entrypoint (cell_Spec cell) in
      if namespace = [] then Inl (Errorf ''cell namespace is not available'')
      else if ep_ServiceName entry = [] then Inl (Errorf ''cell entrypoint service name is empty'')
      else if ep_Port entry = 0 then Inl (Errorf ''cell entrypoint port is not set'')
      else Inr \<lparr>bt_Namespace = namespace, bt_Name = ep_ServiceName entry, bt_Port = ep_Port entry,
        bt_Weight = None, bt_CellRef = []\<rparr>)"

fun candidates_loop :: "'w kube \<Rightarrow> CellRouteBackendRef list \<Rightarrow> BackendTarget list \<Rightarrow> string list \<Rightarrow> string list \<Rightarrow>
    ('w, error + BackendTarget list \<times> string list \<times> string list) state" where
  "candidates_loop K [] backends backendRefs issues = ret (Inr (backends, backendRefs, issues))"
| "candidates_loop K (ref # refs) backends backendRefs issues =
     do {
       r \<leftarrow> rc_Get (k_cells K) [] (br_CellRef ref);
       (case r of
          Inl err \<Rightarrow>
            if IsNotFound err then candidates_loop K refs backends backendRefs
              (issues @ [''cell '' @ go_quote (br_CellRef ref) @ '' not found''])
            else ret (Inl err)
        | Inr cell \<Rightarrow>
            (case isCellTrafficReady K cell of
               (False, reason) \<Rightarrow> candidates_loop K refs backends backendRefs
                 (issues @ [''cell '' @ go_quote (br_CellRef ref) @ '' is not traffic-ready: '' @ reason])
             | (True, _) \<Rightarrow>
                 (case resolveBackend cell of
                    Inl err \<Rightarrow> candidates_loop K refs backends backendRefs
                      (issues @ [''failed to resolve backend for cell '' @ go_quote (br_CellRef ref) @ '': '' @ Error err])
                  | Inr backend \<Rightarrow> candidates_loop K refs
                      (backends @ [backend\<lparr>bt_Weight := br_Weight ref, bt_CellRef := br_CellRef ref\<rparr>])
                      (backendRefs @ [br_CellRef ref]) issues)))
     }"

definition resolveBackendCandidates :: "'w kube \<Rightarrow> CellRouteBackendRef list \<Rightarrow>
    ('w, error + BackendTarget list \<times> string list \<times> string list) state" where
  "resolveBackendCandidates K refs = candidates_loop K refs [] [] []"

text \<open>The candidates of a plan: the primary cell, when named, and the additional ones.\<close>

definition plan_candidates :: "CellRouteSpec \<Rightarrow> CellRouteBackendRef list" where
  "plan_candidates spec =
     (if rt_CellRef spec \<noteq> [] then [\<lparr>br_CellRef = rt_CellRef spec, br_Weight = rt_Weight spec\<rparr>] else []) @
     rt_AdditionalBackends spec"

definition resolveRouteBackends :: "'w kube \<Rightarrow> routePlan \<Rightarrow>
    ('w, error + BackendTarget list \<times> string list \<times> string \<times> bool) state" where
  "resolveRouteBackends K plan =
     do {
       r \<leftarrow> resolveBackendCandidates K (plan_candidates (plan_spec plan));
       (case r of Inl err \<Rightarrow> ret (Inl err)
        | Inr (backends, backendRefs, issues) \<Rightarrow>
            if backends \<noteq> [] then
              ret (Inr (backends, backendRefs,
                if issues \<noteq> [] then ''degraded: '' @ strings_Join issues ''; '' else ''traffic-ready'', False))
            else
              (case rt_FallbackBackend (plan_spec plan) of
                 None \<Rightarrow> ret (Inr ([], [],
                   if issues \<noteq> [] then strings_Join issues ''; '' else ''waiting for traffic-ready backends'', True))
               | Some fallback \<Rightarrow> do {
                   r \<leftarrow> resolveBackendCandidates K [fallback];
                   (case r of Inl err \<Rightarrow> ret (Inl err)
                    | Inr (fallbackBackends, fallbackRefs, fallbackIssues) \<Rightarrow>
                        if fallbackBackends \<noteq> [] then
                          ret (Inr (fallbackBackends, fallbackRefs, ''using fallback backend'', False))
                        else let issues = issues @ fallbackIssues in
                          ret (Inr ([], [], if issues \<noteq> [] then strings_Join issues ''; ''
                            else ''waiting for traffic-ready backends'', True))) }))
     }"

section \<open>Readiness of routes\<close>

record ready_scan =
  rs_accepted :: bool
  rs_resolved :: bool
  rs_resolvedSeen :: bool
  rs_readyTime :: "time option"

fun scan_conditions :: "Condition list \<Rightarrow> ready_scan \<Rightarrow> ready_scan" where
  "scan_conditions [] s = s"
| "scan_conditions (cond # conds) s =
     scan_conditions conds
       (if c_Type cond = RouteConditionAccepted then
          (if c_Status cond = ConditionTrue
           then s\<lparr>rs_accepted := True, rs_readyTime := Some (c_LastTransitionTime cond)\<rparr> else s)
        else if c_Type cond = RouteConditionResolvedRefs then
          (let s = s\<lparr>rs_resolvedSeen := True\<rparr> in
           if c_Status cond = ConditionTrue then
             (let s = s\<lparr>rs_resolved := True\<rparr> in
              if (case rs_readyTime s of None \<Rightarrow> True | Some t \<Rightarrow> t < c_LastTransitionTime cond)
              then s\<lparr>rs_readyTime := Some (c_LastTransitionTime cond)\<rparr> else s)
           else s)
        else s)"

definition empty_scan :: ready_scan where
  "empty_scan = \<lparr>rs_accepted = False, rs_resolved = False, rs_resolvedSeen = False, rs_readyTime = None\<rparr>"

fun scan_parents :: "RouteParentStatus list \<Rightarrow> string \<Rightarrow> string \<Rightarrow> bool \<times> time option" where
  "scan_parents [] gatewayName gatewayNamespace = (False, None)"
| "scan_parents (parent # parents) gatewayName gatewayNamespace =
     (if pr_Name (rps_ParentRef parent) \<noteq> gatewayName then scan_parents parents gatewayName gatewayNamespace
      else if pr_Namespace (rps_ParentRef parent) \<notin> {None, Some gatewayNamespace}
      then scan_parents parents gatewayName gatewayNamespace
      else let s = scan_conditions (rps_Conditions parent) empty_scan in
        if rs_accepted s \<and> (\<not> rs_resolvedSeen s \<or> rs_resolved s) then (True, rs_readyTime s)
        else scan_parents parents gatewayName gatewayNamespace)"

definition isRouteReady :: "HTTPRoute \<Rightarrow> string \<Rightarrow> string \<Rightarrow> bool \<times> time option" where
  "isRouteReady httpRoute gatewayName gatewayNamespace =
     scan_parents (route_Parents httpRoute) gatewayName gatewayNamespace"

section \<open>The plans, described\<close>

lemma static_plans_spec:
  "static_plans routes seen plans = Inr (plans', seen') \<Longrightarrow>
   distinct (map rt_Name routes) \<and> set (map rt_Name routes) \<inter> set seen = {} \<and>
   set seen' = set seen \<union> set (map rt_Name routes) \<and>
   plans' = plans @ map (\<lambda>r. \<lparr>plan_name = rt_Name r, plan_spec = r, plan_placement = None, plan_placementRef = []\<rparr>) routes"
  by (induction routes seen plans rule: static_plans.induct) (auto split: if_splits)

definition compiles :: "(string \<Rightarrow> string list option) \<Rightarrow> CellPlacement \<Rightarrow> bool" where
  "compiles subexpNames p \<longleftrightarrow> (\<exists>spec. routeSpecFromPlacement subexpNames p = Inr spec)"

definition plan_of :: "(string \<Rightarrow> string list option) \<Rightarrow> CellPlacement \<Rightarrow> routePlan" where
  "plan_of subexpNames p =
     \<lparr>plan_name = placement_Name p, plan_spec = projr (routeSpecFromPlacement subexpNames p),
      plan_placement = Some p, plan_placementRef = placement_Name p\<rparr>"

lemma placement_plans_spec:
  "placement_plans sn ps seen plans bad = Inr (plans', bad') \<Longrightarrow>
   distinct (map placement_Name ps) \<and> set (map placement_Name ps) \<inter> set seen = {} \<and>
   plans' = plans @ map (plan_of sn) (filter (\<lambda>p. fmlookup bad (placement_Name p) = None \<and> compiles sn p) ps) \<and>
   (\<forall>n. fmlookup bad' n \<noteq> None \<longleftrightarrow> fmlookup bad n \<noteq> None \<or> (\<exists>p\<in>set ps. placement_Name p = n \<and> \<not> compiles sn p))"
proof (induction ps arbitrary: seen plans bad)
  case (Cons p ps)
  let ?n = "placement_Name p"
  from Cons.prems have fresh: "?n \<notin> set seen" by (auto simp: Let_def split: if_splits)
  have same: "filter (\<lambda>q. fmlookup (fmupd ?n r bad) (placement_Name q) = None \<and> compiles sn q) ps =
      filter (\<lambda>q. fmlookup bad (placement_Name q) = None \<and> compiles sn q) ps"
    if "?n \<notin> placement_Name ` set ps" for r
    using that by (intro filter_cong) auto
  consider (bad) r where "fmlookup bad ?n = Some r"
    | (err) e where "fmlookup bad ?n = None" "routeSpecFromPlacement sn p = Inl e"
    | (ok) spec where "fmlookup bad ?n = None" "routeSpecFromPlacement sn p = Inr spec"
    by (cases "fmlookup bad ?n"; cases "routeSpecFromPlacement sn p") auto
  then show ?case
  proof cases
    case bad
    with Cons.prems fresh have step: "placement_plans sn ps (?n # seen) plans (fmupd ?n r bad) = Inr (plans', bad')"
      by (simp add: Let_def)
    from Cons.IH [OF step] bad fresh same [of r] show ?thesis by auto
  next
    case err
    with Cons.prems fresh have step: "placement_plans sn ps (?n # seen) plans
        (fmupd ?n (''invalid placement: '' @ Error e) bad) = Inr (plans', bad')"
      by (simp add: Let_def)
    from err have "\<not> compiles sn p" by (simp add: compiles_def)
    with Cons.IH [OF step] err fresh same [of "''invalid placement: '' @ Error e"] show ?thesis by auto
  next
    case ok
    with Cons.prems fresh have step: "placement_plans sn ps (?n # seen) (plans @ [plan_of sn p]) bad = Inr (plans', bad')"
      by (simp add: Let_def plan_of_def)
    from ok have "compiles sn p" by (simp add: compiles_def)
    with Cons.IH [OF step] ok fresh show ?thesis by auto
  qed
qed simp

section \<open>Backends, described\<close>

text \<open>The backend a reference stands for when its cell takes traffic.\<close>

definition usable :: "'w kube \<Rightarrow> (string \<Rightarrow> error + Cell) \<Rightarrow> CellRouteBackendRef \<Rightarrow> BackendTarget option" where
  "usable K look ref =
     (case look (br_CellRef ref) of Inl _ \<Rightarrow> None
      | Inr cell \<Rightarrow> if \<not> fst (isCellTrafficReady K cell) then None
          else (case resolveBackend cell of Inl _ \<Rightarrow> None
            | Inr b \<Rightarrow> Some (b\<lparr>bt_Weight := br_Weight ref, bt_CellRef := br_CellRef ref\<rparr>)))"

text \<open>In this world the API answers reads of cells by name with \<open>look\<close>, and with no failure.\<close>

definition answers :: "'w kube \<Rightarrow> 'w \<Rightarrow> (string \<Rightarrow> error + Cell) \<Rightarrow> bool" where
  "answers K w look \<longleftrightarrow>
     (\<forall>n. run_state (rc_Get (k_cells K) [] n) w = (look n, w)) \<and> (\<forall>n e. look n = Inl e \<longrightarrow> IsNotFound e)"

lemma candidates_loop_run:
  assumes "answers K w look"
  shows "\<exists>issues'. run_state (candidates_loop K refs backends names issues) w =
      (Inr (backends @ List.map_filter (usable K look) refs,
        names @ map bt_CellRef (List.map_filter (usable K look) refs), issues @ issues'), w) \<and>
    length issues' + length (List.map_filter (usable K look) refs) = length refs"
proof (induction refs arbitrary: backends names issues)
  case Nil
  then show ?case by (simp add: map_filter_simps)
next
  case (Cons ref refs)
  have get: "run_state (rc_Get (k_cells K) [] (br_CellRef ref)) w = (look (br_CellRef ref), w)"
    and nf: "\<And>e. look (br_CellRef ref) = Inl e \<Longrightarrow> IsNotFound e" using assms by (auto simp: answers_def)
  show ?case
  proof (cases "usable K look ref")
    case (Some b)
    then obtain cell reason target where c: "look (br_CellRef ref) = Inr cell"
      "isCellTrafficReady K cell = (True, reason)" "resolveBackend cell = Inr target"
      "b = target\<lparr>bt_Weight := br_Weight ref, bt_CellRef := br_CellRef ref\<rparr>"
      by (cases "isCellTrafficReady K (projr (look (br_CellRef ref)))")
        (auto simp: usable_def split: sum.splits if_splits)
    from Cons.IH [of "backends @ [b]" "names @ [br_CellRef ref]" issues] c get Some show ?thesis
      by (auto simp: map_filter_simps)
  next
    case None
    have "\<exists>msg. run_state (candidates_loop K (ref # refs) backends names issues) w =
        run_state (candidates_loop K refs backends names (issues @ [msg])) w"
      using None get nf by (auto simp: usable_def split: sum.splits prod.splits bool.splits if_splits)
    then obtain msg where step: "run_state (candidates_loop K (ref # refs) backends names issues) w =
        run_state (candidates_loop K refs backends names (issues @ [msg])) w" by blast
    from Cons.IH [of backends names "issues @ [msg]"] obtain more where
      "run_state (candidates_loop K refs backends names (issues @ [msg])) w =
        (Inr (backends @ List.map_filter (usable K look) refs,
          names @ map bt_CellRef (List.map_filter (usable K look) refs), (issues @ [msg]) @ more), w)"
      "length more + length (List.map_filter (usable K look) refs) = length refs" by blast
    with step None show ?thesis by (intro exI [of _ "msg # more"]) (simp add: map_filter_simps)
  qed
qed

lemma resolveBackendCandidates_run:
  assumes "answers K w look"
  obtains issues where "run_state (resolveBackendCandidates K refs) w =
      (Inr (List.map_filter (usable K look) refs, map bt_CellRef (List.map_filter (usable K look) refs), issues), w)"
    and "issues = [] \<longleftrightarrow> length (List.map_filter (usable K look) refs) = length refs"
  using candidates_loop_run [OF assms, of refs "[]" "[]" "[]"]
  by (auto simp: resolveBackendCandidates_def) (metis add_cancel_left_left length_0_conv)

text \<open>What a route gets: the usable candidates, or else the usable fallback.\<close>

definition route_backends :: "'w kube \<Rightarrow> (string \<Rightarrow> error + Cell) \<Rightarrow> CellRouteSpec \<Rightarrow> BackendTarget list" where
  "route_backends K look spec =
     (let direct = List.map_filter (usable K look) (plan_candidates spec) in
      if direct \<noteq> [] then direct
      else (case rt_FallbackBackend spec of None \<Rightarrow> []
        | Some fallback \<Rightarrow> List.map_filter (usable K look) [fallback]))"

lemma resolveRouteBackends_run:
  assumes "answers K w look"
  shows "\<exists>reason. run_state (resolveRouteBackends K plan) w =
    (Inr (route_backends K look (plan_spec plan), map bt_CellRef (route_backends K look (plan_spec plan)), reason,
      route_backends K look (plan_spec plan) = []), w)"
proof -
  obtain issues where direct: "run_state (resolveBackendCandidates K (plan_candidates (plan_spec plan))) w =
      (Inr (List.map_filter (usable K look) (plan_candidates (plan_spec plan)),
        map bt_CellRef (List.map_filter (usable K look) (plan_candidates (plan_spec plan))), issues), w)"
    using assms by (rule resolveBackendCandidates_run)
  show ?thesis
  proof (cases "List.map_filter (usable K look) (plan_candidates (plan_spec plan)) = [] \<and>
      rt_FallbackBackend (plan_spec plan) \<noteq> None")
    case True
    then obtain fb where fb: "rt_FallbackBackend (plan_spec plan) = Some fb" by blast
    obtain issues' where "run_state (resolveBackendCandidates K [fb]) w =
        (Inr (List.map_filter (usable K look) [fb], map bt_CellRef (List.map_filter (usable K look) [fb]), issues'), w)"
      using assms by (rule resolveBackendCandidates_run)
    with True fb direct show ?thesis
      by (auto simp: resolveRouteBackends_def route_backends_def Let_def)
  next
    case False
    with direct show ?thesis
      by (cases "rt_FallbackBackend (plan_spec plan)")
        (auto simp: resolveRouteBackends_def route_backends_def Let_def)
  qed
qed

lemma set_map_filter: "b \<in> set (List.map_filter f xs) \<longleftrightarrow> (\<exists>x\<in>set xs. f x = Some b)"
  by (induction xs) (auto simp: map_filter_simps split: option.splits)

lemma usable_iff:
  "usable K look ref = Some b \<longleftrightarrow>
     (\<exists>cell. look (br_CellRef ref) = Inr cell \<and> fst (isCellTrafficReady K cell) \<and>
        (\<exists>t. resolveBackend cell = Inr t \<and> b = t\<lparr>bt_Weight := br_Weight ref, bt_CellRef := br_CellRef ref\<rparr>))"
  by (auto simp: usable_def split: sum.splits if_splits)

section \<open>Readiness, described\<close>

lemma scan_accepted:
  "rs_accepted (scan_conditions cs s) \<longleftrightarrow> rs_accepted s \<or>
     (\<exists>c\<in>set cs. c_Type c = RouteConditionAccepted \<and> c_Status c = ConditionTrue)"
  by (induction cs arbitrary: s) (simp_all add: Let_def)

lemma scan_resolvedSeen:
  "rs_resolvedSeen (scan_conditions cs s) \<longleftrightarrow> rs_resolvedSeen s \<or> (\<exists>c\<in>set cs. c_Type c = RouteConditionResolvedRefs)"
  by (induction cs arbitrary: s) (simp_all add: Let_def)

lemma scan_resolved:
  "rs_resolved (scan_conditions cs s) \<longleftrightarrow> rs_resolved s \<or>
     (\<exists>c\<in>set cs. c_Type c = RouteConditionResolvedRefs \<and> c_Status c = ConditionTrue)"
  by (induction cs arbitrary: s) (simp_all add: Let_def)

lemmas scan_conditions_spec = scan_accepted scan_resolvedSeen scan_resolved

definition parent_ready :: "string \<Rightarrow> string \<Rightarrow> RouteParentStatus \<Rightarrow> bool" where
  "parent_ready gatewayName gatewayNamespace p \<longleftrightarrow>
     pr_Name (rps_ParentRef p) = gatewayName \<and> pr_Namespace (rps_ParentRef p) \<in> {None, Some gatewayNamespace} \<and>
     (\<exists>c\<in>set (rps_Conditions p). c_Type c = RouteConditionAccepted \<and> c_Status c = ConditionTrue) \<and>
     ((\<exists>c\<in>set (rps_Conditions p). c_Type c = RouteConditionResolvedRefs) \<longrightarrow>
      (\<exists>c\<in>set (rps_Conditions p). c_Type c = RouteConditionResolvedRefs \<and> c_Status c = ConditionTrue))"

lemma parent_ready_scan:
  "parent_ready g ns p \<longleftrightarrow> pr_Name (rps_ParentRef p) = g \<and> pr_Namespace (rps_ParentRef p) \<in> {None, Some ns} \<and>
     (let s = scan_conditions (rps_Conditions p) empty_scan in
      rs_accepted s \<and> (\<not> rs_resolvedSeen s \<or> rs_resolved s))"
  unfolding parent_ready_def Let_def scan_conditions_spec by (simp add: empty_scan_def imp_conv_disj)

lemma scan_parents_Cons:
  "scan_parents (p # ps) g ns = (if parent_ready g ns p
     then (True, rs_readyTime (scan_conditions (rps_Conditions p) empty_scan)) else scan_parents ps g ns)"
  unfolding parent_ready_scan by (auto simp: Let_def)

declare scan_parents.simps(2) [simp del]

lemma scan_parents_ready: "fst (scan_parents ps g ns) \<longleftrightarrow> (\<exists>p\<in>set ps. parent_ready g ns p)"
  by (induction ps) (simp_all add: scan_parents_Cons)

lemma scan_conditions_time:
  "(rs_accepted s \<longrightarrow> rs_readyTime s \<noteq> None) \<Longrightarrow>
   rs_accepted (scan_conditions cs s) \<Longrightarrow> rs_readyTime (scan_conditions cs s) \<noteq> None"
  by (induction cs s rule: scan_conditions.induct) (auto simp: Let_def split: if_splits option.splits)

lemma scan_parents_time: "fst (scan_parents ps g ns) \<longleftrightarrow> snd (scan_parents ps g ns) \<noteq> None"
proof (induction ps)
  case (Cons p ps)
  have "rs_readyTime (scan_conditions (rps_Conditions p) empty_scan) \<noteq> None" if "parent_ready g ns p"
    using that scan_conditions_time [of empty_scan "rps_Conditions p"]
    by (simp add: parent_ready_scan Let_def empty_scan_def)
  then show ?case using Cons by (simp add: scan_parents_Cons)
qed simp

section \<open>Which placements are planned\<close>

lemma conflict_iff_overlap:
  assumes "validatePlacementOverlaps ps = Some bad" "list_all comparable ps"
    and "distinct (map placement_Name ps)" "p \<in> set ps"
  shows "fmlookup bad (placement_Name p) = None \<longleftrightarrow>
    (\<forall>q\<in>set ps. q \<noteq> p \<longrightarrow> placementsObviouslyOverlap p q = Some False)"
proof -
  have defined: "placementsObviouslyOverlap a b \<noteq> Some True \<longleftrightarrow> placementsObviouslyOverlap a b = Some False"
    if "a \<in> set ps" "b \<in> set ps" for a b
    using overlap_verdict [of a b] assms(2) that by (auto simp: list_all_iff)
  from assms(4) obtain k where k: "k < length ps" "p = ps ! k" by (auto simp: in_set_conv_nth)
  have name: "placement_Name (ps ! i) = placement_Name p \<longleftrightarrow> i = k" if "i < length ps" for i
    using assms(3) k that nth_eq_iff_index_eq [of "map placement_Name ps" i k] by simp
  have neq: "ps ! i \<noteq> p \<longleftrightarrow> i \<noteq> k" if "i < length ps" for i using name [OF that] k by auto
  have "fmlookup bad (placement_Name p) \<noteq> None \<longleftrightarrow>
      (\<exists>i j. i < j \<and> j < length ps \<and> placementsObviouslyOverlap (ps ! i) (ps ! j) = Some True \<and> (i = k \<or> j = k))"
  proof -
    have "placement_Name p \<in> {placement_Name (ps ! i), placement_Name (ps ! j)} \<longleftrightarrow> i = k \<or> j = k"
      if "i < j" "j < length ps" for i j
      using name [of i] name [of j] that by auto
    then show ?thesis
      using overlaps_loop_lookup [of ps fmempty bad "placement_Name p"] assms(1)
      unfolding validatePlacementOverlaps_def by (simp cong: conj_cong)
  qed
  also have "\<dots> \<longleftrightarrow> (\<exists>i<length ps. i \<noteq> k \<and> placementsObviouslyOverlap p (ps ! i) = Some True)"
    (is "?l \<longleftrightarrow> ?r")
  proof
    assume ?l
    then obtain i j where "i < j" "j < length ps" "placementsObviouslyOverlap (ps ! i) (ps ! j) = Some True"
      "i = k \<or> j = k" by blast
    then show ?r using k overlap_sym [of "ps ! i" "ps ! j"]
      by (cases "i = k") (auto intro: exI [of _ i] exI [of _ j])
  next
    assume ?r
    then obtain i where "i < length ps" "i \<noteq> k" "placementsObviouslyOverlap p (ps ! i) = Some True" by blast
    then show ?l using k overlap_sym [of p "ps ! i"] by (cases "i < k") (auto simp: not_less_iff_gr_or_eq)
  qed
  also have "\<dots> \<longleftrightarrow> (\<exists>q\<in>set ps. q \<noteq> p \<and> placementsObviouslyOverlap p q = Some True)"
    using neq nth_mem [of _ ps] unfolding in_set_conv_nth [of _ ps] Bex_def by metis
  finally show ?thesis using defined [OF assms(4)] by blast
qed

lemma plan_of_name: "plan_name (plan_of sn p) = placement_Name p"
  by (simp add: plan_of_def)

lemma buildRoutePlans_names:
  assumes "buildRoutePlans sn router ps = Some (Inr (plans, invalid))"
  shows "distinct (map plan_name plans)"
proof -
  from assms obtain bad seen plans0 where static: "static_plans (crs_Routes (router_Spec router)) [] [] = Inr (plans0, seen)"
    and rest: "placement_plans sn ps seen plans0 bad = Inr (plans, invalid)"
    by (auto simp: buildRoutePlans_def split: option.splits sum.splits)
  let ?ok = "\<lambda>p. fmlookup bad (placement_Name p) = None \<and> compiles sn p"
  note st = static_plans_spec [OF static] and pl = placement_plans_spec [OF rest]
  have names: "map plan_name plans = map rt_Name (crs_Routes (router_Spec router)) @ map placement_Name (filter ?ok ps)"
    using st pl by (simp add: plan_of_name comp_def)
  show ?thesis using st pl unfolding names by (auto simp: distinct_map_filter)
qed

section \<open>Properties\<close>

text \<open>
  C23: when plans are built, their names are distinct, the static routes come first and
  unchanged, and every placement goes exactly one way: it is planned with its compiled route,
  or it is listed as invalid; it is planned exactly when it overlaps with no other placement of
  its router and compiles.
\<close>

theorem route_plans_partition:
  assumes build: "buildRoutePlans subexpNames router placements = Some (Inr (plans, invalid))"
    and "list_all comparable placements"
  shows "distinct (map plan_name plans) \<and>
    map plan_spec (take (length (crs_Routes (router_Spec router))) plans) = crs_Routes (router_Spec router) \<and>
    (\<forall>p\<in>set placements.
       (plan_of subexpNames p \<in> set plans \<longleftrightarrow> fmlookup invalid (placement_Name p) = None) \<and>
       (plan_of subexpNames p \<in> set plans \<longleftrightarrow>
          (\<exists>spec. routeSpecFromPlacement subexpNames p = Inr spec) \<and>
          (\<forall>q\<in>set placements. q \<noteq> p \<longrightarrow> placementsObviouslyOverlap p q = Some False)))"
proof -
  let ?routes = "crs_Routes (router_Spec router)"
  let ?static = "map (\<lambda>r. \<lparr>plan_name = rt_Name r, plan_spec = r, plan_placement = None, plan_placementRef = []\<rparr>) ?routes"
  from build obtain bad seen plans0 where bad: "validatePlacementOverlaps placements = Some bad"
    and static: "static_plans ?routes [] [] = Inr (plans0, seen)"
    and rest: "placement_plans subexpNames placements seen plans0 bad = Inr (plans, invalid)"
    by (auto simp: buildRoutePlans_def split: option.splits sum.splits)
  let ?ok = "\<lambda>p. fmlookup bad (placement_Name p) = None \<and> compiles subexpNames p"
  note st = static_plans_spec [OF static] and pl = placement_plans_spec [OF rest]
  have plans: "plans = ?static @ map (plan_of subexpNames) (filter ?ok placements)" using st pl by simp
  have inj: "p = q" if "p \<in> set placements" "q \<in> set placements" "placement_Name p = placement_Name q" for p q
  proof -
    have "inj_on placement_Name (set placements)" using pl by (simp add: distinct_map)
    then show ?thesis using that by (simp add: inj_on_def)
  qed
  have planned: "plan_of subexpNames p \<in> set plans \<longleftrightarrow> ?ok p" if "p \<in> set placements" for p
    using that unfolding plans by (auto simp: plan_of_def)
  have "fmlookup invalid (placement_Name p) = None \<longleftrightarrow> ?ok p" if "p \<in> set placements" for p
  proof -
    have "fmlookup invalid n \<noteq> None \<longleftrightarrow> fmlookup bad n \<noteq> None \<or>
        (\<exists>q\<in>set placements. placement_Name q = n \<and> \<not> compiles subexpNames q)" for n using pl by blast
    from this [of "placement_Name p"] have "fmlookup invalid (placement_Name p) \<noteq> None \<longleftrightarrow>
        fmlookup bad (placement_Name p) \<noteq> None \<or>
        (\<exists>q\<in>set placements. placement_Name q = placement_Name p \<and> \<not> compiles subexpNames q)" .
    moreover have "(\<exists>q\<in>set placements. placement_Name q = placement_Name p \<and> \<not> compiles subexpNames q) \<longleftrightarrow>
        \<not> compiles subexpNames p" using inj that by blast
    ultimately show ?thesis by argo
  qed
  moreover have "distinct (map plan_name plans)" using build by (rule buildRoutePlans_names)
  moreover have "map plan_spec (take (length ?routes) plans) = ?routes" unfolding plans by (simp add: comp_def)
  ultimately show ?thesis
    using planned conflict_iff_overlap [OF bad assms(2)] pl by (simp add: compiles_def) blast
qed

definition example_router :: CellRouter where
  "example_router =
     \<lparr>router_Meta = (NewMeta ''edge'' [])\<lparr>om_UID := ''uid-r''\<rparr>,
      router_Spec = \<lparr>crs_Gateway = \<lparr>gs_Name = ''gw'', gs_Namespace = ''infra'', gs_GatewayClassName = ''envoy'',
          gs_Labels = None, gs_Annotations = None,
          gs_Listeners = [\<lparr>gl_Name = ''http'', gl_Port = 80, gl_Protocol = ''HTTP'', gl_Hostname = None, gl_TLS = None\<rparr>]\<rparr>,
        crs_Routes = []\<rparr>,
      router_Status = \<lparr>crst_ObservedGeneration = 0, crst_ManagedGatewayRef = [], crst_ManagedRoutes = [],
        crst_Conditions = []\<rparr>\<rparr>"

theorem route_plans_partition_witness:
  "\<exists>plans invalid. buildRoutePlans (\<lambda>_. None) example_router [example_placement] = Some (Inr (plans, invalid)) \<and>
     plan_of (\<lambda>_. None) example_placement \<in> set plans"
proof -
  have all: "list_all comparable [example_placement]"
    using validated_comparable [OF example_placement_valid] by simp
  have path: "compilePathRegex (ps_Selectors (placement_Spec example_placement)) = Inr []"
    by (simp add: example_placement_def compilePathRegex_def is_path_selector_def)
  have "conforming full_match" by (simp add: conforming_def)
  from routeSpecFromPlacement_exact [OF example_placement_valid path this] obtain spec where
    spec: "routeSpecFromPlacement (\<lambda>_. None) example_placement = Inr spec" by blast
  obtain plans invalid where
    build: "buildRoutePlans (\<lambda>_. None) example_router [example_placement] = Some (Inr (plans, invalid))"
    using spec by (simp add: buildRoutePlans_def validatePlacementOverlaps_def example_router_def Let_def)
  from route_plans_partition [OF build all] spec build show ?thesis by auto
qed

text \<open>
  C24: the backends of a route are the candidates whose cell exists, takes traffic and has an
  address, in order and with their weights; only when there is none of them, the fallback under
  the same conditions. The pass asks to try again exactly when there is no backend at all, and
  reading the cells changes nothing.
\<close>

theorem route_backends_exact:
  assumes "answers K w look"
  shows "\<exists>reason. run_state (resolveRouteBackends K plan) w =
    (Inr (route_backends K look (plan_spec plan), map bt_CellRef (route_backends K look (plan_spec plan)), reason,
      route_backends K look (plan_spec plan) = []), w)"
  using assms by (rule resolveRouteBackends_run)

definition ready_cell :: Cell where
  "ready_cell = example_cell\<lparr>cell_Status := (cell_Status example_cell)\<lparr>cst_Conditions :=
     map (\<lambda>t. \<lparr>c_Type = t, c_Status = ConditionTrue, c_ObservedGeneration = 3, c_LastTransitionTime = 1,
       c_Reason = ConditionReasonReconciled, c_Message = []\<rparr>) [CellReadyCondition, CellBackendReadyCondition]\<rparr>\<rparr>"

definition example_route :: CellRouteSpec where
  "example_route =
     \<lparr>rt_Name = ''all'', rt_CellRef = ''gone'', rt_ListenerNames = [], rt_Hostnames = [], rt_PathMatch = None,
      rt_HeaderMatches = [], rt_QueryParamMatches = [], rt_Weight = Some 5, rt_AdditionalBackends = [],
      rt_FallbackBackend = Some \<lparr>br_CellRef = ''alpha'', br_Weight = Some 1\<rparr>\<rparr>"

definition example_look :: "string \<Rightarrow> error + Cell" where
  "example_look n = (if n = ''alpha'' then Inr ready_cell else Inl not_found)"

lemma example_answers: "answers mem_kube (example_cluster\<lparr>db_cells := [ready_cell]\<rparr>) example_look"
  by (auto simp: answers_def example_look_def mem_kube_def mem_client_def has_key_def not_found_def
      ready_cell_def example_cell_def NewMeta_def)

lemma example_backends:
  "route_backends mem_kube example_look example_route =
     [\<lparr>bt_Namespace = ''cell-alpha'', bt_Name = ''web'', bt_Port = 80, bt_Weight = Some 1, bt_CellRef = ''alpha''\<rparr>]"
proof -
  have "isCellTrafficReady mem_kube ready_cell = (True, ''ready'')" by code_simp
  then show ?thesis
    by (simp add: route_backends_def plan_candidates_def example_route_def example_look_def usable_def map_filter_simps)
      (simp add: resolveBackend_def ready_cell_def example_cell_def effectiveNamespace_def)
qed

theorem route_backends_exact_witness:
  "\<exists>reason. run_state (resolveRouteBackends mem_kube \<lparr>plan_name = ''all'', plan_spec = example_route,
        plan_placement = None, plan_placementRef = []\<rparr>) (example_cluster\<lparr>db_cells := [ready_cell]\<rparr>) =
     (Inr ([\<lparr>bt_Namespace = ''cell-alpha'', bt_Name = ''web'', bt_Port = 80, bt_Weight = Some 1, bt_CellRef = ''alpha''\<rparr>],
       [''alpha''], reason, False), example_cluster\<lparr>db_cells := [ready_cell]\<rparr>)"
  using route_backends_exact [OF example_answers, of "\<lparr>plan_name = ''all'', plan_spec = example_route,
        plan_placement = None, plan_placementRef = []\<rparr>"] example_backends by simp

text \<open>
  C6: no route sends traffic to a cell that is not ready for it: every backend of a route
  belongs to a cell that exists, is neither disabled nor draining, and has true Ready and
  BackendReady conditions; its service and port are those of the cell's entrypoint, and its
  namespace is the one the cell's status names, or that of its spec when the status names none.
\<close>

theorem backends_take_traffic:
  assumes "b \<in> set (route_backends K look spec)"
  shows "\<exists>cell. look (bt_CellRef b) = Inr cell \<and>
    effectiveCellState cell \<notin> {CellStateDisabled, CellStateDraining} \<and>
    (\<forall>t\<in>{CellReadyCondition, CellBackendReadyCondition}. cond_status K (cell_conds cell) t = Some ConditionTrue) \<and>
    bt_Name b = ep_ServiceName (cs_Entrypoint (cell_Spec cell)) \<and>
    bt_Port b = ep_Port (cs_Entrypoint (cell_Spec cell)) \<and>
    bt_Namespace b = (if cst_Namespace (cell_Status cell) = [] then effectiveNamespace cell
      else cst_Namespace (cell_Status cell)) \<and> bt_Namespace b \<noteq> []"
proof -
  from assms obtain ref where "usable K look ref = Some b"
    by (auto simp: route_backends_def set_map_filter Let_def split: if_splits option.splits)
  then obtain cell t where c: "look (br_CellRef ref) = Inr cell" "fst (isCellTrafficReady K cell)"
    "resolveBackend cell = Inr t" "b = t\<lparr>bt_Weight := br_Weight ref, bt_CellRef := br_CellRef ref\<rparr>"
    unfolding usable_iff by blast
  from c(2) have "effectiveCellState cell \<notin> {CellStateDisabled, CellStateDraining}"
    "\<forall>t\<in>{CellReadyCondition, CellBackendReadyCondition}. cond_status K (cell_conds cell) t = Some ConditionTrue"
    by (auto simp: isCellTrafficReady_def cond_status_def Let_def split: if_splits option.splits)
  moreover from c(3) have "bt_Name t = ep_ServiceName (cs_Entrypoint (cell_Spec cell))"
    "bt_Port t = ep_Port (cs_Entrypoint (cell_Spec cell))"
    "bt_Namespace t = (if cst_Namespace (cell_Status cell) = [] then effectiveNamespace cell
      else cst_Namespace (cell_Status cell)) \<and> bt_Namespace t \<noteq> []"
    by (auto simp: resolveBackend_def Let_def split: if_splits)
  ultimately show ?thesis using c(1,4) by auto
qed

theorem backends_take_traffic_witness:
  "\<exists>cell. example_look ''alpha'' = Inr cell \<and> effectiveCellState cell \<notin> {CellStateDisabled, CellStateDraining} \<and>
     ''cell-alpha'' = (if cst_Namespace (cell_Status cell) = [] then effectiveNamespace cell
       else cst_Namespace (cell_Status cell))"
  using backends_take_traffic [of "hd (route_backends mem_kube example_look example_route)"
      mem_kube example_look example_route] example_backends by auto

text \<open>
  C32: a route counts as ready exactly when one of the gateway's parent statuses is accepted
  and, if it reports on the resolution of references at all, reports it as done; exactly then
  there is a time of transition.
\<close>

theorem route_ready_exact:
  "(fst (isRouteReady route gatewayName gatewayNamespace) \<longleftrightarrow>
      (\<exists>p\<in>set (route_Parents route). pr_Name (rps_ParentRef p) = gatewayName \<and>
         (pr_Namespace (rps_ParentRef p) = None \<or> pr_Namespace (rps_ParentRef p) = Some gatewayNamespace) \<and>
         (\<exists>c\<in>set (rps_Conditions p). c_Type c = RouteConditionAccepted \<and> c_Status c = ConditionTrue) \<and>
         ((\<forall>c\<in>set (rps_Conditions p). c_Type c \<noteq> RouteConditionResolvedRefs) \<or>
          (\<exists>c\<in>set (rps_Conditions p). c_Type c = RouteConditionResolvedRefs \<and> c_Status c = ConditionTrue)))) \<and>
   (fst (isRouteReady route gatewayName gatewayNamespace) \<longleftrightarrow>
      snd (isRouteReady route gatewayName gatewayNamespace) \<noteq> None)"
proof
  show "fst (isRouteReady route gatewayName gatewayNamespace) \<longleftrightarrow>
      (\<exists>p\<in>set (route_Parents route). pr_Name (rps_ParentRef p) = gatewayName \<and>
         (pr_Namespace (rps_ParentRef p) = None \<or> pr_Namespace (rps_ParentRef p) = Some gatewayNamespace) \<and>
         (\<exists>c\<in>set (rps_Conditions p). c_Type c = RouteConditionAccepted \<and> c_Status c = ConditionTrue) \<and>
         ((\<forall>c\<in>set (rps_Conditions p). c_Type c \<noteq> RouteConditionResolvedRefs) \<or>
          (\<exists>c\<in>set (rps_Conditions p). c_Type c = RouteConditionResolvedRefs \<and> c_Status c = ConditionTrue)))"
    unfolding isRouteReady_def scan_parents_ready parent_ready_def by (intro bex_cong refl) auto
  show "fst (isRouteReady route gatewayName gatewayNamespace) \<longleftrightarrow>
      snd (isRouteReady route gatewayName gatewayNamespace) \<noteq> None"
    unfolding isRouteReady_def by (rule scan_parents_time)
qed

theorem route_ready_exact_witness:
  "fst (isRouteReady \<lparr>route_Meta = NewMeta ''r'' ''infra'', route_Spec = \<lparr>hr_ParentRefs = [], hr_Hostnames = [], hr_Rules = []\<rparr>,
     route_Parents = [\<lparr>rps_ParentRef = \<lparr>pr_Name = ''gw'', pr_Namespace = None, pr_SectionName = None\<rparr>,
       rps_Conditions = [\<lparr>c_Type = ''Accepted'', c_Status = ''True'', c_ObservedGeneration = 1,
         c_LastTransitionTime = 7, c_Reason = [], c_Message = []\<rparr>]\<rparr>]\<rparr> ''gw'' ''infra'')"
  unfolding route_ready_exact [THEN conjunct1] by simp

end
