(* ===== verification/RouterController.thy ===== *)
theory RouterController
  imports RoutePlan
begin

text \<open>
  \<^verbatim>\<open>internal/controller/cellrouter_controller.go\<close>: the reconciler of routers, its writes and
  its deletions. A panic of \<^verbatim>\<open>buildRoutePlans\<close> leaves every caller at once: the functions on
  that path return an option, \<open>None\<close> for the panic. The sets of expected names, which are only
  filled and queried, are lists.
\<close>

section \<open>Status\<close>

definition requeueDelay :: int where
  "requeueDelay = 10 * 10 ^ 9"

definition setRouterCondition ::
    "'w kube \<Rightarrow> CellRouter \<Rightarrow> string \<Rightarrow> string \<Rightarrow> string \<Rightarrow> string \<Rightarrow> ('w, CellRouter) state" where
  "setRouterCondition K router condType status reason message =
     do {
       conds \<leftarrow> k_SetStatusCondition K (crst_Conditions (router_Status router))
         \<lparr>c_Type = condType, c_Status = status, c_ObservedGeneration = om_Generation (router_Meta router),
          c_LastTransitionTime = 0, c_Reason = reason, c_Message = message\<rparr>;
       ret (router\<lparr>router_Status := (router_Status router)\<lparr>crst_Conditions := conds\<rparr>\<rparr>)
     }"

definition patchRouterStatus :: "'w kube \<Rightarrow> CellRouter \<Rightarrow> CellRouter \<Rightarrow> ('w, error option) state" where
  "patchRouterStatus K router base = rc_StatusPatch (k_routers K) router base"

definition patchPlacementReadiness ::
    "'w kube \<Rightarrow> CellPlacement \<Rightarrow> string list \<Rightarrow> string \<Rightarrow> bool \<Rightarrow> ('w, error option) state" where
  "patchPlacementReadiness K placement resolvedBackends reason ready =
     (let base = placement; generation = om_Generation (placement_Meta placement) in
      do {
        conds \<leftarrow> k_SetStatusCondition K (pst_Conditions (placement_Status placement))
          \<lparr>c_Type = CellPlacementReadyCondition,
           c_Status = (if ready then ConditionTrue else ConditionFalse),
           c_ObservedGeneration = generation, c_LastTransitionTime = 0,
           c_Reason = (if ready then ConditionReasonReconciled else ConditionReasonProgressing),
           c_Message = reason\<rparr>;
        rc_StatusPatch (k_placements K)
          (placement\<lparr>placement_Status := \<lparr>pst_ObservedGeneration = generation,
            pst_ResolvedBackends = resolvedBackends, pst_Conditions = conds\<rparr>\<rparr>) base
      })"

section \<open>Gateway\<close>

definition reconcileGatewayNamespace :: "'w kube \<Rightarrow> CellRouter \<Rightarrow> string \<Rightarrow> ('w, error option) state" where
  "reconcileGatewayNamespace K router namespace =
     (if namespace = [] then ret (Some (Errorf ''gateway namespace is required''))
      else do {
        r \<leftarrow> rc_CreateOrUpdate (k_namespaces K) \<lparr>ns_Meta = NewMeta namespace []\<rparr>
          (\<lambda>ns. Inr (MutateGatewayNamespace ns router));
        (case r of Inl err \<Rightarrow> ret (Some err)
         | Inr _ \<Rightarrow> do {
             _ \<leftarrow> eventf K (router_Name router) ''GatewayNamespaceReconciled''
               (''Gateway namespace '' @ namespace @ '' reconciled'');
             ret None }) })"

definition reconcileGateway :: "'w kube \<Rightarrow> CellRouter \<Rightarrow> ('w, error + string) state" where
  "reconcileGateway K router =
     (let spec = crs_Gateway (router_Spec router) in
      do {
        r \<leftarrow> rc_CreateOrUpdate (k_gateways K)
          \<lparr>gw_Meta = NewMeta (gs_Name spec) (gs_Namespace spec), gw_GatewayClassName = [], gw_Listeners = []\<rparr>
          (\<lambda>gw. controlled K ''CellRouter'' (router_Meta router) gw_Meta (\<lambda>m s. s\<lparr>gw_Meta := m\<rparr>)
            (MutateGateway gw router));
        (case r of Inl err \<Rightarrow> ret (Inl err)
         | Inr gateway \<Rightarrow> do {
             _ \<leftarrow> eventf K (router_Name router) ''GatewayReconciled''
               (''Gateway '' @ om_Namespace (gw_Meta gateway) @ ''/'' @ om_Name (gw_Meta gateway) @ '' reconciled'');
             ret (Inr (om_Namespace (gw_Meta gateway) @ ''/'' @ om_Name (gw_Meta gateway))) }) })"

section \<open>Grants and routes\<close>

definition reconcileReferenceGrant ::
    "'w kube \<Rightarrow> CellRouter \<Rightarrow> string \<Rightarrow> string \<Rightarrow> BackendTarget \<Rightarrow> ('w, error option) state" where
  "reconcileReferenceGrant K router routeName gatewayNamespace backend =
     do {
       r \<leftarrow> rc_CreateOrUpdate (k_grants K)
         \<lparr>grant_Meta = NewMeta (ReferenceGrantName routeName backend) (bt_Namespace backend),
          grant_From = [], grant_To = []\<rparr>
         (\<lambda>g. controlled K ''CellRouter'' (router_Meta router) grant_Meta (\<lambda>m s. s\<lparr>grant_Meta := m\<rparr>)
           (MutateReferenceGrant g router routeName (bt_CellRef backend) gatewayNamespace backend));
       (case r of Inl err \<Rightarrow> ret (Some err)
        | Inr g \<Rightarrow> do {
            _ \<leftarrow> eventf K (router_Name router) ''ReferenceGrantReconciled''
              (''ReferenceGrant '' @ om_Namespace (grant_Meta g) @ ''/'' @ om_Name (grant_Meta g) @ '' reconciled'');
            ret None })
     }"

text \<open>The inner loop over the backends of a plan: the grants expected so far, or an error.\<close>

fun grants_loop :: "'w kube \<Rightarrow> CellRouter \<Rightarrow> string \<Rightarrow> string \<Rightarrow> BackendTarget list \<Rightarrow> string list \<Rightarrow>
    ('w, error + string list) state" where
  "grants_loop K router routeName gatewayNamespace [] expectedGrants = ret (Inr expectedGrants)"
| "grants_loop K router routeName gatewayNamespace (backend # backends) expectedGrants =
     do {
       r \<leftarrow> reconcileReferenceGrant K router routeName gatewayNamespace backend;
       (case r of Some err \<Rightarrow> ret (Inl err)
        | None \<Rightarrow> grants_loop K router routeName gatewayNamespace backends
            (ReferenceGrantName routeName backend # expectedGrants))
     }"

text \<open>The managed labels every list query of the router asks for.\<close>

definition managed_labels :: "CellRouter \<Rightarrow> (string \<times> string) list" where
  "managed_labels router = [(ManagedByLabel, OperatorName), (RouterNameLabel, router_Name router)]"

text \<open>A loop that deletes the objects of a list that a condition selects.\<close>

fun delete_loop :: "('o, 'w) resource_client \<Rightarrow> ('o \<Rightarrow> bool) \<Rightarrow> 'o list \<Rightarrow> ('w, error option) state" where
  "delete_loop rc selected [] = ret None"
| "delete_loop rc selected (x # xs) =
     (if \<not> selected x then delete_loop rc selected xs
      else do {
        err \<leftarrow> rc_Delete rc x;
        (case IgnoreNotFound err of Some err \<Rightarrow> ret (Some err) | None \<Rightarrow> delete_loop rc selected xs) })"

definition cleanupStaleRoutes ::
    "'w kube \<Rightarrow> CellRouter \<Rightarrow> string \<Rightarrow> string list \<Rightarrow> ('w, error option) state" where
  "cleanupStaleRoutes K router gatewayNamespace expected =
     do {
       r \<leftarrow> rc_List (k_routes K) (Some gatewayNamespace) (managed_labels router);
       (case r of Inl err \<Rightarrow> ret (Some err)
        | Inr items \<Rightarrow> delete_loop (k_routes K) (\<lambda>route. om_Name (route_Meta route) \<notin> set expected) items)
     }"

definition cleanupStaleReferenceGrants ::
    "'w kube \<Rightarrow> CellRouter \<Rightarrow> string list \<Rightarrow> ('w, error option) state" where
  "cleanupStaleReferenceGrants K router expected =
     do {
       r \<leftarrow> rc_List (k_grants K) None (managed_labels router);
       (case r of Inl err \<Rightarrow> ret (Some err)
        | Inr items \<Rightarrow> delete_loop (k_grants K) (\<lambda>g. om_Name (grant_Meta g) \<notin> set expected) items)
     }"

text \<open>The loop over the invalid placements, in the order Go enumerates the map.\<close>

fun invalid_loop :: "'w kube \<Rightarrow> CellPlacement list \<Rightarrow> (string \<times> string) list \<Rightarrow> ManagedRouteStatus list \<Rightarrow>
    ('w, error option \<times> ManagedRouteStatus list) state" where
  "invalid_loop K placements [] statuses = ret (None, statuses)"
| "invalid_loop K placements ((placementName, reason) # rest) statuses =
     do {
       r \<leftarrow> (case findPlacementByName placements placementName of None \<Rightarrow> ret None
             | Some placement \<Rightarrow> patchPlacementReadiness K placement [] reason False);
       (case r of Some err \<Rightarrow> ret (Some err, statuses)
        | None \<Rightarrow> invalid_loop K placements rest (statuses @
            [\<lparr>mr_Name = placementName, mr_ListenerNames = [], mr_CellRef = [], mr_BackendRefs = [],
              mr_PlacementRef = placementName, mr_Reason = reason, mr_LastTransitionTime = None\<rparr>]))
     }"

record route_pass =
  rp_expectedRoutes :: "string list"
  rp_expectedGrants :: "string list"
  rp_statuses :: "ManagedRouteStatus list"
  rp_allReady :: bool
  rp_needsRequeue :: bool

text \<open>The body of the loop over the plans after the backends of the plan are known.\<close>

definition apply_route :: "'w kube \<Rightarrow> CellRouter \<Rightarrow> string \<Rightarrow> routePlan \<Rightarrow> BackendTarget list \<Rightarrow> ManagedRouteStatus \<Rightarrow>
    route_pass \<Rightarrow> ('w, error + route_pass) state" where
  "apply_route K router gatewayNamespace plan backends routeStatus p =
     do {
       r \<leftarrow> grants_loop K router (plan_name plan) gatewayNamespace backends (rp_expectedGrants p);
       (case r of Inl err \<Rightarrow> ret (Inl err)
        | Inr expectedGrants \<Rightarrow> do {
            r \<leftarrow> rc_CreateOrUpdate (k_routes K)
              \<lparr>route_Meta = NewMeta (plan_name plan) gatewayNamespace,
               route_Spec = \<lparr>hr_ParentRefs = [], hr_Hostnames = [], hr_Rules = []\<rparr>, route_Parents = []\<rparr>
              (\<lambda>route. controlled K ''CellRouter'' (router_Meta router) route_Meta (\<lambda>m s. s\<lparr>route_Meta := m\<rparr>)
                (MutateHTTPRoute route router (plan_spec plan) gatewayNamespace backends (plan_placementRef plan)));
            (case r of Inl err \<Rightarrow> ret (Inl err)
             | Inr httpRoute \<Rightarrow> do {
                 _ \<leftarrow> eventf K (router_Name router) ''HTTPRouteReconciled''
                   (''HTTPRoute '' @ om_Namespace (route_Meta httpRoute) @ ''/'' @ om_Name (route_Meta httpRoute) @
                    '' reconciled'');
                 (case isRouteReady httpRoute (gs_Name (crs_Gateway (router_Spec router))) gatewayNamespace of
                    (routeReady, readyTime) \<Rightarrow>
                      ret (Inr (p\<lparr>rp_expectedRoutes := plan_name plan # rp_expectedRoutes p,
                        rp_expectedGrants := expectedGrants,
                        rp_allReady := rp_allReady p \<and> routeReady,
                        rp_needsRequeue := rp_needsRequeue p \<or> \<not> routeReady,
                        rp_statuses := rp_statuses p @ [routeStatus\<lparr>mr_LastTransitionTime := readyTime\<rparr>]\<rparr>))) }) })
     }"

fun plans_loop :: "'w kube \<Rightarrow> CellRouter \<Rightarrow> string \<Rightarrow> routePlan list \<Rightarrow> route_pass \<Rightarrow> ('w, error + route_pass) state" where
  "plans_loop K router gatewayNamespace [] p = ret (Inr p)"
| "plans_loop K router gatewayNamespace (plan # plans) p =
     do {
       r \<leftarrow> resolveRouteBackends K plan;
       (case r of Inl err \<Rightarrow> ret (Inl err)
        | Inr (backends, backendRefs, reason, routeNeedsRequeue) \<Rightarrow>
            let routeStatus = \<lparr>mr_Name = plan_name plan, mr_ListenerNames = rt_ListenerNames (plan_spec plan),
                  mr_CellRef = rt_CellRef (plan_spec plan), mr_BackendRefs = backendRefs,
                  mr_PlacementRef = plan_placementRef plan, mr_Reason = reason, mr_LastTransitionTime = None\<rparr> in
            do {
              r \<leftarrow> (case plan_placement plan of None \<Rightarrow> ret None
                    | Some placement \<Rightarrow> patchPlacementReadiness K placement backendRefs reason (backends \<noteq> []));
              (case r of Some err \<Rightarrow> ret (Inl err)
               | None \<Rightarrow>
                   if backends = [] then
                     plans_loop K router gatewayNamespace plans
                       (p\<lparr>rp_allReady := False, rp_needsRequeue := rp_needsRequeue p \<or> routeNeedsRequeue,
                         rp_statuses := rp_statuses p @ [routeStatus]\<rparr>)
                   else do {
                     r \<leftarrow> apply_route K router gatewayNamespace plan backends routeStatus p;
                     (case r of Inl err \<Rightarrow> ret (Inl err)
                      | Inr p \<Rightarrow> plans_loop K router gatewayNamespace plans p) }) })
     }"

text \<open>
  The result holds \<^verbatim>\<open>allReady\<close>, \<^verbatim>\<open>needsRequeue\<close> and \<^verbatim>\<open>statuses\<close>; the caller reads them only
  when there is no error, so an error carries no values.
\<close>

definition reconcileRoutes :: "'w kube \<Rightarrow> CellRouter \<Rightarrow> string \<Rightarrow> CellPlacement list \<Rightarrow>
    ('w, (error + bool \<times> bool \<times> ManagedRouteStatus list) option) state" where
  "reconcileRoutes K router gatewayNamespace placements =
     (case buildRoutePlans (k_subexpNames K) router placements of
        None \<Rightarrow> ret None
      | Some (Inl err) \<Rightarrow> ret (Some (Inl err))
      | Some (Inr (plans, invalidPlacements)) \<Rightarrow> do {
          entries \<leftarrow> k_range K invalidPlacements;
          r \<leftarrow> invalid_loop K placements entries [];
          (case r of (Some err, _) \<Rightarrow> ret (Some (Inl err))
           | (None, statuses) \<Rightarrow> do {
               r \<leftarrow> plans_loop K router gatewayNamespace plans
                 \<lparr>rp_expectedRoutes = [], rp_expectedGrants = [], rp_statuses = statuses,
                  rp_allReady = (entries = []), rp_needsRequeue = False\<rparr>;
               (case r of Inl err \<Rightarrow> ret (Some (Inl err))
                | Inr p \<Rightarrow> do {
                    r \<leftarrow> cleanupStaleRoutes K router gatewayNamespace (rp_expectedRoutes p);
                    (case r of Some err \<Rightarrow> ret (Some (Inl err))
                     | None \<Rightarrow> do {
                         r \<leftarrow> cleanupStaleReferenceGrants K router (rp_expectedGrants p);
                         (case r of Some err \<Rightarrow> ret (Some (Inl err))
                          | None \<Rightarrow> ret (Some (Inr (rp_allReady p, rp_needsRequeue p, rp_statuses p)))) }) }) }) })"

section \<open>Deletion\<close>

definition deleteManagedHTTPRoutes :: "'w kube \<Rightarrow> CellRouter \<Rightarrow> string \<Rightarrow> ('w, error option) state" where
  "deleteManagedHTTPRoutes K router namespace =
     do {
       r \<leftarrow> rc_List (k_routes K) (Some namespace) (managed_labels router);
       (case r of Inl err \<Rightarrow> ret (Some err)
        | Inr items \<Rightarrow> delete_loop (k_routes K) (\<lambda>route. k_IsControlledBy K (route_Meta route) (router_Meta router)) items)
     }"

definition deleteManagedReferenceGrants :: "'w kube \<Rightarrow> CellRouter \<Rightarrow> ('w, error option) state" where
  "deleteManagedReferenceGrants K router =
     do {
       r \<leftarrow> rc_List (k_grants K) None (managed_labels router);
       (case r of Inl err \<Rightarrow> ret (Some err)
        | Inr items \<Rightarrow> delete_loop (k_grants K) (\<lambda>g. k_IsControlledBy K (grant_Meta g) (router_Meta router)) items)
     }"

definition deleteManagedGateway :: "'w kube \<Rightarrow> CellRouter \<Rightarrow> ('w, error option) state" where
  "deleteManagedGateway K router =
     (let spec = crs_Gateway (router_Spec router) in
      do {
        r \<leftarrow> rc_Get (k_gateways K) (gs_Namespace spec) (gs_Name spec);
        (case r of Inl err \<Rightarrow> ret (if IsNotFound err then None else Some err)
         | Inr gateway \<Rightarrow>
             if \<not> k_IsControlledBy K (gw_Meta gateway) (router_Meta router) then ret None
             else do { err \<leftarrow> rc_Delete (k_gateways K) gateway; ret (IgnoreNotFound err) }) })"

definition Router_removeFinalizer :: "'w kube \<Rightarrow> CellRouter \<Rightarrow> ('w, reconcile_result) state" where
  "Router_removeFinalizer K router =
     (if k_ContainsFinalizer K (router_Meta router) FinalizerCellRouter then
        do {
          r \<leftarrow> rc_Patch (k_routers K)
            (router\<lparr>router_Meta := k_RemoveFinalizer K (router_Meta router) FinalizerCellRouter\<rparr>) router;
          (case r of Inl err \<Rightarrow> ret (NoRequeue, Some err) | Inr _ \<Rightarrow> ret (NoRequeue, None))
        }
      else ret (NoRequeue, None))"

definition Router_reconcileDeletion :: "'w kube \<Rightarrow> CellRouter \<Rightarrow> ('w, reconcile_result) state" where
  "Router_reconcileDeletion K router =
     do {
       r \<leftarrow> deleteManagedHTTPRoutes K router (gs_Namespace (crs_Gateway (router_Spec router)));
       (case r of Some err \<Rightarrow> ret (NoRequeue, Some err)
        | None \<Rightarrow> do {
            r \<leftarrow> deleteManagedReferenceGrants K router;
            (case r of Some err \<Rightarrow> ret (NoRequeue, Some err)
             | None \<Rightarrow> do {
                 r \<leftarrow> deleteManagedGateway K router;
                 (case r of Some err \<Rightarrow> ret (NoRequeue, Some err)
                  | None \<Rightarrow> Router_removeFinalizer K router) }) })
     }"

section \<open>Reconciliation\<close>

definition Router_ensureFinalizer :: "'w kube \<Rightarrow> CellRouter \<Rightarrow> ('w, error + CellRouter) state" where
  "Router_ensureFinalizer K router =
     (if k_ContainsFinalizer K (router_Meta router) FinalizerCellRouter then ret (Inr router)
      else rc_Patch (k_routers K)
        (router\<lparr>router_Meta := k_AddFinalizer K (router_Meta router) FinalizerCellRouter\<rparr>) router)"

text \<open>The error branches of \<^verbatim>\<open>reconcileNormal\<close> differ in a condition and a message.\<close>

definition router_failed :: "'w kube \<Rightarrow> CellRouter \<Rightarrow> CellRouter \<Rightarrow> string \<Rightarrow> string \<Rightarrow> error \<Rightarrow>
    ('w, reconcile_result) state" where
  "router_failed K router statusBase condType message err =
     do {
       router \<leftarrow> setRouterCondition K router condType ConditionFalse ConditionReasonError (Error err);
       router \<leftarrow> setRouterCondition K router CellRouterReadyCondition ConditionFalse ConditionReasonError message;
       _ \<leftarrow> patchRouterStatus K router statusBase;
       ret (NoRequeue, Some err)
     }"

text \<open>The part of \<^verbatim>\<open>reconcileNormal\<close> after the routes are reconciled.\<close>

definition publish_router :: "'w kube \<Rightarrow> CellRouter \<Rightarrow> CellRouter \<Rightarrow> string \<Rightarrow> bool \<Rightarrow> bool \<Rightarrow> ManagedRouteStatus list \<Rightarrow>
    ('w, reconcile_result) state" where
  "publish_router K router statusBase gatewayRef routesReady needsRequeue managedRoutes =
     (let router = router\<lparr>router_Status := (router_Status router)\<lparr>crst_ManagedGatewayRef := gatewayRef,
            crst_ManagedRoutes := managedRoutes, crst_ObservedGeneration := om_Generation (router_Meta router)\<rparr>\<rparr> in
      do {
        router \<leftarrow> setRouterCondition K router CellRouterRoutesReadyCondition
          (if routesReady then ConditionTrue else ConditionFalse)
          (if routesReady then ConditionReasonReconciled else ConditionReasonProgressing)
          (if routesReady then ''routes reconciled'' else ''waiting for all routes to become traffic-ready'');
        router \<leftarrow> setRouterCondition K router CellRouterReadyCondition
          (if routesReady then ConditionTrue else ConditionFalse)
          (if routesReady then ConditionReasonReconciled else ConditionReasonProgressing)
          (if routesReady then ''router is ready''
           else ''router is waiting for all routes to become traffic-ready'');
        r \<leftarrow> patchRouterStatus K router statusBase;
        (case r of Some err \<Rightarrow> ret (NoRequeue, Some err)
         | None \<Rightarrow> if needsRequeue then ret (\<lparr>res_RequeueAfter = requeueDelay\<rparr>, None)
             else ret (NoRequeue, None))
      })"

definition Router_reconcileNormal :: "'w kube \<Rightarrow> CellRouter \<Rightarrow> ('w, reconcile_result option) state" where
  "Router_reconcileNormal K router =
     (let statusBase = router; gatewayNamespace = gs_Namespace (crs_Gateway (router_Spec router)) in
      do {
        r \<leftarrow> reconcileGatewayNamespace K router gatewayNamespace;
        (case r of Some err \<Rightarrow> do {
           res \<leftarrow> router_failed K router statusBase CellRouterGatewayReadyCondition
             ''gateway namespace reconciliation failed'' err; ret (Some res) }
         | None \<Rightarrow> do {
        r \<leftarrow> reconcileGateway K router;
        (case r of Inl err \<Rightarrow> do {
           res \<leftarrow> router_failed K router statusBase CellRouterGatewayReadyCondition
             ''gateway reconciliation failed'' err; ret (Some res) }
         | Inr gatewayRef \<Rightarrow> do {
        router \<leftarrow> setRouterCondition K router CellRouterGatewayReadyCondition ConditionTrue
          ConditionReasonReconciled ''gateway reconciled'';
        r \<leftarrow> listPlacements K (router_Name router);
        (case r of Inl err \<Rightarrow> do {
           res \<leftarrow> router_failed K router statusBase CellRouterRoutesReadyCondition
             ''placement discovery failed'' err; ret (Some res) }
         | Inr placements \<Rightarrow> do {
        r \<leftarrow> reconcileRoutes K router gatewayNamespace placements;
        (case r of None \<Rightarrow> ret None
         | Some (Inl err) \<Rightarrow> do {
             res \<leftarrow> router_failed K router statusBase CellRouterRoutesReadyCondition
               ''route reconciliation failed'' err; ret (Some res) }
         | Some (Inr (routesReady, needsRequeue, managedRoutes)) \<Rightarrow> do {
             res \<leftarrow> publish_router K router statusBase gatewayRef routesReady needsRequeue managedRoutes;
             ret (Some res) }) }) }) }) })"

definition Router_Reconcile :: "'w kube \<Rightarrow> string \<times> string \<Rightarrow> ('w, reconcile_result option) state" where
  "Router_Reconcile K req =
     do {
       r \<leftarrow> rc_Get (k_routers K) (fst req) (snd req);
       (case r of Inl err \<Rightarrow> ret (Some (NoRequeue, if IsNotFound err then None else Some err))
        | Inr router \<Rightarrow>
            if \<not> Time_IsZero (om_DeletionTimestamp (router_Meta router)) then
              do { res \<leftarrow> Router_reconcileDeletion K router; ret (Some res) }
            else do {
              r \<leftarrow> Router_ensureFinalizer K router;
              (case r of Inl err \<Rightarrow> ret (Some (NoRequeue, Some err))
               | Inr router \<Rightarrow> Router_reconcileNormal K router) })
     }"

section \<open>Watches\<close>

definition requestsForCell :: "'w kube \<Rightarrow> ('w, (string \<times> string) list) state" where
  "requestsForCell K =
     do {
       r \<leftarrow> rc_List (k_routers K) None [];
       (case r of Inl err \<Rightarrow> ret []
        | Inr items \<Rightarrow> ret (map (\<lambda>router. ([], router_Name router)) items))
     }"

text \<open>\<open>None\<close> is an object of another type.\<close>

definition requestsForPlacement :: "CellPlacement option \<Rightarrow> (string \<times> string) list" where
  "requestsForPlacement obj =
     (case obj of None \<Rightarrow> []
      | Some placement \<Rightarrow> if ps_RouterRef (placement_Spec placement) = [] then []
          else [([], ps_RouterRef (placement_Spec placement))])"

section \<open>What the router may delete\<close>

lemma keeps_delete_loop:
  assumes "stores rc meta x present" "\<not> selected x"
    and "\<forall>y\<in>set ys. meta_key (meta y) = meta_key (meta x) \<longrightarrow> y = x"
  shows "keeps present (delete_loop rc selected ys)"
  using assms(3)
proof (induction ys)
  case (Cons y ys)
  have "selected y \<Longrightarrow> keeps present (rc_Delete rc y)"
    using assms(1,2) Cons.prems by (auto simp: stores_def)
  with Cons show ?case by (auto intro!: keeps_intros)
qed (simp add: keeps_return)

lemma keeps_delete_loop_any:
  "deletes_keep I rc (\<lambda>_. True) \<Longrightarrow> keeps I (delete_loop rc selected ys)"
  by (induction ys) (auto intro!: keeps_intros keeps_delete [where allowed = "\<lambda>_. True"])

text \<open>The pattern of every deletion by label: list, then delete what is selected.\<close>

lemma keeps_list_delete:
  assumes "stores rc meta x present" "\<not> selected x"
  shows "keeps present (bnd (rc_List rc ns ls) (\<lambda>r. case r of Inl err \<Rightarrow> ret (f err)
    | Inr ys \<Rightarrow> delete_loop rc selected ys))"
  unfolding keeps_def
proof (rule triple_bind)
  show "triple present (rc_List rc ns ls) (\<lambda>r w. present w \<and>
      (\<forall>ys. r = Inr ys \<longrightarrow> (\<forall>y\<in>set ys. meta_key (meta y) = meta_key (meta x) \<longrightarrow> y = x)))"
    using assms(1) by (simp add: stores_def)
  fix r
  show "triple (\<lambda>w. present w \<and> (\<forall>ys. r = Inr ys \<longrightarrow> (\<forall>y\<in>set ys. meta_key (meta y) = meta_key (meta x) \<longrightarrow> y = x)))
      (case r of Inl err \<Rightarrow> ret (f err) | Inr ys \<Rightarrow> delete_loop rc selected ys) (\<lambda>_. present)"
    using keeps_delete_loop [where selected = selected, OF assms]
    by (cases r) (auto simp: keeps_def triple_def)
qed

text \<open>
  The object whose presence is at stake is of this kind and not selected for deletion, or it is
  of another kind, which reads and deletions of this kind leave alone.
\<close>

definition guarded :: "('o, 'w) resource_client \<Rightarrow> ('o \<Rightarrow> ObjectMeta) \<Rightarrow> ('o \<Rightarrow> bool) \<Rightarrow> ('w \<Rightarrow> bool) \<Rightarrow> bool" where
  "guarded rc meta selected present \<longleftrightarrow>
     (\<exists>x. stores rc meta x present \<and> \<not> selected x) \<or>
     (reads_keep present rc \<and> deletes_keep present rc (\<lambda>_. True))"

lemma keeps_guarded_list:
  assumes "guarded rc meta selected present"
  shows "keeps present (bnd (rc_List rc ns ls) (\<lambda>r. case r of Inl err \<Rightarrow> ret (f err)
    | Inr ys \<Rightarrow> delete_loop rc selected ys))"
proof (cases "\<exists>x. stores rc meta x present \<and> \<not> selected x")
  case True
  then show ?thesis by (auto intro: keeps_list_delete)
next
  case False
  with assms show ?thesis unfolding guarded_def by (intro keeps_intros keeps_delete_loop_any) auto
qed

lemma keeps_guarded_get:
  assumes "guarded rc meta selected present"
  shows "keeps present (bnd (rc_Get rc ns n) (\<lambda>r. case r of Inl err \<Rightarrow> ret (f err)
    | Inr y \<Rightarrow> if \<not> selected y then ret b else bnd (rc_Delete rc y) (\<lambda>err. ret (g err))))"
proof (cases "\<exists>x. stores rc meta x present \<and> \<not> selected x")
  case True
  then obtain x where "stores rc meta x present" "\<not> selected x" by blast
  then show ?thesis by (rule keeps_guarded_delete)
next
  case False
  with assms have "reads_keep present rc" "deletes_keep present rc (\<lambda>_. True)" by (auto simp: guarded_def)
  then show ?thesis by (intro keeps_intros keeps_delete [where allowed = "\<lambda>_. True"]) auto
qed

section \<open>Properties\<close>

text \<open>
  C14: reconciling a router that is being deleted never deletes a route, a reference grant or
  a gateway that the router does not control, whatever labels it carries and whatever the API
  answers: the presence of such an object survives the whole pass.
\<close>

theorem router_deletion_safe:
  assumes "guarded (k_routes K) route_Meta (\<lambda>x. k_IsControlledBy K (route_Meta x) (router_Meta router)) present"
    and "guarded (k_grants K) grant_Meta (\<lambda>x. k_IsControlledBy K (grant_Meta x) (router_Meta router)) present"
    and "guarded (k_gateways K) gw_Meta (\<lambda>x. k_IsControlledBy K (gw_Meta x) (router_Meta router)) present"
    and "patches_keep present (k_routers K)"
    and "present w"
  shows "present (snd (run_state (Router_reconcileDeletion K router) w))"
proof (rule keeps_run [where I = present, OF _ assms(5)])
  have "keeps present (deleteManagedHTTPRoutes K router n)" for n
    unfolding deleteManagedHTTPRoutes_def by (rule keeps_guarded_list [OF assms(1)])
  moreover have "keeps present (deleteManagedReferenceGrants K router)"
    unfolding deleteManagedReferenceGrants_def by (rule keeps_guarded_list [OF assms(2)])
  moreover have "keeps present (deleteManagedGateway K router)"
    unfolding deleteManagedGateway_def Let_def by (rule keeps_guarded_get [OF assms(3)])
  moreover have "keeps present (Router_removeFinalizer K router)"
    unfolding Router_removeFinalizer_def using assms(4) by (intro keeps_intros)
  ultimately show "keeps present (Router_reconcileDeletion K router)"
    unfolding Router_reconcileDeletion_def by (intro keeps_intros) auto
qed

definition foreign_gateway :: Gateway where
  "foreign_gateway = \<lparr>gw_Meta = NewMeta ''gw'' ''infra'', gw_GatewayClassName = ''other'', gw_Listeners = []\<rparr>"

theorem router_deletion_safe_witness:
  "foreign_gateway \<in> set (db_gateways (snd (run_state (Router_reconcileDeletion mem_kube example_router)
     (empty_cluster\<lparr>db_gateways := [foreign_gateway]\<rparr>))))"
proof -
  let ?present = "\<lambda>w. only_stored gw_Meta foreign_gateway (db_gateways w)"
  have "stores (k_gateways mem_kube) gw_Meta foreign_gateway ?present"
    by (simp add: mem_kube_def mem_client_stores)
  moreover have "\<not> k_IsControlledBy mem_kube (gw_Meta foreign_gateway) (router_Meta example_router)"
    by (simp add: mem_kube_def is_controlled_def foreign_gateway_def NewMeta_def)
  ultimately have g: "guarded (k_gateways mem_kube) gw_Meta
      (\<lambda>x. k_IsControlledBy mem_kube (gw_Meta x) (router_Meta example_router)) ?present"
    unfolding guarded_def by blast
  have "?present (snd (run_state (Router_reconcileDeletion mem_kube example_router)
      (empty_cluster\<lparr>db_gateways := [foreign_gateway]\<rparr>)))"
    by (rule router_deletion_safe [OF _ _ g])
      (simp_all add: guarded_def mem_kube_def mem_client_reads mem_client_keeps, simp add: only_stored_def)
  then show ?thesis by (simp add: only_stored_def)
qed

text \<open>
  The clean-up of stale routes never deletes a route with an expected name.
\<close>

lemma expected_route_kept:
  assumes "stores (k_routes K) route_Meta route present" "om_Name (route_Meta route) \<in> set expected" "present w"
  shows "present (snd (run_state (cleanupStaleRoutes K router gatewayNamespace expected) w))"
  unfolding cleanupStaleRoutes_def
  by (rule keeps_run [where I = present, OF keeps_list_delete [OF assms(1)] assms(3)]) (use assms(2) in simp)

definition labelled_route :: HTTPRoute where
  "labelled_route =
     \<lparr>route_Meta = (NewMeta ''r'' ''infra'')\<lparr>om_Labels := gomap_lit (managed_labels example_router)\<rparr>,
      route_Spec = \<lparr>hr_ParentRefs = [], hr_Hostnames = [], hr_Rules = []\<rparr>, route_Parents = []\<rparr>"

text \<open>
  The second half of the witness: with another expected name the same route, which the router
  does not control, is deleted by its labels alone.
\<close>

lemma expected_route_kept_witness:
  "labelled_route \<in> set (db_routes (snd (run_state (cleanupStaleRoutes mem_kube example_router ''infra'' [''r''])
      (empty_cluster\<lparr>db_routes := [labelled_route]\<rparr>)))) \<and>
   \<not> is_controlled (route_Meta labelled_route) (router_Meta example_router) \<and>
   db_routes (snd (run_state (cleanupStaleRoutes mem_kube example_router ''infra'' [''s''])
      (empty_cluster\<lparr>db_routes := [labelled_route]\<rparr>))) = []"
proof (intro conjI)
  let ?present = "\<lambda>w. only_stored route_Meta labelled_route (db_routes w)"
  have "stores (k_routes mem_kube) route_Meta labelled_route ?present"
    by (simp add: mem_kube_def mem_client_stores)
  from expected_route_kept [OF this, of "[''r'']"]
  show "labelled_route \<in> set (db_routes (snd (run_state (cleanupStaleRoutes mem_kube example_router ''infra'' [''r''])
      (empty_cluster\<lparr>db_routes := [labelled_route]\<rparr>))))"
    by (simp add: only_stored_def) (simp add: labelled_route_def NewMeta_def)
  show "\<not> is_controlled (route_Meta labelled_route) (router_Meta example_router)"
    by (simp add: is_controlled_def labelled_route_def NewMeta_def)
  show "db_routes (snd (run_state (cleanupStaleRoutes mem_kube example_router ''infra'' [''s''])
      (empty_cluster\<lparr>db_routes := [labelled_route]\<rparr>))) = []"
    by (simp add: cleanupStaleRoutes_def mem_kube_def mem_client_def labelled_route_def has_labels_def has_key_def
        managed_labels_def NewMeta_def IgnoreNotFound_def)
qed

end
