(* ===== verification/RouterStatus.thy ===== *)
theory RouterStatus
  imports RouterController
begin

text \<open>
  The status that a pass of the router reconciler publishes
  (\<^verbatim>\<open>internal/controller/cellrouter_controller.go\<close>, \<^verbatim>\<open>reconcileNormal\<close>): the contract of the
  status conditions is interpreted on routers, and the outcome of a whole successful pass is
  described from the placements the API lists.
\<close>

section \<open>What the packages keep\<close>

text \<open>The steps before the placements are listed, and those of a pass that write no route.\<close>

definition gateway_packages_keep :: "('w \<Rightarrow> bool) \<Rightarrow> 'w kube \<Rightarrow> bool" where
  "gateway_packages_keep I K \<longleftrightarrow>
     helpers_keep I K \<and> applies_keep I (k_namespaces K) \<and> applies_keep I (k_gateways K)"

definition grant_packages_keep :: "('w \<Rightarrow> bool) \<Rightarrow> 'w kube \<Rightarrow> bool" where
  "grant_packages_keep I K \<longleftrightarrow>
     helpers_keep I K \<and> applies_keep I (k_grants K) \<and> reads_keep I (k_grants K) \<and>
     deletes_keep I (k_grants K) (\<lambda>_. True) \<and> status_patches_keep I (k_placements K)"

definition route_packages_keep :: "('w \<Rightarrow> bool) \<Rightarrow> 'w kube \<Rightarrow> bool" where
  "route_packages_keep I K \<longleftrightarrow>
     grant_packages_keep I K \<and> applies_keep I (k_routes K) \<and> reads_keep I (k_routes K) \<and>
     deletes_keep I (k_routes K) (\<lambda>_. True) \<and> reads_keep I (k_cells K)"

definition router_packages_keep :: "('w \<Rightarrow> bool) \<Rightarrow> 'w kube \<Rightarrow> bool" where
  "router_packages_keep I K \<longleftrightarrow>
     gateway_packages_keep I K \<and> route_packages_keep I K \<and> reads_keep I (k_placements K)"

lemma route_packages_parts:
  assumes "route_packages_keep I K"
  shows "grant_packages_keep I K" "helpers_keep I K" "reads_keep I (k_cells K)"
  using assms by (simp_all add: route_packages_keep_def grant_packages_keep_def)

lemma gateway_packages_conj:
  "gateway_packages_keep I K \<Longrightarrow> gateway_packages_keep J K \<Longrightarrow> gateway_packages_keep (\<lambda>w. I w \<and> J w) K"
  unfolding gateway_packages_keep_def helpers_keep_def applies_keep_def by (auto intro!: keeps_conj)

lemma keeps_reconcileGatewayNamespace [keeps_intros]:
  "gateway_packages_keep I K \<Longrightarrow> keeps I (reconcileGatewayNamespace K router ns)"
  unfolding reconcileGatewayNamespace_def gateway_packages_keep_def by (intro keeps_intros) auto

lemma keeps_reconcileGateway [keeps_intros]:
  "gateway_packages_keep I K \<Longrightarrow> keeps I (reconcileGateway K router)"
  unfolding reconcileGateway_def gateway_packages_keep_def Let_def by (intro keeps_intros) auto

lemma keeps_patchPlacementReadiness [keeps_intros]:
  "grant_packages_keep I K \<Longrightarrow> keeps I (patchPlacementReadiness K p bs reason ready)"
  unfolding patchPlacementReadiness_def grant_packages_keep_def Let_def by (intro keeps_intros) auto

lemma keeps_reconcileReferenceGrant [keeps_intros]:
  "grant_packages_keep I K \<Longrightarrow> keeps I (reconcileReferenceGrant K router name ns b)"
  unfolding reconcileReferenceGrant_def grant_packages_keep_def by (intro keeps_intros) auto

lemma keeps_grants_loop [keeps_intros]:
  "grant_packages_keep I K \<Longrightarrow> keeps I (grants_loop K router name ns bs gs)"
  by (induction bs arbitrary: gs) (auto intro!: keeps_intros)

lemma keeps_candidates_loop [keeps_intros]:
  "reads_keep I (k_cells K) \<Longrightarrow> keeps I (candidates_loop K refs bs names issues)"
proof (induction refs arbitrary: bs names issues)
  case (Cons ref refs)
  then have "keeps I (rc_Get (k_cells K) [] (br_CellRef ref))"
    by (auto intro: keeps_intros)
  with Cons show ?case by (auto intro!: keeps_intros split: bool.splits)
qed (simp add: keeps_return)

lemma keeps_resolveRouteBackends [keeps_intros]:
  "reads_keep I (k_cells K) \<Longrightarrow> keeps I (resolveRouteBackends K plan)"
  unfolding resolveRouteBackends_def resolveBackendCandidates_def Let_def by (intro keeps_intros)

lemma keeps_invalid_loop [keeps_intros]:
  "grant_packages_keep I K \<Longrightarrow> keeps I (invalid_loop K ps entries ss)"
  by (induction K ps entries ss rule: invalid_loop.induct) (auto intro!: keeps_intros)

lemma keeps_apply_route [keeps_intros]:
  assumes "route_packages_keep I K"
  shows "keeps I (apply_route K router ns plan bs st p)"
proof -
  have "applies_keep I (k_routes K)" using assms by (simp add: route_packages_keep_def)
  with route_packages_parts [OF assms] show ?thesis unfolding apply_route_def by (intro keeps_intros)
qed

lemma keeps_plans_loop [keeps_intros]:
  "route_packages_keep I K \<Longrightarrow> keeps I (plans_loop K router ns plans p)"
  by (induction plans arbitrary: p) (auto simp: Let_def intro!: keeps_intros dest: route_packages_parts(1,3))

lemma keeps_cleanupStaleReferenceGrants [keeps_intros]:
  "grant_packages_keep I K \<Longrightarrow> keeps I (cleanupStaleReferenceGrants K router expected)"
  unfolding cleanupStaleReferenceGrants_def grant_packages_keep_def
  by (auto intro!: keeps_intros keeps_delete_loop_any)

lemma keeps_cleanupStaleRoutes [keeps_intros]:
  "route_packages_keep I K \<Longrightarrow> keeps I (cleanupStaleRoutes K router ns expected)"
  unfolding cleanupStaleRoutes_def route_packages_keep_def
  by (auto intro!: keeps_intros keeps_delete_loop_any)

lemma keeps_reconcileRoutes [keeps_intros]:
  assumes "route_packages_keep I K"
  shows "keeps I (reconcileRoutes K router ns placements)"
  using assms route_packages_parts [OF assms] unfolding reconcileRoutes_def by (intro keeps_intros)

section \<open>What a pass over the routes reports\<close>

abbreviation yields :: "('w, 'a) state \<Rightarrow> ('a \<Rightarrow> bool) \<Rightarrow> bool" where
  "yields m Q \<equiv> triple (\<lambda>_. True) m (\<lambda>r _. Q r)"

lemma yields_bind: "yields m R \<Longrightarrow> (\<And>x. R x \<Longrightarrow> yields (f x) Q) \<Longrightarrow> yields (bnd m f) Q"
  by (simp add: triple_def split: prod.splits) (metis fst_conv)

lemma yields_bind_any: "(\<And>x. yields (f x) Q) \<Longrightarrow> yields (bnd m f) Q"
  by (simp add: triple_def split: prod.splits)

lemma candidates_yield:
  "names = map bt_CellRef backends \<Longrightarrow> yields (candidates_loop K refs backends names issues)
     (\<lambda>r. \<forall>bs ns is. r = Inr (bs, ns, is) \<longrightarrow> ns = map bt_CellRef bs)"
proof (induction refs arbitrary: backends names issues)
  case (Cons ref refs)
  show ?case
    unfolding candidates_loop.simps
  proof (rule yields_bind_any, rule triple_case_sum, rule triple_if, goal_cases)
    case (3 r cell)
    have "yields (candidates_loop K refs backends names (issues @ [m]))
        (\<lambda>r. \<forall>bs ns is. r = Inr (bs, ns, is) \<longrightarrow> ns = map bt_CellRef bs)" for m
      using Cons by blast
    moreover have "yields (candidates_loop K refs (backends @ [b\<lparr>bt_Weight := br_Weight ref, bt_CellRef := br_CellRef ref\<rparr>])
        (names @ [br_CellRef ref]) issues) (\<lambda>r. \<forall>bs ns is. r = Inr (bs, ns, is) \<longrightarrow> ns = map bt_CellRef bs)" for b
      by (rule Cons.IH) (simp add: Cons.prems)
    ultimately show ?case by (auto split: prod.splits bool.splits sum.splits)
  qed (use Cons in \<open>auto intro: triple_return\<close>)
qed (simp add: triple_return)

lemma resolve_yields:
  "yields (resolveRouteBackends K plan) (\<lambda>r. \<forall>bs ns reason requeue.
     r = Inr (bs, ns, reason, requeue) \<longrightarrow> ns = map bt_CellRef bs \<and> requeue = (bs = []))"
proof -
  have c: "yields (resolveBackendCandidates K refs) (\<lambda>r. \<forall>bs ns is. r = Inr (bs, ns, is) \<longrightarrow> ns = map bt_CellRef bs)" for refs
    unfolding resolveBackendCandidates_def by (rule candidates_yield) simp
  show ?thesis
    unfolding resolveRouteBackends_def
    by (rule yields_bind [OF c], rule triple_case_sum, rule triple_return, simp, rule triple_case_prod,
        rule triple_case_prod, rule triple_if, rule triple_return, simp, rule triple_case_option, rule triple_return, simp,
        rule yields_bind [OF c], rule triple_case_sum, rule triple_return, simp, rule triple_case_prod,
        rule triple_case_prod, rule triple_if, rule triple_return, simp)
      (simp add: Let_def triple_return)
qed

text \<open>
  What the gateway says of a route: one of its parent statuses is by the gateway of this name,
  in this namespace or in none, accepts the route, and resolves its references if it speaks of
  them.
\<close>

definition gateway_accepts :: "string \<Rightarrow> string \<Rightarrow> RouteParentStatus list \<Rightarrow> bool" where
  "gateway_accepts name ns parents \<longleftrightarrow>
     (\<exists>p\<in>set parents. pr_Name (rps_ParentRef p) = name \<and>
        (pr_Namespace (rps_ParentRef p) = None \<or> pr_Namespace (rps_ParentRef p) = Some ns) \<and>
        (\<exists>c\<in>set (rps_Conditions p). c_Type c = ''Accepted'' \<and> c_Status c = ''True'') \<and>
        ((\<forall>c\<in>set (rps_Conditions p). c_Type c \<noteq> ''ResolvedRefs'') \<or>
         (\<exists>c\<in>set (rps_Conditions p). c_Type c = ''ResolvedRefs'' \<and> c_Status c = ''True'')))"

lemma isRouteReady_accepts:
  "fst (isRouteReady route name ns) \<longleftrightarrow> gateway_accepts name ns (route_Parents route)"
  "snd (isRouteReady route name ns) \<noteq> None \<longleftrightarrow> gateway_accepts name ns (route_Parents route)"
proof -
  show "fst (isRouteReady route name ns) \<longleftrightarrow> gateway_accepts name ns (route_Parents route)"
    unfolding isRouteReady_def scan_parents_ready parent_ready_def gateway_accepts_def
    by (intro bex_cong refl) auto
  then show "snd (isRouteReady route name ns) \<noteq> None \<longleftrightarrow> gateway_accepts name ns (route_Parents route)"
    unfolding isRouteReady_def scan_parents_time [symmetric] .
qed

text \<open>
  The server keeps the parent statuses apart from what the operator writes: in the worlds of
  \<open>settled\<close> the route with the key \<open>k\<close> has the parent statuses \<open>parents k\<close>, and none while it is
  not stored. A create-or-update whose mutation leaves them and the key alone stays in these
  worlds and returns the route with its parent statuses. The other calls of a pass over the
  routes stay in them too: nobody else changes the statuses during the pass.
\<close>

definition route_statuses_settled :: "'w kube \<Rightarrow> (string \<times> string \<Rightarrow> RouteParentStatus list) \<Rightarrow> ('w \<Rightarrow> bool) \<Rightarrow> bool" where
  "route_statuses_settled K parents settled \<longleftrightarrow>
     grant_packages_keep settled K \<and> reads_keep settled (k_cells K) \<and>
     (\<forall>kind owner m m'. k_SetControllerReference K kind owner m = Inr m' \<longrightarrow> meta_key m' = meta_key m) \<and>
     (\<forall>obj f. route_Parents obj = [] \<longrightarrow>
        (\<forall>x y. f x = Inr y \<longrightarrow> route_Parents y = route_Parents x \<and> meta_key (route_Meta y) = meta_key (route_Meta x)) \<longrightarrow>
        triple settled (rc_CreateOrUpdate (k_routes K) obj f) (\<lambda>r w. settled w \<and>
          (\<forall>x. r = Inr x \<longrightarrow> route_Parents x = parents (meta_key (route_Meta obj)))))"

text \<open>A status that counts as ready: the route has backends and a time of transition.\<close>

definition status_ready :: "ManagedRouteStatus \<Rightarrow> bool" where
  "status_ready s \<longleftrightarrow> mr_BackendRefs s \<noteq> [] \<and> mr_LastTransitionTime s \<noteq> None"

text \<open>The status of a plan has a time of transition exactly when it has backends and is accepted.\<close>

definition status_of_plan :: "(string \<Rightarrow> bool) \<Rightarrow> routePlan \<Rightarrow> ManagedRouteStatus \<Rightarrow> bool" where
  "status_of_plan accepted plan s \<longleftrightarrow> mr_Name s = plan_name plan \<and>
     (mr_LastTransitionTime s \<noteq> None \<longleftrightarrow> mr_BackendRefs s \<noteq> [] \<and> accepted (plan_name plan))"

text \<open>The pass after some more plans: one status per plan, and the flags they give.\<close>

definition pass_with :: "route_pass \<Rightarrow> ManagedRouteStatus list \<Rightarrow> route_pass \<Rightarrow> bool" where
  "pass_with p ss p' \<longleftrightarrow>
     rp_statuses p' = rp_statuses p @ ss \<and>
     rp_allReady p' = (rp_allReady p \<and> list_all status_ready ss) \<and>
     rp_needsRequeue p' = (rp_needsRequeue p \<or> \<not> list_all status_ready ss)"

definition pass_after :: "(string \<Rightarrow> bool) \<Rightarrow> route_pass \<Rightarrow> routePlan list \<Rightarrow> route_pass \<Rightarrow> bool" where
  "pass_after accepted p plans p' \<longleftrightarrow> (\<exists>ss. list_all2 (status_of_plan accepted) plans ss \<and> pass_with p ss p')"

lemma pass_with_append: "pass_with p ss p1 \<Longrightarrow> pass_with p1 ss' p2 \<Longrightarrow> pass_with p (ss @ ss') p2"
  by (auto simp: pass_with_def)

lemma pass_after_Cons:
  assumes "pass_after accepted p [plan] p1" "pass_after accepted p1 plans p2"
  shows "pass_after accepted p (plan # plans) p2"
proof -
  from assms(1) obtain ss where ss: "list_all2 (status_of_plan accepted) [plan] ss" "pass_with p ss p1"
    unfolding pass_after_def by blast
  from assms(2) obtain ss' where ss': "list_all2 (status_of_plan accepted) plans ss'" "pass_with p1 ss' p2"
    unfolding pass_after_def by blast
  have "list_all2 (status_of_plan accepted) (plan # plans) (ss @ ss')"
    using list_all2_appendI [OF ss(1) ss'(1)] by simp
  then show ?thesis unfolding pass_after_def using pass_with_append [OF ss(2) ss'(2)] by blast
qed

lemma triple_route:
  assumes "route_statuses_settled K parents settled"
  shows "triple settled (rc_CreateOrUpdate (k_routes K)
      \<lparr>route_Meta = NewMeta name ns, route_Spec = spec, route_Parents = []\<rparr>
      (\<lambda>route. controlled K kind owner route_Meta (\<lambda>m s. s\<lparr>route_Meta := m\<rparr>)
        (MutateHTTPRoute route router rspec ns backends pref)))
    (\<lambda>r w. (\<forall>x. r = Inr x \<longrightarrow> route_Parents x = parents (ns, name)) \<and> settled w)"
proof -
  let ?f = "\<lambda>route. controlled K kind owner route_Meta (\<lambda>m s. s\<lparr>route_Meta := m\<rparr>)
        (MutateHTTPRoute route router rspec ns backends pref)"
  let ?obj = "\<lparr>route_Meta = NewMeta name ns, route_Spec = spec, route_Parents = []\<rparr>"
  have f: "\<forall>x y. ?f x = Inr y \<longrightarrow> route_Parents y = route_Parents x \<and> meta_key (route_Meta y) = meta_key (route_Meta x)"
    using assms
    by (auto simp: controlled_def route_statuses_settled_def MutateHTTPRoute_def Let_def split: sum.splits)
  have "triple settled (rc_CreateOrUpdate (k_routes K) ?obj ?f) (\<lambda>r w. settled w \<and>
      (\<forall>x. r = Inr x \<longrightarrow> route_Parents x = parents (meta_key (route_Meta ?obj))))"
    using assms [unfolded route_statuses_settled_def, THEN conjunct2, THEN conjunct2, THEN conjunct2,
        THEN spec, of ?obj, THEN spec, of ?f] f by simp
  then show ?thesis by (rule triple_weaken) (simp_all add: NewMeta_def)
qed

lemma apply_route_reports:
  fixes K :: "'w kube" and router gns parents
  defines "accepted \<equiv> \<lambda>name. gateway_accepts (gs_Name (crs_Gateway (router_Spec router))) gns (parents (gns, name))"
  assumes settled: "route_statuses_settled K parents settled"
    and "mr_Name st = plan_name plan" "mr_BackendRefs st \<noteq> []"
  shows "triple settled (apply_route K router gns plan backends st p)
    (\<lambda>r w. (\<forall>p'. r = Inr p' \<longrightarrow> pass_after accepted p [plan] p') \<and> settled w)"
proof -
  have step: "pass_after accepted p [plan] (p\<lparr>rp_expectedRoutes := e, rp_expectedGrants := g,
      rp_allReady := rp_allReady p \<and> ready, rp_needsRequeue := rp_needsRequeue p \<or> \<not> ready,
      rp_statuses := rp_statuses p @ [st\<lparr>mr_LastTransitionTime := t\<rparr>]\<rparr>)"
    if "isRouteReady route (gs_Name (crs_Gateway (router_Spec router))) gns = (ready, t)"
      "route_Parents route = parents (gns, plan_name plan)" for e g ready t route
    using assms(3,4) that isRouteReady_accepts [of route "gs_Name (crs_Gateway (router_Spec router))" gns]
    by (auto simp: accepted_def pass_after_def pass_with_def status_ready_def status_of_plan_def
        intro!: exI [of _ "[st\<lparr>mr_LastTransitionTime := t\<rparr>]"])
  have grants: "grant_packages_keep settled K" and helpers: "helpers_keep settled K"
    using settled by (simp_all add: route_statuses_settled_def grant_packages_keep_def)
  show ?thesis
    unfolding apply_route_def
    by (rule triple_keeps [OF keeps_grants_loop [OF grants]], rule triple_case_sum, rule triple_return, simp,
        rule triple_bind_fact [OF triple_route [OF settled]], rule triple_case_sum, rule triple_return, simp,
        rule triple_keeps [OF keeps_helpers(3) [OF helpers]], rule triple_case_prod, rule triple_return)
      (use step in auto)
qed

lemma plans_loop_reports:
  fixes K :: "'w kube" and router gns parents
  defines "accepted \<equiv> \<lambda>name. gateway_accepts (gs_Name (crs_Gateway (router_Spec router))) gns (parents (gns, name))"
  assumes settled: "route_statuses_settled K parents settled"
  shows "triple settled (plans_loop K router gns plans p) (\<lambda>r w. (\<forall>p'. r = Inr p' \<longrightarrow> pass_after accepted p plans p') \<and> settled w)"
proof (induction plans arbitrary: p)
  case Nil
  then show ?case by (simp add: triple_def pass_after_def pass_with_def)
next
  case (Cons plan plans)
  have rest: "triple settled (plans_loop K router gns plans p1) (\<lambda>r w. (\<forall>p'. r = Inr p' \<longrightarrow> pass_after accepted p (plan # plans) p') \<and> settled w)"
    if "pass_after accepted p [plan] p1" for p1
    by (rule triple_weaken [OF Cons [of p1]]) (auto intro: pass_after_Cons [OF that])
  have grants: "grant_packages_keep settled K" and cells: "reads_keep settled (k_cells K)"
    using settled by (simp_all add: route_statuses_settled_def)
  have resolve: "triple settled (resolveRouteBackends K plan) (\<lambda>r w. (\<forall>bs ns reason requeue.
      r = Inr (bs, ns, reason, requeue) \<longrightarrow> ns = map bt_CellRef bs \<and> requeue = (bs = [])) \<and> settled w)"
    using keeps_resolveRouteBackends [OF cells] triple_weaken [OF resolve_yields, of settled]
    unfolding keeps_def by (intro triple_conj) auto
  note apply_route = triple_bind_fact [OF apply_route_reports [OF settled, of _ plan, where gns = gns and router = router]]
  show ?case
    unfolding plans_loop.simps
  proof (rule triple_bind_fact [OF resolve], rule triple_case_sum, rule triple_return, simp,
      rule triple_case_prod, rule triple_case_prod, rule triple_case_prod, goal_cases)
    case (1 r v bs u names v' reason requeue)
    then have names: "names = map bt_CellRef bs" and requeue: "requeue = (bs = [])" by simp_all
    have patch: "keeps settled (case plan_placement plan of None \<Rightarrow> ret None
        | Some placement \<Rightarrow> patchPlacementReadiness K placement names reason (bs \<noteq> []))"
      using grants by (intro keeps_intros)
    show ?case
      unfolding Let_def
    proof (rule triple_keeps [OF patch], rule triple_case_option, rule triple_if, goal_cases)
      case 1
      then show ?case
        by (intro rest) (auto simp: pass_after_def pass_with_def status_ready_def status_of_plan_def names requeue)
    next
      case 2
      then show ?case
        by (intro apply_route triple_case_sum rest)
          (auto simp: names accepted_def intro: triple_return)
    qed (simp add: triple_return)
  qed
qed

text \<open>The loop over the invalid placements adds one status each, in order.\<close>

definition invalid_status :: "string \<times> string \<Rightarrow> ManagedRouteStatus" where
  "invalid_status e = \<lparr>mr_Name = fst e, mr_ListenerNames = [], mr_CellRef = [], mr_BackendRefs = [],
     mr_PlacementRef = fst e, mr_Reason = snd e, mr_LastTransitionTime = None\<rparr>"

lemma invalid_loop_yields:
  "yields (invalid_loop K placements entries ss) (\<lambda>r. fst r = None \<longrightarrow> snd r = ss @ map invalid_status entries)"
proof (induction K placements entries ss rule: invalid_loop.induct)
  case (2 K placements n reason rest ss)
  show ?case
    unfolding invalid_loop.simps
    by (rule yields_bind_any, rule triple_case_option, rule triple_weaken [OF 2(1)])
      (auto simp: invalid_status_def intro: triple_return)
qed (simp add: triple_return)

text \<open>\<open>k_range\<close> enumerates a map.\<close>

definition range_ok :: "'w kube \<Rightarrow> bool" where
  "range_ok K \<longleftrightarrow> (\<forall>m w. distinct (map fst (fst (run_state (k_range K m) w))) \<and>
     map_of (fst (run_state (k_range K m) w)) = fmlookup m)"

text \<open>What a successful pass over the routes returns, given which routes the gateway accepts.\<close>

definition routes_report :: "(string \<Rightarrow> bool) \<Rightarrow> (routePlan list \<times> (string, string) fmap) \<Rightarrow>
    bool \<times> bool \<times> ManagedRouteStatus list \<Rightarrow> bool" where
  "routes_report accepted planned = (\<lambda>(ready, requeue, statuses). \<exists>entries ss.
     distinct (map fst entries) \<and> map_of entries = fmlookup (snd planned) \<and>
     statuses = map invalid_status entries @ ss \<and>
     list_all2 (\<lambda>plan s. mr_Name s = plan_name plan \<and>
       (mr_LastTransitionTime s \<noteq> None \<longleftrightarrow> mr_BackendRefs s \<noteq> [] \<and> accepted (plan_name plan))) (fst planned) ss \<and>
     (ready \<longleftrightarrow> snd planned = fmempty \<and>
        list_all2 (\<lambda>plan s. mr_BackendRefs s \<noteq> [] \<and> accepted (plan_name plan)) (fst planned) ss) \<and>
     (requeue \<longleftrightarrow> \<not> list_all2 (\<lambda>plan s. mr_BackendRefs s \<noteq> [] \<and> accepted (plan_name plan)) (fst planned) ss))"

lemma statuses_ready:
  assumes "list_all2 (status_of_plan accepted) plans ss"
  shows "list_all status_ready ss \<longleftrightarrow> list_all2 (\<lambda>plan s. mr_BackendRefs s \<noteq> [] \<and> accepted (plan_name plan)) plans ss"
  using assms by (induction rule: list_all2_induct) (auto simp: status_ready_def status_of_plan_def)

lemma routes_report_pass:
  assumes "distinct (map fst entries)" "map_of entries = fmlookup invalid"
    and "pass_after accepted \<lparr>rp_expectedRoutes = [], rp_expectedGrants = [], rp_statuses = map invalid_status entries,
        rp_allReady = (entries = []), rp_needsRequeue = False\<rparr> plans p"
  shows "routes_report accepted (plans, invalid) (rp_allReady p, rp_needsRequeue p, rp_statuses p)"
proof -
  have "entries = [] \<longleftrightarrow> invalid = fmempty"
    using assms(2) by (metis fmempty_lookup fmap_ext map_of_eq_empty_iff map_of.simps(1))
  moreover from assms(3) obtain ss where ss: "list_all2 (status_of_plan accepted) plans ss"
    "rp_statuses p = map invalid_status entries @ ss" "rp_allReady p = (entries = [] \<and> list_all status_ready ss)"
    "rp_needsRequeue p = (\<not> list_all status_ready ss)"
    by (auto simp: pass_after_def pass_with_def)
  ultimately show ?thesis
    using assms(1,2) statuses_ready [OF ss(1)] ss
    by (auto simp: routes_report_def status_of_plan_def [abs_def])
qed

lemma routes_yields:
  fixes K :: "'w kube" and router gns parents
  defines "accepted \<equiv> \<lambda>name. gateway_accepts (gs_Name (crs_Gateway (router_Spec router))) gns (parents (gns, name))"
  assumes "range_ok K" "route_statuses_settled K parents settled"
    and "buildRoutePlans (k_subexpNames K) router placements = Some (Inr planned)"
  shows "triple settled (reconcileRoutes K router gns placements) (\<lambda>r w. \<forall>x. r = Some (Inr x) \<longrightarrow> routes_report accepted planned x)"
proof -
  obtain plans invalid where planned: "planned = (plans, invalid)" by fastforce
  have grants: "grant_packages_keep settled K" and helpers: "helpers_keep settled K"
    using assms(3) by (simp_all add: route_statuses_settled_def grant_packages_keep_def)
  have range: "triple settled (k_range K invalid)
      (\<lambda>entries w. (distinct (map fst entries) \<and> map_of entries = fmlookup invalid) \<and> settled w)"
    using assms(2) keeps_run [OF keeps_helpers(2) [OF helpers]] by (simp add: range_ok_def triple_def)
  have refused: "triple settled (invalid_loop K ps entries []) (\<lambda>r w.
      (fst r = None \<longrightarrow> snd r = map invalid_status entries) \<and> settled w)" for ps entries
    using keeps_invalid_loop [OF grants] triple_weaken [OF invalid_loop_yields, of settled]
    unfolding keeps_def by (intro triple_conj) fastforce+
  show ?thesis
    unfolding reconcileRoutes_def assms(4) planned option.case sum.case prod.case
  proof (rule triple_bind_fact [OF range], rule triple_bind_fact [OF refused], rule triple_case_prod,
      rule triple_case_option, rule triple_bind_fact [OF plans_loop_reports [OF assms(3)]], rule triple_case_sum, goal_cases)
    case (1 entries r o1 ss r' err)
    then show ?case by (simp add: triple_return)
  next
    case (2 entries r o1 ss r' p)
    then have "routes_report accepted planned (rp_allReady p, rp_needsRequeue p, rp_statuses p)"
      unfolding planned accepted_def by (intro routes_report_pass) auto
    then have "yields (bnd (cleanupStaleRoutes K router gns (rp_expectedRoutes p)) (\<lambda>r. case r of None \<Rightarrow>
        bnd (cleanupStaleReferenceGrants K router (rp_expectedGrants p)) (\<lambda>r. case r of None \<Rightarrow>
          ret (Some (Inr (rp_allReady p, rp_needsRequeue p, rp_statuses p))) | Some err \<Rightarrow> ret (Some (Inl err)))
        | Some err \<Rightarrow> ret (Some (Inl err)))) (\<lambda>r. \<forall>x. r = Some (Inr x) \<longrightarrow> routes_report accepted planned x)"
      by (intro yields_bind_any triple_case_option triple_return) simp_all
    then show ?case by (rule triple_weaken) (simp_all add: planned)
  qed (simp add: triple_return)
qed

section \<open>The published status\<close>

abbreviation router_conds :: "CellRouter \<Rightarrow> Condition list" where
  "router_conds router \<equiv> crst_Conditions (router_Status router)"

abbreviation put_router_conds :: "Condition list \<Rightarrow> CellRouter \<Rightarrow> CellRouter" where
  "put_router_conds cs router \<equiv> router\<lparr>router_Status := (router_Status router)\<lparr>crst_Conditions := cs\<rparr>\<rparr>"

interpretation router_conditions: status_conditions router_conds put_router_conds
  "\<lambda>router. om_Generation (router_Meta router)" setRouterCondition
  by unfold_locales (simp_all add: setRouterCondition_def)

abbreviation router_at :: "'w kube \<Rightarrow> CellRouter \<Rightarrow> (string \<rightharpoonup> string) \<Rightarrow> CellRouter \<Rightarrow> bool" where
  "router_at K \<equiv> conditions_at K router_conds put_router_conds"

abbreviation router_key :: "CellRouter \<Rightarrow> string \<times> string" where
  "router_key r \<equiv> (om_Namespace (router_Meta r), om_Name (router_Meta r))"

lemma router_at_same:
  assumes "router_at K router known router1"
  shows "router_Meta router1 = router_Meta router" "router_Spec router1 = router_Spec router"
  using assms by (auto simp: conditions_at_def)

text \<open>Whether the gateway of the router accepts the route of this name, by its parent statuses.\<close>

definition router_accepts :: "CellRouter \<Rightarrow> (string \<times> string \<Rightarrow> RouteParentStatus list) \<Rightarrow> string \<Rightarrow> bool" where
  "router_accepts router parents name \<longleftrightarrow>
     gateway_accepts (gs_Name (crs_Gateway (router_Spec router))) (gs_Namespace (crs_Gateway (router_Spec router)))
       (parents (gs_Namespace (crs_Gateway (router_Spec router)), name))"

text \<open>What the status says after a pass that found the listed placements.\<close>

definition router_published :: "'w kube \<Rightarrow> CellRouter \<Rightarrow> (string \<Rightarrow> bool) \<Rightarrow> routePlan list \<times> (string, string) fmap \<Rightarrow> bool \<Rightarrow>
    CellRouterStatus \<Rightarrow> bool \<Rightarrow> bool" where
  "router_published K router accepted planned requeue st ready \<longleftrightarrow>
     crst_ObservedGeneration st = om_Generation (router_Meta router) \<and>
     cond_status K (crst_Conditions st) CellRouterGatewayReadyCondition = Some ConditionTrue \<and>
     cond_status K (crst_Conditions st) CellRouterRoutesReadyCondition = Some (bool_status ready) \<and>
     cond_status K (crst_Conditions st) CellRouterReadyCondition = Some (bool_status ready) \<and>
     routes_report accepted planned (ready, requeue, crst_ManagedRoutes st)"

definition router_outcome :: "'w kube \<Rightarrow> CellRouter \<Rightarrow> (string \<Rightarrow> bool) \<Rightarrow> ('w \<Rightarrow> string \<times> string \<Rightarrow> CellRouterStatus option) \<Rightarrow>
    CellPlacement list \<Rightarrow> reconcile_result option \<Rightarrow> 'w \<Rightarrow> bool" where
  "router_outcome K router accepted stored placements r w \<longleftrightarrow>
     (\<forall>res. r = Some (res, None) \<longrightarrow> (\<exists>planned st ready.
        buildRoutePlans (k_subexpNames K) router placements = Some (Inr planned) \<and>
        stored w (router_key router) = Some st \<and>
        router_published K router accepted planned (res_RequeueAfter res = requeueDelay) st ready \<and>
        res_RequeueAfter res \<in> {0, requeueDelay}))"

lemma triple_router_failed:
  "triple I (bnd (router_failed K router1 base t msg err) (\<lambda>res. ret (Some res))) (router_outcome K router accepted stored placements)"
  by (simp add: triple_def router_failed_def router_outcome_def split: prod.splits)

lemma router_at_status:
  assumes "router_at K router known router1"
  shows "router_at K (router\<lparr>router_Status := (router_Status router)\<lparr>crst_ManagedGatewayRef := a,
      crst_ManagedRoutes := b, crst_ObservedGeneration := g\<rparr>\<rparr>) known
    (router1\<lparr>router_Status := (router_Status router1)\<lparr>crst_ManagedGatewayRef := a,
      crst_ManagedRoutes := b, crst_ObservedGeneration := g\<rparr>\<rparr>)"
proof -
  from assms obtain cs where "router1 = router\<lparr>router_Status := (router_Status router)\<lparr>crst_Conditions := cs\<rparr>\<rparr>"
    by (auto simp: conditions_at_def)
  with assms show ?thesis
    unfolding conditions_at_def cond_status_def
    by (intro conjI exI [of _ cs]) (auto intro: CellRouter.equality CellRouterStatus.equality)
qed

lemma triple_publish_router:
  assumes ok: "conditions_ok K" "helpers_keep I K" "status_patched (k_routers K) router_Meta router_Status stored"
    and start: "router_at K router [CellRouterGatewayReadyCondition \<mapsto> ConditionTrue] router1"
    and I: "I = (\<lambda>w. stored w (router_key router) = Some (router_Status router))"
    and build: "buildRoutePlans (k_subexpNames K) router placements = Some (Inr planned)"
    and report: "routes_report accepted planned (ready, requeue, managed)"
  shows "triple I (bnd (publish_router K router1 router ref ready requeue managed) (\<lambda>res. ret (Some res)))
    (router_outcome K router accepted stored placements)"
proof -
  let ?r = "\<lambda>x. x\<lparr>router_Status := (router_Status x)\<lparr>crst_ManagedGatewayRef := ref,
      crst_ManagedRoutes := managed, crst_ObservedGeneration := om_Generation (router_Meta router)\<rparr>\<rparr>"
  let ?known = "[CellRouterGatewayReadyCondition \<mapsto> ConditionTrue,
      CellRouterRoutesReadyCondition \<mapsto> bool_status ready, CellRouterReadyCondition \<mapsto> bool_status ready]"
  let ?rest = "\<lambda>router2. bnd (patchRouterStatus K router2 router) (\<lambda>r. bnd (case r of Some err \<Rightarrow> ret (NoRequeue, Some err)
        | None \<Rightarrow> if requeue then ret (\<lparr>res_RequeueAfter = requeueDelay\<rparr>, None) else ret (NoRequeue, None))
        (\<lambda>res. ret (Some res)))"
  have final: "triple I (?rest router2) (router_outcome K router accepted stored placements)"
    if at: "router_at K (?r router) ?known router2" for router2
    unfolding triple_def
  proof (intro allI impI)
    fix w assume w: "I w"
    from at have key: "router_key router2 = router_key router" by (auto simp: conditions_at_def)
    from at report have pub: "router_published K router accepted planned requeue (router_Status router2) ready"
      by (auto simp: conditions_at_def router_published_def)
    obtain r w' where r: "run_state (rc_StatusPatch (k_routers K) router2 router) w = (r, w')" by fastforce
    have "stored w' (router_key router) = Some (router_Status router2)" if "r = None"
      using ok(3) w r that key unfolding status_patched_def I by metis
    with pub build r show "router_outcome K router accepted stored placements
        (fst (run_state (?rest router2) w)) (snd (run_state (?rest router2) w))"
      by (cases r) (auto simp: patchRouterStatus_def router_outcome_def NoRequeue_def requeueDelay_def)
  qed
  show ?thesis
    unfolding publish_router_def Let_def router_at_same(1) [OF start] State_Monad.bind_assoc bool_status_def [symmetric]
    by (rule router_conditions.triple_condition [OF ok(1,2) _ router_at_status [OF start]],
        rule router_conditions.triple_condition [OF ok(1,2)], rule final)
qed

text \<open>
  The placements the API lists stay the same while the gateway is reconciled, and the packages
  keep the stored status of the router until it is patched.
\<close>

abbreviation placements_listed :: "'w kube \<Rightarrow> CellPlacement list \<Rightarrow> 'w \<Rightarrow> bool" where
  "placements_listed K ps w \<equiv> fst (run_state (rc_List (k_placements K) None []) w) = Inr ps"

definition router_placements :: "CellRouter \<Rightarrow> CellPlacement list \<Rightarrow> CellPlacement list" where
  "router_placements router ps = filter (\<lambda>p. ps_RouterRef (placement_Spec p) = router_Name router) ps"

lemma triple_listPlacements:
  assumes "reads_keep I (k_placements K)"
  shows "triple (\<lambda>w. I w \<and> placements_listed K ps w) (listPlacements K (router_Name router))
    (\<lambda>r w. r = Inr (router_placements router ps) \<and> I w)"
  using assms unfolding triple_def reads_keep_def keeps_def
  by (auto simp: listPlacements_def router_placements_def split: prod.splits sum.splits) (metis snd_conv)

lemma triple_routes:
  fixes K :: "'w kube" and router gns parents
  defines "accepted \<equiv> \<lambda>name. gateway_accepts (gs_Name (crs_Gateway (router_Spec router))) gns (parents (gns, name))"
  assumes "range_ok K" "route_packages_keep I K" "route_statuses_settled K parents settled"
  shows "triple (\<lambda>w. I w \<and> settled w) (reconcileRoutes K router gns placements) (\<lambda>r w.
    (\<forall>x. r = Some (Inr x) \<longrightarrow> (\<exists>planned.
       buildRoutePlans (k_subexpNames K) router placements = Some (Inr planned) \<and> routes_report accepted planned x)) \<and> I w)"
proof (rule triple_conj)
  show "triple (\<lambda>w. I w \<and> settled w) (reconcileRoutes K router gns placements) (\<lambda>_. I)"
    by (rule triple_weaken [OF keeps_reconcileRoutes [OF assms(3), unfolded keeps_def]]) simp_all
  show "triple (\<lambda>w. I w \<and> settled w) (reconcileRoutes K router gns placements) (\<lambda>r w. \<forall>x. r = Some (Inr x) \<longrightarrow>
      (\<exists>planned. buildRoutePlans (k_subexpNames K) router placements = Some (Inr planned) \<and>
         routes_report accepted planned x))"
  proof (cases "\<exists>planned. buildRoutePlans (k_subexpNames K) router placements = Some (Inr planned)")
    case True
    then obtain planned where build: "buildRoutePlans (k_subexpNames K) router placements = Some (Inr planned)" by blast
    show ?thesis
      unfolding accepted_def by (rule triple_weaken [OF routes_yields [OF assms(2,4) build]]) (auto simp: build)
  next
    case False
    then show ?thesis
      by (auto simp: reconcileRoutes_def triple_def split: option.splits sum.splits)
  qed
qed

text \<open>
  The parent statuses of the routes stay as they are from the start of the pass: the calls for
  the gateway and the listing of the placements keep them too.
\<close>

definition pass_statuses_settled :: "'w kube \<Rightarrow> (string \<times> string \<Rightarrow> RouteParentStatus list) \<Rightarrow> ('w \<Rightarrow> bool) \<Rightarrow> bool" where
  "pass_statuses_settled K parents settled \<longleftrightarrow>
     route_statuses_settled K parents settled \<and> gateway_packages_keep settled K \<and> reads_keep settled (k_placements K)"

lemma triple_router_reconcileNormal:
  assumes ok: "conditions_ok K" "range_ok K" "status_patched (k_routers K) router_Meta router_Status stored"
    and keep: "router_packages_keep I K" "gateway_packages_keep (placements_listed K ps) K"
    and settled: "pass_statuses_settled K parents settled"
    and I: "I = (\<lambda>w. stored w (router_key router) = Some (router_Status router))"
  shows "triple (\<lambda>w. (I w \<and> settled w) \<and> placements_listed K ps w) (Router_reconcileNormal K router)
    (router_outcome K router (router_accepts router parents) stored (router_placements router ps))"
proof -
  let ?I = "\<lambda>w. I w \<and> settled w"
  have routes: "route_packages_keep I K" "gateway_packages_keep ?I K" "reads_keep ?I (k_placements K)"
    using keep(1) settled
    by (auto simp: router_packages_keep_def pass_statuses_settled_def reads_keep_def
        intro!: gateway_packages_conj keeps_conj)
  note both = gateway_packages_conj [OF routes(2) keep(2)]
  have helpers: "helpers_keep I K" "helpers_keep (\<lambda>w. ?I w \<and> placements_listed K ps w) K"
    using keep(1) both by (simp_all add: router_packages_keep_def gateway_packages_keep_def)
  have statuses: "route_statuses_settled K parents settled" using settled by (simp add: pass_statuses_settled_def)
  note list = triple_bind_fact [OF triple_listPlacements [OF routes(3)]]
  show ?thesis
    unfolding Router_reconcileNormal_def Let_def
  proof (rule triple_keeps [OF keeps_reconcileGatewayNamespace [OF both]], rule triple_case_option,
      rule triple_keeps [OF keeps_reconcileGateway [OF both]], rule triple_case_sum, rule triple_router_failed,
      rule router_conditions.triple_condition [OF ok(1) helpers(2) _ router_conditions.at_start], goal_cases)
    case (1 r1 r2 ref router1)
    note at = 1(3) and same = router_at_same [OF 1(3)]
    let ?ps = "router_placements router ps" and ?ns = "gs_Namespace (crs_Gateway (router_Spec router))"
    have plans: "buildRoutePlans (k_subexpNames K) router1 ?ps = buildRoutePlans (k_subexpNames K) router ?ps"
      unfolding buildRoutePlans_def same ..
    have pass: "triple ?I (reconcileRoutes K router1 ?ns ?ps) (\<lambda>r w.
        (\<forall>x. r = Some (Inr x) \<longrightarrow> (\<exists>planned. buildRoutePlans (k_subexpNames K) router ?ps = Some (Inr planned) \<and>
          routes_report (router_accepts router parents) planned x)) \<and> I w)"
      using triple_routes [OF ok(2) routes(1) statuses, of router1 ?ns ?ps]
      unfolding plans same router_accepts_def [abs_def] .
    show ?case
      unfolding same(1)
    proof (rule list, simp only: sum.case, rule triple_bind_fact [OF pass], rule triple_case_option,
        rule triple_return, simp add: router_outcome_def, rule triple_case_sum, rule triple_router_failed,
        rule triple_case_prod, rule triple_case_prod, goal_cases)
      case (1 r3 r4 res x ready y requeue managed)
      then obtain planned where
        "buildRoutePlans (k_subexpNames K) router ?ps = Some (Inr planned)"
        "routes_report (router_accepts router parents) planned (ready, requeue, managed)" by auto
      then show ?case by (rule triple_publish_router [OF ok(1) helpers(1) ok(3) at I])
    qed
  qed (rule triple_router_failed)
qed

section \<open>Properties\<close>

lemma mem_placements_listed: "placements_listed mem_kube ps = (\<lambda>w. db_placements w = ps)"
  by (simp add: mem_kube_def mem_client_def has_labels_def)

lemma mem_router_packages_keep:
  "router_packages_keep (\<lambda>w. mem_status db_routers router_Meta router_Status w k = s) mem_kube"
  "gateway_packages_keep (placements_listed mem_kube ps) mem_kube"
proof -
  show "router_packages_keep (\<lambda>w. mem_status db_routers router_Meta router_Status w k = s) mem_kube"
    unfolding router_packages_keep_def
    unfolding gateway_packages_keep_def route_packages_keep_def grant_packages_keep_def
    by (intro conjI mem_helpers_keep) (simp_all add: mem_kube_def mem_client_reads mem_client_keeps mem_status_def)
  show "gateway_packages_keep (placements_listed mem_kube ps) mem_kube"
    unfolding gateway_packages_keep_def mem_placements_listed
    by (intro conjI mem_helpers_keep) (simp_all add: mem_kube_def mem_client_keeps)
qed

lemma mem_range_ok: "range_ok mem_kube"
proof -
  have "distinct (map fst (sorted_list_of_fmap m))" for m :: "(string, string) fmap"
    by (simp add: sorted_list_of_fmap_def comp_def sorted_list_of_fset.rep_eq)
  then show ?thesis by (simp add: range_ok_def mem_kube_def)
qed

text \<open>The parent statuses in the in-memory cluster.\<close>

definition mem_parents :: "cluster \<Rightarrow> string \<times> string \<Rightarrow> RouteParentStatus list" where
  "mem_parents w k = (case find (has_key (fst k) (snd k) \<circ> route_Meta) (db_routes w) of None \<Rightarrow> [] | Some x \<Rightarrow> route_Parents x)"

lemma mem_parents_apply:
  assumes "route_Parents obj = []"
    and "\<And>x y. f x = Inr y \<Longrightarrow> route_Parents y = route_Parents x \<and> meta_key (route_Meta y) = meta_key (route_Meta x)"
    and "run_state (rc_CreateOrUpdate (k_routes mem_kube) obj f) w = (r, w')"
  shows "mem_parents w' = mem_parents w \<and> (\<forall>x. r = Inr x \<longrightarrow> route_Parents x = mem_parents w (meta_key (route_Meta obj)))"
proof -
  let ?key = "has_key (om_Namespace (route_Meta obj)) (om_Name (route_Meta obj))"
  have other: "find (has_key ns n \<circ> route_Meta) (map (\<lambda>y. if ?key (route_Meta y) then x else y) ys) =
      find (has_key ns n \<circ> route_Meta) ys"
    if "?key (route_Meta x)" "(ns, n) \<noteq> meta_key (route_Meta obj)" for ns n x ys
    using that by (induction ys) (auto simp: has_key_def)
  have same: "find (?key \<circ> route_Meta) (map (\<lambda>y. if ?key (route_Meta y) then x else y) ys) =
      map_option (\<lambda>_. x) (find (?key \<circ> route_Meta) ys)" if "?key (route_Meta x)" for x ys
    using that by (induction ys) auto
  have found: "find (?key \<circ> route_Meta) ys = Some y \<Longrightarrow> ?key (route_Meta y)" for ys y
    by (auto simp: find_Some_iff)
  show ?thesis
  proof (cases "find (?key \<circ> route_Meta) (db_routes w)")
    case None
    with assms show ?thesis
      by (auto simp: mem_kube_def mem_client_def mem_parents_def fun_eq_iff has_key_def split: sum.splits)
  next
    case (Some old)
    from found [OF this] have key: "?key (route_Meta old)" .
    show ?thesis
    proof (cases "f old")
      case (Inr y)
      with assms(2) key have "?key (route_Meta y)" "route_Parents y = route_Parents old"
        by (auto simp: has_key_def)
      with Some Inr assms(3) have "r = Inr y"
        "db_routes w' = map (\<lambda>z. if ?key (route_Meta z) then y else z) (db_routes w)"
        by (auto simp: mem_kube_def mem_client_def)
      moreover have "mem_parents w' k = mem_parents w k" for k
        using Some \<open>?key (route_Meta y)\<close> \<open>route_Parents y = route_Parents old\<close> calculation(2) other [of y "fst k" "snd k"]
          same [of y] by (cases "k = meta_key (route_Meta obj)") (simp_all add: mem_parents_def)
      ultimately show ?thesis using Some \<open>route_Parents y = route_Parents old\<close> by (auto simp: mem_parents_def)
    qed (use Some assms(3) in \<open>auto simp: mem_kube_def mem_client_def\<close>)
  qed
qed

lemma mem_statuses_settled:
  "route_statuses_settled mem_kube parents (\<lambda>w. mem_parents w = parents)"
  "pass_statuses_settled mem_kube parents (\<lambda>w. mem_parents w = parents)"
proof -
  have keep: "grant_packages_keep (\<lambda>w. mem_parents w = parents) mem_kube"
    "gateway_packages_keep (\<lambda>w. mem_parents w = parents) mem_kube"
    "reads_keep (\<lambda>w. mem_parents w = parents) (k_cells mem_kube)"
    "reads_keep (\<lambda>w. mem_parents w = parents) (k_placements mem_kube)"
    unfolding grant_packages_keep_def gateway_packages_keep_def
    by ((intro conjI mem_helpers_keep)?; simp add: mem_kube_def mem_client_reads mem_client_keeps mem_parents_def fun_eq_iff)+
  have owner: "k_SetControllerReference mem_kube kind owner m = Inr m' \<Longrightarrow> meta_key m' = meta_key m" for kind owner m m'
    by (auto simp: mem_kube_def set_controller_def split: if_splits)
  have "triple (\<lambda>w. mem_parents w = parents) (rc_CreateOrUpdate (k_routes mem_kube) obj f) (\<lambda>r w. mem_parents w = parents \<and>
      (\<forall>x. r = Inr x \<longrightarrow> route_Parents x = parents (meta_key (route_Meta obj))))"
    if "route_Parents obj = []"
      "\<forall>x y. f x = Inr y \<longrightarrow> route_Parents y = route_Parents x \<and> meta_key (route_Meta y) = meta_key (route_Meta x)" for obj f
    unfolding triple_def
  proof (intro allI impI)
    fix w assume "mem_parents w = parents"
    then show "mem_parents (snd (run_state (rc_CreateOrUpdate (k_routes mem_kube) obj f) w)) = parents \<and>
        (\<forall>x. fst (run_state (rc_CreateOrUpdate (k_routes mem_kube) obj f) w) = Inr x \<longrightarrow>
           route_Parents x = parents (meta_key (route_Meta obj)))"
      using mem_parents_apply [of obj f w, OF that(1) that(2) [rule_format] prod.collapse [symmetric]] by simp
  qed
  with keep owner show settled: "route_statuses_settled mem_kube parents (\<lambda>w. mem_parents w = parents)"
    unfolding route_statuses_settled_def by (intro conjI allI impI)
  from keep settled show "pass_statuses_settled mem_kube parents (\<lambda>w. mem_parents w = parents)"
    by (simp add: pass_statuses_settled_def)
qed

text \<open>
  C25: a pass over the routes reports every invalid placement and every planned route, one
  status each, in the order of the plans; the status of a planned route carries a time exactly
  when the route has backends and the router's gateway accepts it, as the parent statuses that
  the server holds for the route tell. The pass reports readiness exactly when no placement is
  invalid and every planned route has backends and is accepted by the gateway, and it asks for
  a requeue exactly when some planned route lacks backends or acceptance.
\<close>

theorem routes_reported:
  assumes "range_ok K" "route_statuses_settled K parents settled" "settled w"
    and "buildRoutePlans (k_subexpNames K) router placements = Some (Inr (plans, invalid))"
    and "run_state (reconcileRoutes K router ns placements) w = (Some (Inr (ready, requeue, statuses)), w')"
  shows "\<exists>entries ss. statuses = map invalid_status entries @ ss \<and>
    distinct (map fst entries) \<and> map_of entries = fmlookup invalid \<and>
    list_all2 (\<lambda>plan s. mr_Name s = plan_name plan \<and>
      (mr_LastTransitionTime s \<noteq> None \<longleftrightarrow> mr_BackendRefs s \<noteq> [] \<and>
         gateway_accepts (gs_Name (crs_Gateway (router_Spec router))) ns (parents (ns, plan_name plan)))) plans ss \<and>
    (ready \<longleftrightarrow> invalid = fmempty \<and> list_all2 (\<lambda>plan s. mr_BackendRefs s \<noteq> [] \<and>
       gateway_accepts (gs_Name (crs_Gateway (router_Spec router))) ns (parents (ns, plan_name plan))) plans ss) \<and>
    (requeue \<longleftrightarrow> \<not> list_all2 (\<lambda>plan s. mr_BackendRefs s \<noteq> [] \<and>
       gateway_accepts (gs_Name (crs_Gateway (router_Spec router))) ns (parents (ns, plan_name plan))) plans ss)"
proof -
  let ?accepted = "\<lambda>name. gateway_accepts (gs_Name (crs_Gateway (router_Spec router))) ns (parents (ns, name))"
  have "routes_report ?accepted (plans, invalid) (ready, requeue, statuses)"
    using triple_run [OF routes_yields [OF assms(1,2,4)] assms(3,5)] by simp
  then show ?thesis unfolding routes_report_def fst_conv snd_conv prod.case by blast
qed

text \<open>A router with one route, which a gateway of the given name has accepted.\<close>

definition routed_router :: CellRouter where
  "routed_router = example_router\<lparr>router_Spec := (router_Spec example_router)\<lparr>crs_Routes := [example_route]\<rparr>\<rparr>"

definition accepted_route :: "string \<Rightarrow> HTTPRoute" where
  "accepted_route gateway =
     \<lparr>route_Meta = NewMeta ''all'' ''infra'', route_Spec = \<lparr>hr_ParentRefs = [], hr_Hostnames = [], hr_Rules = []\<rparr>,
      route_Parents = [\<lparr>rps_ParentRef = \<lparr>pr_Name = gateway, pr_Namespace = None, pr_SectionName = None\<rparr>,
        rps_Conditions = [\<lparr>c_Type = ''Accepted'', c_Status = ''True'', c_ObservedGeneration = 1,
          c_LastTransitionTime = 7, c_Reason = [], c_Message = []\<rparr>]\<rparr>]\<rparr>"

definition routed_cluster :: "string \<Rightarrow> cluster" where
  "routed_cluster gateway = example_cluster\<lparr>db_cells := [ready_cell], db_routers := [routed_router],
     db_routes := [accepted_route gateway]\<rparr>"

abbreviation routed_plans :: "routePlan list" where
  "routed_plans \<equiv> [\<lparr>plan_name = ''all'', plan_spec = example_route, plan_placement = None, plan_placementRef = []\<rparr>]"

lemma routed_router_plans: "buildRoutePlans (k_subexpNames mem_kube) routed_router [] = Some (Inr (routed_plans, fmempty))"
  by (simp add: buildRoutePlans_def validatePlacementOverlaps_def routed_router_def) (simp add: example_route_def)

lemma routed_accepts:
  "gateway_accepts (gs_Name (crs_Gateway (router_Spec routed_router))) ''infra''
     (mem_parents (routed_cluster gateway) (''infra'', ''all'')) \<longleftrightarrow> gateway = ''gw''"
  by (auto simp: gateway_accepts_def mem_parents_def routed_cluster_def accepted_route_def has_key_def NewMeta_def
      routed_router_def example_router_def)

theorem routes_reported_witness:
  "(\<exists>s w'. run_state (reconcileRoutes mem_kube routed_router ''infra'' []) (routed_cluster ''gw'') =
       (Some (Inr (True, False, [s])), w') \<and> mr_Name s = ''all'' \<and> mr_LastTransitionTime s \<noteq> None) \<and>
   (\<exists>s w'. run_state (reconcileRoutes mem_kube routed_router ''infra'' []) (routed_cluster ''other'') =
       (Some (Inr (False, True, [s])), w') \<and> mr_Name s = ''all'' \<and> mr_LastTransitionTime s = None)"
proof -
  let ?run = "\<lambda>g. run_state (reconcileRoutes mem_kube routed_router ''infra'' []) (routed_cluster g)"
  have empty: "entries = []" if "map_of entries = fmlookup (fmempty :: (string, string) fmap)" for entries
    using that by (metis fmempty_lookup map_of_eq_empty_iff ext)
  have report: "\<exists>s w'. ?run g = (Some (Inr (ready, requeue, [s])), w') \<and> mr_Name s = ''all'' \<and>
      (mr_LastTransitionTime s \<noteq> None \<longleftrightarrow> mr_BackendRefs s \<noteq> [] \<and> g = ''gw'') \<and> (ready \<longrightarrow> mr_BackendRefs s \<noteq> [])"
    if "case fst (?run g) of Some (Inr (a, b, _)) \<Rightarrow> a = ready \<and> b = requeue | _ \<Rightarrow> False" for g ready requeue
  proof -
    from that obtain statuses w' where run: "?run g = (Some (Inr (ready, requeue, statuses)), w')"
      by (cases "?run g") (auto split: option.splits sum.splits)
    from routes_reported [OF mem_range_ok mem_statuses_settled(1) refl routed_router_plans run] obtain entries ss where
      "statuses = map invalid_status entries @ ss" "map_of entries = fmlookup (fmempty :: (string, string) fmap)"
      "list_all2 (\<lambda>plan s. mr_Name s = plan_name plan \<and> (mr_LastTransitionTime s \<noteq> None \<longleftrightarrow> mr_BackendRefs s \<noteq> [] \<and>
         gateway_accepts (gs_Name (crs_Gateway (router_Spec routed_router))) ''infra''
           (mem_parents (routed_cluster g) (''infra'', plan_name plan)))) routed_plans ss"
      "ready \<longrightarrow> list_all2 (\<lambda>plan s. mr_BackendRefs s \<noteq> [] \<and>
         gateway_accepts (gs_Name (crs_Gateway (router_Spec routed_router))) ''infra''
           (mem_parents (routed_cluster g) (''infra'', plan_name plan))) routed_plans ss" by blast
    with run show ?thesis by (auto simp: list_all2_Cons1 routed_accepts dest!: empty)
  qed
  have "case fst (?run ''gw'') of Some (Inr (a, b, _)) \<Rightarrow> a = True \<and> b = False | _ \<Rightarrow> False"
    "case fst (?run ''other'') of Some (Inr (a, b, _)) \<Rightarrow> a = False \<and> b = True | _ \<Rightarrow> False" by code_simp+
  from report [OF this(1)] report [OF this(2)] show ?thesis by auto
qed

text \<open>
  C5: when a reconcile of a router succeeds, the status stored for the router names the
  current generation and reports the gateway as ready, and its managed routes are one entry for
  every invalid placement and every planned route of the placements that refer to the router.
  Routes and router are reported ready exactly when no placement is invalid and every planned
  route has backends and is accepted by the router's gateway, as the parent statuses of the
  stored routes tell; a requeue is asked for exactly when a planned route is not in this state.
\<close>

theorem router_status_published:
  assumes "conditions_ok K" "range_ok K" "status_patched (k_routers K) router_Meta router_Status stored"
    and "router_packages_keep (\<lambda>w. stored w (router_key router) = Some (router_Status router)) K"
    and "gateway_packages_keep (placements_listed K ps) K"
    and "pass_statuses_settled K parents settled"
    and "stored w (router_key router) = Some (router_Status router)" "placements_listed K ps w" "settled w"
    and "run_state (Router_reconcileNormal K router) w = (Some (res, None), w')"
  shows "\<exists>plans invalid st ready entries ss.
    buildRoutePlans (k_subexpNames K) router (router_placements router ps) = Some (Inr (plans, invalid)) \<and>
    stored w' (router_key router) = Some st \<and>
    crst_ObservedGeneration st = om_Generation (router_Meta router) \<and>
    cond_status K (crst_Conditions st) CellRouterGatewayReadyCondition = Some ConditionTrue \<and>
    (\<forall>t\<in>{CellRouterRoutesReadyCondition, CellRouterReadyCondition}.
       cond_status K (crst_Conditions st) t = Some (if ready then ConditionTrue else ConditionFalse)) \<and>
    crst_ManagedRoutes st = map invalid_status entries @ ss \<and>
    distinct (map fst entries) \<and> map_of entries = fmlookup invalid \<and> map mr_Name ss = map plan_name plans \<and>
    (ready \<longleftrightarrow> invalid = fmempty \<and>
       list_all2 (\<lambda>plan s. mr_BackendRefs s \<noteq> [] \<and> router_accepts router parents (plan_name plan)) plans ss) \<and>
    (res_RequeueAfter res = requeueDelay \<longleftrightarrow>
       \<not> list_all2 (\<lambda>plan s. mr_BackendRefs s \<noteq> [] \<and> router_accepts router parents (plan_name plan)) plans ss)"
proof -
  have "router_outcome K router (router_accepts router parents) stored (router_placements router ps) (Some (res, None)) w'"
    by (rule triple_run [OF triple_router_reconcileNormal [OF assms(1-6) refl] _ assms(10)]) (use assms(7-9) in simp)
  then obtain planned st ready where out:
    "buildRoutePlans (k_subexpNames K) router (router_placements router ps) = Some (Inr planned)"
    "stored w' (router_key router) = Some st"
    "router_published K router (router_accepts router parents) planned (res_RequeueAfter res = requeueDelay) st ready"
    unfolding router_outcome_def by auto
  from out(3) obtain entries ss where report: "distinct (map fst entries)" "map_of entries = fmlookup (snd planned)"
    "crst_ManagedRoutes st = map invalid_status entries @ ss"
    "list_all2 (\<lambda>plan s. mr_Name s = plan_name plan \<and>
       (mr_LastTransitionTime s \<noteq> None \<longleftrightarrow> mr_BackendRefs s \<noteq> [] \<and> router_accepts router parents (plan_name plan)))
       (fst planned) ss"
    "ready \<longleftrightarrow> snd planned = fmempty \<and>
       list_all2 (\<lambda>plan s. mr_BackendRefs s \<noteq> [] \<and> router_accepts router parents (plan_name plan)) (fst planned) ss"
    "res_RequeueAfter res = requeueDelay \<longleftrightarrow>
       \<not> list_all2 (\<lambda>plan s. mr_BackendRefs s \<noteq> [] \<and> router_accepts router parents (plan_name plan)) (fst planned) ss"
    unfolding router_published_def routes_report_def prod.case by blast
  have "map mr_Name ss = map plan_name (fst planned)"
    using report(4) by (induction rule: list_all2_induct) simp_all
  with out report show ?thesis
    unfolding router_published_def bool_status_def by (cases planned) auto
qed

theorem router_status_published_witness:
  "\<exists>w' st. run_state (Router_reconcileNormal mem_kube routed_router) (routed_cluster ''gw'') =
       (Some (NoRequeue, None), w') \<and>
     mem_status db_routers router_Meta router_Status w' (router_key routed_router) = Some st \<and>
     map mr_Name (crst_ManagedRoutes st) = [''all''] \<and>
     cond_status mem_kube (crst_Conditions st) CellRouterReadyCondition = Some ConditionTrue"
proof -
  have "fst (run_state (Router_reconcileNormal mem_kube routed_router) (routed_cluster ''gw'')) =
      Some (NoRequeue, None)"
    by code_simp
  then obtain w' where run: "run_state (Router_reconcileNormal mem_kube routed_router) (routed_cluster ''gw'') =
      (Some (NoRequeue, None), w')"
    by (metis prod.collapse)
  have listed: "placements_listed mem_kube [] (routed_cluster ''gw'')"
    using mem_placements_listed [of "[]", THEN fun_cong, of "routed_cluster ''gw''"]
    by (simp add: routed_cluster_def example_cluster_def empty_cluster_def)
  have stored: "mem_status db_routers router_Meta router_Status (routed_cluster ''gw'') (router_key routed_router) =
      Some (router_Status routed_router)"
    by (simp add: mem_status_def routed_cluster_def has_key_def)
  have patched: "status_patched (k_routers mem_kube) router_Meta router_Status (mem_status db_routers router_Meta router_Status)"
    by (simp add: mem_kube_def mem_client_status_patched)
  have delay: "res_RequeueAfter NoRequeue \<noteq> requeueDelay" by (simp add: NoRequeue_def requeueDelay_def)
  have none: "router_placements routed_router [] = []" by (simp add: router_placements_def)
  from router_status_published [OF mem_conditions_ok mem_range_ok patched mem_router_packages_keep
      mem_statuses_settled(2) stored listed refl run] delay routed_router_plans none
  obtain st ready entries ss where st:
    "mem_status db_routers router_Meta router_Status w' (router_key routed_router) = Some st"
    "cond_status mem_kube (crst_Conditions st) CellRouterReadyCondition = Some (if ready then ConditionTrue else ConditionFalse)"
    "crst_ManagedRoutes st = map invalid_status entries @ ss" "map_of entries = fmlookup (fmempty :: (string, string) fmap)"
    "map mr_Name ss = map plan_name routed_plans" "ready" by auto
  from st(4) have "entries = []" by (metis fmempty_lookup map_of_eq_empty_iff ext)
  with st show ?thesis using run by auto
qed

end
