(* ===== verification/ObjectStore.thy ===== *)
theory ObjectStore
  imports Cluster
begin

text \<open>
  The contract of the API server as a store of objects of one kind: a world holds at most one
  object under a key, reads return what is held, a successful create-or-update stores the
  mutated object and a successful deletion removes it. The server may complete the objects it
  stores, with defaults and bookkeeping; what it keeps is told by \<open>desired\<close>, and labels and
  owner references stay. The contract is interpreted on the in-memory cluster.
\<close>

section \<open>The contract\<close>

abbreviation in_scope :: "string option \<Rightarrow> string \<times> string \<Rightarrow> bool" where
  "in_scope ns k \<equiv> (case ns of None \<Rightarrow> True | Some s \<Rightarrow> fst k = s)"

locale object_store =
  fixes rc :: "('o, 'w) resource_client"
    and meta :: "'o \<Rightarrow> ObjectMeta"
    and view :: "'w \<Rightarrow> string \<times> string \<Rightarrow> 'o option"
    and valid :: "'w \<Rightarrow> bool"
    and desired :: "'o \<Rightarrow> 'd"
  assumes keyed: "valid w \<Longrightarrow> view w k = Some y \<Longrightarrow> meta_key (meta y) = k"
    and get_ok: "valid w \<Longrightarrow> run_state (rc_Get rc s n) w = (g, w') \<Longrightarrow>
      valid w' \<and> view w' = view w \<and> (\<forall>y. g = Inr y \<longrightarrow> view w (s, n) = Some y) \<and>
      (\<forall>e. g = Inl e \<longrightarrow> IsNotFound e \<longrightarrow> view w (s, n) = None)"
    and list_ok: "valid w \<Longrightarrow> run_state (rc_List rc ns ls) w = (Inr ys, w') \<Longrightarrow>
      valid w' \<and> view w' = view w \<and>
      set ys = {y. \<exists>k. view w k = Some y \<and> in_scope ns k \<and> has_labels ls (meta y)}"
    and delete_ok: "valid w \<Longrightarrow> run_state (rc_Delete rc y) w = (r, w') \<Longrightarrow> IgnoreNotFound r = None \<Longrightarrow>
      valid w' \<and> view w' = (view w)(meta_key (meta y) := None)"
    and apply_ok: "valid w \<Longrightarrow> run_state (rc_CreateOrUpdate rc obj f) w = (Inr x, w') \<Longrightarrow>
      (\<And>old y. f old = Inr y \<Longrightarrow> meta_key (meta y) = meta_key (meta old)) \<Longrightarrow>
      valid w' \<and> view w' = (view w)(meta_key (meta obj) := Some x) \<and>
      (\<exists>y. f (case view w (meta_key (meta obj)) of None \<Rightarrow> obj | Some old \<Rightarrow> old) = Inr y \<and>
         desired x = desired y \<and> om_Labels (meta x) = om_Labels (meta y) \<and>
         om_OwnerReferences (meta x) = om_OwnerReferences (meta y))"
begin

abbreviation holds :: "(string \<times> string \<Rightarrow> 'o option) \<Rightarrow> 'w \<Rightarrow> bool" where
  "holds v w \<equiv> valid w \<and> view w = v"

text \<open>What other computations keep of the objects they keep of every property of them.\<close>

lemma keeps_view: "(\<And>v. keeps (holds v) m) \<Longrightarrow> keeps (\<lambda>w. valid w \<and> P (view w)) m"
  unfolding keeps_def triple_def by metis

lemma triple_get:
  "triple (holds v) (rc_Get rc ns n) (\<lambda>r w. holds v w \<and> (\<forall>y. r = Inr y \<longrightarrow> v (ns, n) = Some y) \<and>
     (\<forall>e. r = Inl e \<longrightarrow> IsNotFound e \<longrightarrow> v (ns, n) = None))"
  unfolding triple_def using get_ok by (metis prod.collapse)

lemma triple_delete:
  "triple (holds v) (rc_Delete rc y) (\<lambda>r w. IgnoreNotFound r = None \<longrightarrow> holds (v(meta_key (meta y) := None)) w)"
  unfolding triple_def using delete_ok by (metis prod.collapse)

lemma keyed_view: "holds v w \<Longrightarrow> v k = Some y \<Longrightarrow> meta_key (meta y) = k"
  using keyed by blast

text \<open>The pattern of a guarded deletion by name, run to its end without an error.\<close>

lemma triple_guarded_delete:
  "triple (holds v) (bnd (rc_Get rc ns n) (\<lambda>r. case r of Inl err \<Rightarrow> ret (if IsNotFound err then None else Some err)
     | Inr y \<Rightarrow> if \<not> allowed y then ret None else bnd (rc_Delete rc y) (\<lambda>err. ret (IgnoreNotFound err))))
   (\<lambda>r w. r = None \<longrightarrow> holds (if \<exists>y. v (ns, n) = Some y \<and> allowed y then v((ns, n) := None) else v) w)"
proof (rule triple_bind [OF triple_get], rule triple_case_sum, rule triple_return, simp split: if_splits, goal_cases)
  case (1 r y)
  have "triple (\<lambda>w. holds v w \<and> v (ns, n) = Some y) (bnd (rc_Delete rc y) (\<lambda>err. ret (IgnoreNotFound err)))
      (\<lambda>r w. r = None \<longrightarrow> holds (v((ns, n) := None)) w)"
  proof (cases "\<exists>w. holds v w \<and> v (ns, n) = Some y")
    case True
    then have key: "meta_key (meta y) = (ns, n)" using keyed_view by blast
    have "triple (\<lambda>w. holds v w \<and> v (ns, n) = Some y) (rc_Delete rc y)
        (\<lambda>r w. IgnoreNotFound r = None \<longrightarrow> holds (v((ns, n) := None)) w)"
      by (rule triple_weaken [OF triple_delete [of v y]]) (simp_all add: key)
    then show ?thesis by (rule triple_bind) (simp add: triple_return)
  qed (auto simp: triple_def)
  with 1 show ?case by (auto simp: triple_def)
qed

lemma triple_apply:
  assumes "\<And>old y. f old = Inr y \<Longrightarrow> meta_key (meta y) = meta_key (meta old)"
  shows "triple (holds v) (rc_CreateOrUpdate rc obj f) (\<lambda>r w. \<forall>x. r = Inr x \<longrightarrow>
    holds (v(meta_key (meta obj) := Some x)) w \<and>
    (\<exists>old y. f old = Inr y \<and> desired x = desired y \<and> om_Labels (meta x) = om_Labels (meta y) \<and>
       om_OwnerReferences (meta x) = om_OwnerReferences (meta y)))"
  unfolding triple_def
proof (intro allI impI)
  fix w x
  assume w: "holds v w" and x: "fst (run_state (rc_CreateOrUpdate rc obj f) w) = Inr x"
  define w' where "w' = snd (run_state (rc_CreateOrUpdate rc obj f) w)"
  with x have "run_state (rc_CreateOrUpdate rc obj f) w = (Inr x, w')" by (simp add: prod_eq_iff)
  from apply_ok [OF conjunct1 [OF w] this assms] w
  show "holds (v(meta_key (meta obj) := Some x)) (snd (run_state (rc_CreateOrUpdate rc obj f) w)) \<and>
      (\<exists>old y. f old = Inr y \<and> desired x = desired y \<and> om_Labels (meta x) = om_Labels (meta y) \<and>
         om_OwnerReferences (meta x) = om_OwnerReferences (meta y))"
    unfolding w'_def by blast
qed

end

section \<open>The in-memory cluster\<close>

definition mem_view :: "('w \<Rightarrow> 'o list) \<Rightarrow> ('o \<Rightarrow> ObjectMeta) \<Rightarrow> 'w \<Rightarrow> string \<times> string \<Rightarrow> 'o option" where
  "mem_view get meta w k = find (has_key (fst k) (snd k) \<circ> meta) (get w)"

definition mem_wf :: "('w \<Rightarrow> 'o list) \<Rightarrow> ('o \<Rightarrow> ObjectMeta) \<Rightarrow> 'w \<Rightarrow> bool" where
  "mem_wf get meta w \<longleftrightarrow> distinct (map (meta_key \<circ> meta) (get w))"

lemma find_key_iff:
  "distinct (map (meta_key \<circ> meta) xs) \<Longrightarrow>
   find (has_key ns n \<circ> meta) xs = Some y \<longleftrightarrow> y \<in> set xs \<and> meta_key (meta y) = (ns, n)"
  by (induction xs) (auto simp: has_key_def image_iff)

lemma mem_view_iff:
  "mem_wf get meta w \<Longrightarrow> mem_view get meta w k = Some y \<longleftrightarrow> y \<in> set (get w) \<and> meta_key (meta y) = k"
  by (cases k) (simp add: mem_wf_def mem_view_def find_key_iff)

lemma mem_view_eqI:
  assumes "mem_wf get meta w" "\<And>k y. v k = Some y \<longleftrightarrow> y \<in> set (get w) \<and> meta_key (meta y) = k"
  shows "mem_view get meta w = v"
proof
  fix k show "mem_view get meta w k = v k"
    using mem_view_iff [OF assms(1), of k] assms(2) [of k] by (metis not_None_eq)
qed

lemma mem_client_object_store:
  assumes gp: "\<And>v w. get (put v w) = v"
  shows "object_store (mem_client get put meta st) meta (mem_view get meta) (mem_wf get meta) desired"
proof (unfold_locales, goal_cases)
  case (1 w k y)
  then show ?case by (simp add: mem_view_iff)
next
  case (2 w ns n r w')
  then have "w' = w" "r = (case mem_view get meta w (ns, n) of None \<Rightarrow> Inl not_found | Some x \<Rightarrow> Inr x)"
    by (auto simp: mem_client_def mem_view_def)
  with 2(1) show ?case by (auto split: option.splits)
next
  case (3 w ns ls ys w')
  then have "w' = w" "ys = filter (\<lambda>x. (case ns of None \<Rightarrow> True | Some s \<Rightarrow> om_Namespace (meta x) = s) \<and>
      has_labels ls (meta x)) (get w)" by (auto simp: mem_client_def)
  with 3(1) show ?case by (auto simp: mem_view_iff split: option.splits)
next
  case (4 w y r w')
  let ?ys = "filter (\<lambda>z. \<not> same_key (meta y) (meta z)) (get w)"
  have w': "get w' = ?ys"
    using 4(2,3) gp
    by (auto simp: mem_client_def IgnoreNotFound_def not_found_def list_ex_iff filter_id_conv split: if_splits)
  with 4(1) have "mem_wf get meta w'" by (simp add: mem_wf_def distinct_map_filter)
  moreover from this have "mem_view get meta w' = (mem_view get meta w)(meta_key (meta y) := None)"
    by (rule mem_view_eqI) (auto simp: w' mem_view_iff [OF 4(1)] has_key_def)
  ultimately show ?case by blast
next
  case (5 w obj f x w')
  let ?k = "meta_key (meta obj)"
  show ?case
  proof (cases "mem_view get meta w ?k")
    case None
    then have "find (same_key (meta obj) \<circ> meta) (get w) = None" by (simp add: mem_view_def)
    with 5(2) gp have x: "f obj = Inr x" "get w' = x # get w" by (auto simp: mem_client_def split: sum.splits)
    from 5(3) [OF x(1)] have key: "meta_key (meta x) = ?k" .
    have absent: "meta_key (meta y) \<noteq> ?k" if "y \<in> set (get w)" for y
      using None mem_view_iff [OF 5(1), of ?k y] that by auto
    then have "?k \<notin> (meta_key \<circ> meta) ` set (get w)" by force
    with 5(1) x(2) key have valid: "mem_wf get meta w'" by (simp add: mem_wf_def comp_def)
    then have "mem_view get meta w' = (mem_view get meta w)(?k := Some x)"
      using absent key by (intro mem_view_eqI) (auto simp: x(2) mem_view_iff [OF 5(1)])
    with valid x None show ?thesis by auto
  next
    case (Some old)
    then have "find (same_key (meta obj) \<circ> meta) (get w) = Some old" by (simp add: mem_view_def)
    with 5(2) gp have x: "f old = Inr x" "get w' = map (\<lambda>y. if same_key (meta obj) (meta y) then x else y) (get w)"
      by (auto simp: mem_client_def split: sum.splits)
    from Some have old: "old \<in> set (get w)" "meta_key (meta old) = ?k" by (simp_all add: mem_view_iff [OF 5(1)])
    from 5(3) [OF x(1)] old(2) have key: "meta_key (meta x) = ?k" by simp
    have "map (meta_key \<circ> meta) (get w') = map (meta_key \<circ> meta) (get w)"
      using key by (auto simp: x(2) has_key_def)
    with 5(1) have valid: "mem_wf get meta w'" by (simp add: mem_wf_def)
    then have "mem_view get meta w' = (mem_view get meta w)(?k := Some x)"
      using old key by (intro mem_view_eqI) (auto simp: x(2) mem_view_iff [OF 5(1)] has_key_def)
    with valid x Some show ?thesis by auto
  qed
qed

lemma mem_owner:
  "set_controller kind own m = Inr m' \<Longrightarrow> meta_key m' = meta_key m \<and> om_Labels m' = om_Labels m \<and>
     (om_OwnerReferences m'' = om_OwnerReferences m' \<longrightarrow> is_controlled m'' own)"
  by (auto simp: set_controller_def is_controlled_def split: if_splits)

interpretation mem_routes: object_store "k_routes mem_kube" route_Meta
  "mem_view db_routes route_Meta" "mem_wf db_routes route_Meta" desired for desired :: "HTTPRoute \<Rightarrow> 'd"
  by (simp add: mem_kube_def mem_client_object_store)

interpretation mem_grants: object_store "k_grants mem_kube" grant_Meta
  "mem_view db_grants grant_Meta" "mem_wf db_grants grant_Meta" desired for desired :: "ReferenceGrant \<Rightarrow> 'd"
  by (simp add: mem_kube_def mem_client_object_store)

end
