(* ===== verification/RouteConvergence.thy ===== *)
theory RouteConvergence
  imports RouterStatus ObjectStore
begin

text \<open>
  What a pass of the router reconciler makes of the routes of the cluster: a refinement of the
  writes and clean-ups of \<^verbatim>\<open>reconcileRoutes\<close> to one equation on the set of managed routes. The
  client side works over the contract of the API server as a store of objects.
\<close>

section \<open>Loops over a store\<close>

text \<open>The objects that remain after those a query finds and a condition selects are deleted.\<close>

definition remaining :: "('o \<Rightarrow> ObjectMeta) \<Rightarrow> string option \<Rightarrow> (string \<times> string) list \<Rightarrow> ('o \<Rightarrow> bool) \<Rightarrow>
    (string \<times> string \<Rightarrow> 'o option) \<Rightarrow> string \<times> string \<Rightarrow> 'o option" where
  "remaining meta ns ls sel v k = (case v k of None \<Rightarrow> None
     | Some y \<Rightarrow> if in_scope ns k \<and> has_labels ls (meta y) \<and> sel y then None else Some y)"

context object_store
begin

lemma triple_delete_loop:
  "triple (holds v) (delete_loop rc sel ys) (\<lambda>r w. r = None \<longrightarrow>
     holds (\<lambda>k. if \<exists>y\<in>set ys. sel y \<and> meta_key (meta y) = k then None else v k) w)"
proof (induction ys arbitrary: v)
  case (Cons y ys)
  have rest: "triple (\<lambda>w. IgnoreNotFound err = None \<longrightarrow> holds (v(meta_key (meta y) := None)) w)
      (case IgnoreNotFound err of None \<Rightarrow> delete_loop rc sel ys | Some e \<Rightarrow> ret (Some e))
      (\<lambda>r w. r = None \<longrightarrow> holds (\<lambda>k. if \<exists>z\<in>set (y # ys). sel z \<and> meta_key (meta z) = k then None else v k) w)"
    if "sel y" for err
  proof (rule triple_case_option)
    assume "IgnoreNotFound err = None"
    with that show "triple (\<lambda>w. IgnoreNotFound err = None \<longrightarrow> holds (v(meta_key (meta y) := None)) w)
      (delete_loop rc sel ys)
      (\<lambda>r w. r = None \<longrightarrow> holds (\<lambda>k. if \<exists>z\<in>set (y # ys). sel z \<and> meta_key (meta z) = k then None else v k) w)"
      by (intro triple_weaken [OF Cons [of "v(meta_key (meta y) := None)"]]) (auto simp: fun_eq_iff)
  qed (simp add: triple_return)
  show ?case
  proof (cases "sel y")
    case True
    then show ?thesis using triple_bind [OF triple_delete rest] by simp
  next
    case False
    with Cons show ?thesis by simp
  qed
qed (simp add: triple_def)

lemma triple_list:
  "triple (holds v) (rc_List rc ns ls) (\<lambda>r w. \<forall>ys. r = Inr ys \<longrightarrow> holds v w \<and>
     (\<lambda>k. if \<exists>y\<in>set ys. sel y \<and> meta_key (meta y) = k then None else v k) = remaining meta ns ls sel v)"
  unfolding triple_def
proof (intro allI impI)
  fix w ys
  assume w: "holds v w" and "fst (run_state (rc_List rc ns ls) w) = Inr ys"
  then have "run_state (rc_List rc ns ls) w = (Inr ys, snd (run_state (rc_List rc ns ls) w))" by (simp add: prod_eq_iff)
  from list_ok [OF conjunct1 [OF w] this]
  have l: "holds v (snd (run_state (rc_List rc ns ls) w))"
    "set ys = {y. \<exists>k. v k = Some y \<and> in_scope ns k \<and> has_labels ls (meta y)}" using w by simp_all
  have key: "v k = Some y \<Longrightarrow> meta_key (meta y) = k" for k y using keyed w by blast
  have "(\<exists>y\<in>set ys. sel y \<and> meta_key (meta y) = k) \<longleftrightarrow>
      (\<exists>y. v k = Some y \<and> in_scope ns k \<and> has_labels ls (meta y) \<and> sel y)" for k
    unfolding l(2) using key by blast
  then have "(if \<exists>y\<in>set ys. sel y \<and> meta_key (meta y) = k then None else v k) = remaining meta ns ls sel v k" for k
    by (cases "v k") (simp_all add: remaining_def)
  with l(1) show "holds v (snd (run_state (rc_List rc ns ls) w)) \<and>
      (\<lambda>k. if \<exists>y\<in>set ys. sel y \<and> meta_key (meta y) = k then None else v k) = remaining meta ns ls sel v" by blast
qed

lemma triple_list_delete:
  "triple (holds v) (bnd (rc_List rc ns ls) (\<lambda>r. case r of Inl err \<Rightarrow> ret (Some err)
     | Inr ys \<Rightarrow> delete_loop rc sel ys)) (\<lambda>r w. r = None \<longrightarrow> holds (remaining meta ns ls sel v) w)"
proof (rule triple_bind [OF triple_list [where sel = sel]], rule triple_case_sum)
  fix r :: "error + 'o list" and ys assume "r = Inr ys"
  then show "triple (\<lambda>w. \<forall>zs. r = Inr zs \<longrightarrow> holds v w \<and>
      (\<lambda>k. if \<exists>y\<in>set zs. sel y \<and> meta_key (meta y) = k then None else v k) = remaining meta ns ls sel v)
      (delete_loop rc sel ys) (\<lambda>r w. r = None \<longrightarrow> holds (remaining meta ns ls sel v) w)"
    using triple_delete_loop [of v sel ys] by (auto simp: triple_def)
qed (simp add: triple_return)

end

section \<open>A pass over the routes\<close>

text \<open>
  The contract of the cluster during a pass: routes are a store, \<^verbatim>\<open>SetControllerReference\<close> makes
  the owner the controller and touches neither key nor labels, reads and writes of other kinds
  leave the routes alone, and the cells that \<open>look\<close> describes stay as they are.
\<close>

locale routes_of_cluster = object_store "k_routes K" route_Meta view valid "norm \<circ> route_Spec"
  for K :: "'w kube" and view :: "'w \<Rightarrow> string \<times> string \<Rightarrow> HTTPRoute option" and valid :: "'w \<Rightarrow> bool"
    and norm :: "HTTPRouteSpec \<Rightarrow> 'd" +
  fixes look :: "string \<Rightarrow> error + Cell"
  assumes owner: "k_SetControllerReference K kind own m = Inr m' \<Longrightarrow>
      meta_key m' = meta_key m \<and> om_Labels m' = om_Labels m \<and>
      (om_OwnerReferences m'' = om_OwnerReferences m' \<longrightarrow> k_IsControlledBy K m'' own)"
    and others_frame: "grant_packages_keep (\<lambda>w. (valid w \<and> view w = v) \<and> answers K w look) K"
    and cells_frame: "applies_keep (\<lambda>w. answers K w look) (k_routes K)"
      "reads_keep (\<lambda>w. answers K w look) (k_routes K)"
      "deletes_keep (\<lambda>w. answers K w look) (k_routes K) (\<lambda>_. True)"

text \<open>A stored route that is what the plan asks for, up to what the server fills in.\<close>

definition route_synced :: "'w kube \<Rightarrow> CellRouter \<Rightarrow> string \<Rightarrow> (HTTPRouteSpec \<Rightarrow> 'd) \<Rightarrow> routePlan \<Rightarrow> BackendTarget list \<Rightarrow>
    HTTPRoute \<Rightarrow> bool" where
  "route_synced K router ns norm plan backends r \<longleftrightarrow>
     has_labels (managed_labels router) (route_Meta r) \<and> k_IsControlledBy K (route_Meta r) (router_Meta router) \<and>
     norm (route_Spec r) = norm (route_Spec (MutateHTTPRoute r router (plan_spec plan) ns backends (plan_placementRef plan)))"

definition routes_applied :: "'w kube \<Rightarrow> CellRouter \<Rightarrow> string \<Rightarrow> (HTTPRouteSpec \<Rightarrow> 'd) \<Rightarrow> (routePlan \<Rightarrow> BackendTarget list) \<Rightarrow>
    routePlan list \<Rightarrow> (string \<times> string \<Rightarrow> HTTPRoute option) \<Rightarrow> (string \<times> string \<Rightarrow> HTTPRoute option) \<Rightarrow> bool" where
  "routes_applied K router ns norm bs plans v v' \<longleftrightarrow>
     (\<forall>plan\<in>set plans. bs plan \<noteq> [] \<longrightarrow>
        (\<exists>r. v' (ns, plan_name plan) = Some r \<and> route_synced K router ns norm plan (bs plan) r)) \<and>
     (\<forall>k. (\<forall>plan\<in>set plans. bs plan \<noteq> [] \<longrightarrow> k \<noteq> (ns, plan_name plan)) \<longrightarrow> v' k = v k)"

definition routes_keyed :: "(string \<times> string \<Rightarrow> HTTPRoute option) \<Rightarrow> bool" where
  "routes_keyed v \<longleftrightarrow> (\<forall>k r. v k = Some r \<longrightarrow> meta_key (route_Meta r) = k)"

lemma routes_applied_Nil: "routes_applied K router ns norm bs [] v v"
  by (simp add: routes_applied_def)

lemma routes_applied_skip:
  "bs plan = [] \<Longrightarrow> routes_applied K router ns norm bs plans v v' \<Longrightarrow> routes_applied K router ns norm bs (plan # plans) v v'"
  by (simp add: routes_applied_def)

lemma routes_applied_Cons:
  assumes "routes_applied K router ns norm bs plans (v((ns, plan_name plan) := Some r)) v'"
    and "route_synced K router ns norm plan (bs plan) r" "bs plan \<noteq> []" "plan_name plan \<notin> plan_name ` set plans"
  shows "routes_applied K router ns norm bs (plan # plans) v v'"
proof -
  have "v' (ns, plan_name plan) = Some r"
    using assms(1,4) by (auto simp: routes_applied_def image_iff)
  with assms(1-3) show ?thesis by (auto simp: routes_applied_def)
qed

lemma mutated_route_synced:
  assumes "controlled K ''CellRouter'' (router_Meta router) route_Meta (\<lambda>m s. s\<lparr>route_Meta := m\<rparr>)
      (MutateHTTPRoute old router (plan_spec plan) ns backends (plan_placementRef plan)) = Inr y"
    and "\<And>m m' m''. k_SetControllerReference K ''CellRouter'' (router_Meta router) m = Inr m' \<Longrightarrow>
      om_Labels m' = om_Labels m \<and> (om_OwnerReferences m'' = om_OwnerReferences m' \<longrightarrow> k_IsControlledBy K m'' (router_Meta router))"
    and "norm (route_Spec x) = norm (route_Spec y)" "om_Labels (route_Meta x) = om_Labels (route_Meta y)"
      "om_OwnerReferences (route_Meta x) = om_OwnerReferences (route_Meta y)"
  shows "route_synced K router ns norm plan backends x"
proof -
  let ?built = "MutateHTTPRoute old router (plan_spec plan) ns backends (plan_placementRef plan)"
  from assms(1) obtain m where m: "k_SetControllerReference K ''CellRouter'' (router_Meta router) (route_Meta ?built) = Inr m"
    and y: "y = ?built\<lparr>route_Meta := m\<rparr>"
    by (auto simp: controlled_def split: sum.splits)
  have "set (managed_labels router) \<subseteq> set (route_labels router (plan_spec plan) (plan_placementRef plan))"
    by (auto simp: managed_labels_def route_labels_def router_labels_def)
  from route_builder.selected_by_owned [OF this, of old ns backends]
  have "has_labels (managed_labels router) (route_Meta ?built)" by (simp add: has_labels_def)
  then have "has_labels (managed_labels router) (route_Meta x)"
    using assms(2) [OF m] assms(4) y by (simp add: has_labels_def)
  moreover have "k_IsControlledBy K (route_Meta x) (router_Meta router)" using assms(2) [OF m] assms(5) y by simp
  moreover have "norm (route_Spec x) = norm (route_Spec (MutateHTTPRoute x router (plan_spec plan) ns backends (plan_placementRef plan)))"
    using assms(3) y by (simp add: MutateHTTPRoute_def Let_def)
  ultimately show ?thesis unfolding route_synced_def by blast
qed

context routes_of_cluster
begin

abbreviation steady :: "(string \<times> string \<Rightarrow> HTTPRoute option) \<Rightarrow> 'w \<Rightarrow> bool" where
  "steady v w \<equiv> holds v w \<and> answers K w look"

abbreviation plan_backends :: "routePlan \<Rightarrow> BackendTarget list" where
  "plan_backends plan \<equiv> route_backends K look (plan_spec plan)"

lemma triple_resolve:
  "triple (steady v) (resolveRouteBackends K plan) (\<lambda>r w. (\<exists>names reason.
     r = Inr (plan_backends plan, names, reason, plan_backends plan = [])) \<and> steady v w)"
  unfolding triple_def
proof (intro allI impI)
  fix w assume w: "steady v w"
  then obtain reason where "run_state (resolveRouteBackends K plan) w = (Inr (plan_backends plan,
      map bt_CellRef (plan_backends plan), reason, plan_backends plan = []), w)"
    using resolveRouteBackends_run [of K w look plan] by auto
  with w show "(\<exists>names reason. fst (run_state (resolveRouteBackends K plan) w) =
        Inr (plan_backends plan, names, reason, plan_backends plan = [])) \<and>
      steady v (snd (run_state (resolveRouteBackends K plan) w))" by simp
qed

text \<open>The write of one route.\<close>

lemma triple_write_route:
  fixes plan backends and ns :: string
  defines "obj \<equiv> \<lparr>route_Meta = NewMeta (plan_name plan) ns,
      route_Spec = \<lparr>hr_ParentRefs = [], hr_Hostnames = [], hr_Rules = []\<rparr>, route_Parents = []\<rparr>"
  shows "triple (steady v) (rc_CreateOrUpdate (k_routes K) obj
      (\<lambda>route. controlled K ''CellRouter'' (router_Meta router) route_Meta (\<lambda>m s. s\<lparr>route_Meta := m\<rparr>)
        (MutateHTTPRoute route router (plan_spec plan) ns backends (plan_placementRef plan))))
    (\<lambda>r w. (\<forall>x. r = Inr x \<longrightarrow> route_synced K router ns norm plan backends x) \<and>
       (\<forall>x. r = Inr x \<longrightarrow> steady (v((ns, plan_name plan) := Some x)) w))"
proof -
  let ?f = "\<lambda>route. controlled K ''CellRouter'' (router_Meta router) route_Meta (\<lambda>m s. s\<lparr>route_Meta := m\<rparr>)
        (MutateHTTPRoute route router (plan_spec plan) ns backends (plan_placementRef plan))"
  have key: "meta_key (route_Meta y) = meta_key (route_Meta old)" if "?f old = Inr y" for old y
    using that owner [of "''CellRouter''" "router_Meta router"] route_builder.mutate_identity
    by (fastforce simp: controlled_def split: sum.splits)
  have obj: "meta_key (route_Meta obj) = (ns, plan_name plan)" by (simp add: obj_def NewMeta_def)
  have "triple (steady v) (rc_CreateOrUpdate (k_routes K) obj ?f) (\<lambda>_ w. answers K w look)"
    using cells_frame(1) by (auto simp: applies_keep_def keeps_def triple_def)
  moreover have "triple (steady v) (rc_CreateOrUpdate (k_routes K) obj ?f) (\<lambda>r w. \<forall>x. r = Inr x \<longrightarrow>
      holds (v(meta_key (route_Meta obj) := Some x)) w \<and>
      (\<exists>old y. ?f old = Inr y \<and> (norm \<circ> route_Spec) x = (norm \<circ> route_Spec) y \<and>
        om_Labels (route_Meta x) = om_Labels (route_Meta y) \<and>
        om_OwnerReferences (route_Meta x) = om_OwnerReferences (route_Meta y)))"
    by (rule triple_weaken [OF triple_apply [of ?f v obj, OF key]]) simp_all
  ultimately show ?thesis
  proof (rule triple_weaken [OF triple_conj], goal_cases)
    case (2 r w)
    have "route_synced K router ns norm plan backends x" if x: "r = Inr x" for x
    proof -
      from 2 x obtain old y where "?f old = Inr y" "norm (route_Spec x) = norm (route_Spec y)"
        "om_Labels (route_Meta x) = om_Labels (route_Meta y)"
        "om_OwnerReferences (route_Meta x) = om_OwnerReferences (route_Meta y)" by auto
      then show ?thesis using owner by (intro mutated_route_synced) blast+
    qed
    with 2 show ?case by (auto simp: obj)
  qed
qed

lemma triple_apply_route:
  "triple (steady v) (apply_route K router ns plan backends st p) (\<lambda>r w. \<forall>p'. r = Inr p' \<longrightarrow>
     (\<exists>x. route_synced K router ns norm plan backends x \<and> steady (v((ns, plan_name plan) := Some x)) w) \<and>
     rp_expectedRoutes p' = plan_name plan # rp_expectedRoutes p)"
  unfolding apply_route_def
proof (rule triple_keeps [OF keeps_grants_loop [OF others_frame]], rule triple_case_sum, simp add: triple_return,
    rule triple_bind_fact [OF triple_write_route], rule triple_case_sum, simp add: triple_return, goal_cases)
  case (1 r grants r' x)
  have ev: "keeps (steady v') (eventf K a b c)" for v' a b c
    using others_frame by (auto simp: grant_packages_keep_def intro: keeps_intros)
  from 1 show ?case
    by (intro triple_weaken [OF triple_keeps [OF ev [of "v((ns, plan_name plan) := Some x)"] triple_case_prod [OF triple_return]]]) auto
qed

text \<open>The loop over the plans.\<close>

abbreviation planned_names :: "routePlan list \<Rightarrow> string set" where
  "planned_names plans \<equiv> {plan_name plan | plan. plan \<in> set plans \<and> plan_backends plan \<noteq> []}"

definition plans_done :: "CellRouter \<Rightarrow> string \<Rightarrow> routePlan list \<Rightarrow> (string \<times> string \<Rightarrow> HTTPRoute option) \<Rightarrow> route_pass \<Rightarrow>
    error + route_pass \<Rightarrow> 'w \<Rightarrow> bool" where
  "plans_done router ns plans v p r w \<longleftrightarrow> (\<forall>p'. r = Inr p' \<longrightarrow>
     (\<exists>v'. routes_applied K router ns norm plan_backends plans v v' \<and> steady v' w) \<and>
     set (rp_expectedRoutes p') = set (rp_expectedRoutes p) \<union> planned_names plans)"

lemma plans_done_skip:
  assumes "plan_backends plan = []" "plans_done router ns plans v p1 r w" "rp_expectedRoutes p1 = rp_expectedRoutes p"
  shows "plans_done router ns (plan # plans) v p r w"
  using assms routes_applied_skip [where bs = plan_backends, OF assms(1)] unfolding plans_done_def by fastforce

lemma plans_done_Cons:
  assumes "plans_done router ns plans (v((ns, plan_name plan) := Some x)) p1 r w" "plan_backends plan \<noteq> []"
    and "route_synced K router ns norm plan (plan_backends plan) x" "plan_name plan \<notin> plan_name ` set plans"
    and "rp_expectedRoutes p1 = plan_name plan # rp_expectedRoutes p"
  shows "plans_done router ns (plan # plans) v p r w"
  using assms routes_applied_Cons [where bs = plan_backends, OF _ assms(3,2,4)] unfolding plans_done_def by fastforce

lemma triple_plans_loop:
  "distinct (map plan_name plans) \<Longrightarrow>
   triple (steady v) (plans_loop K router ns plans p) (plans_done router ns plans v p)"
proof (induction plans arbitrary: v p)
  case Nil
  then show ?case by (auto simp: triple_def plans_done_def intro!: exI [of _ v] routes_applied_Nil)
next
  case (Cons plan plans)
  then have fresh: "plan_name plan \<notin> plan_name ` set plans" and rest: "distinct (map plan_name plans)" by auto
  show ?case
    unfolding plans_loop.simps
  proof (rule triple_bind_fact [OF triple_resolve], elim exE, simp only: sum.case prod.case Let_def, goal_cases)
    case (1 r names reason)
    have patch: "keeps (steady v) (case plan_placement plan of None \<Rightarrow> ret None
        | Some placement \<Rightarrow> patchPlacementReadiness K placement names reason (plan_backends plan \<noteq> []))"
      by (intro keeps_intros others_frame)
    show ?case
    proof (rule triple_keeps [OF patch], rule triple_case_option, rule triple_if, goal_cases)
      case (1 r')
      then show ?case
        by (intro triple_weaken [OF Cons.IH [OF rest]]) (assumption, erule plans_done_skip [rotated], simp_all)
    next
      case (2 r')
      have loop: "triple (\<lambda>w. rp_expectedRoutes p1 = plan_name plan # rp_expectedRoutes p \<and>
            (\<exists>x. route_synced K router ns norm plan (plan_backends plan) x \<and> steady (v((ns, plan_name plan) := Some x)) w))
          (plans_loop K router ns plans p1) (plans_done router ns (plan # plans) v p)" for p1
        by (intro triple_fact triple_ex triple_weaken [OF Cons.IH [OF rest]], assumption)
          (erule plans_done_Cons [OF _ 2(2) _ fresh])
      show ?case
        by (rule triple_bind [OF triple_apply_route], rule triple_case_sum, simp add: triple_return plans_done_def,
            rule triple_weaken [OF loop]) simp_all
    next
      case 3
      then show ?case by (simp add: triple_return plans_done_def)
    qed
  qed
qed

text \<open>The whole pass: the planned routes are written, then the others with the router's labels go.\<close>

definition pass_done :: "CellRouter \<Rightarrow> string \<Rightarrow> routePlan list \<Rightarrow> (string \<times> string \<Rightarrow> HTTPRoute option) \<Rightarrow>
    (error + bool \<times> bool \<times> ManagedRouteStatus list) option \<Rightarrow> 'w \<Rightarrow> bool" where
  "pass_done router ns plans v r w \<longleftrightarrow> ((\<exists>x. r = Some (Inr x)) \<longrightarrow>
     (\<exists>v'. (routes_applied K router ns norm plan_backends plans v v' \<and> routes_keyed v') \<and>
        holds (remaining route_Meta (Some ns) (managed_labels router) (\<lambda>r. om_Name (route_Meta r) \<notin> planned_names plans) v') w))"

lemma triple_cleanup:
  assumes "set expected = planned_names plans"
  shows "triple (steady v) (cleanupStaleRoutes K router ns expected) (\<lambda>r w. r = None \<longrightarrow>
    steady (remaining route_Meta (Some ns) (managed_labels router) (\<lambda>r. om_Name (route_Meta r) \<notin> planned_names plans) v) w)"
proof -
  have "keeps (\<lambda>w. answers K w look) (cleanupStaleRoutes K router ns expected)"
    unfolding cleanupStaleRoutes_def by (intro keeps_intros keeps_delete_loop_any cells_frame)
  then have "triple (steady v) (cleanupStaleRoutes K router ns expected) (\<lambda>_ w. answers K w look)"
    by (auto simp: keeps_def triple_def)
  moreover have "triple (steady v) (cleanupStaleRoutes K router ns expected) (\<lambda>r w. r = None \<longrightarrow>
      holds (remaining route_Meta (Some ns) (managed_labels router) (\<lambda>r. om_Name (route_Meta r) \<notin> planned_names plans) v) w)"
    unfolding cleanupStaleRoutes_def assms by (rule triple_weaken [OF triple_list_delete]) simp_all
  ultimately show ?thesis by (auto simp: triple_def)
qed

lemma triple_pass:
  assumes build: "buildRoutePlans (k_subexpNames K) router placements = Some (Inr (plans, invalid))"
  shows "triple (steady v) (reconcileRoutes K router ns placements) (pass_done router ns plans v)"
proof -
  note distinct = buildRoutePlans_names [OF build]
  have helpers: "helpers_keep (steady v) K" for v using others_frame by (simp add: grant_packages_keep_def)
  have fail: "triple P (ret (Some (Inl err))) (pass_done router ns plans v)" for P err
    by (simp add: triple_return pass_done_def)
  have clean: "triple (\<lambda>w. \<exists>v'. (routes_applied K router ns norm plan_backends plans v v' \<and> routes_keyed v') \<and> steady v' w)
      (bnd (cleanupStaleRoutes K router ns (rp_expectedRoutes p)) (\<lambda>r. case r of Some err \<Rightarrow> ret (Some (Inl err))
        | None \<Rightarrow> bnd (cleanupStaleReferenceGrants K router (rp_expectedGrants p)) (\<lambda>r. case r of Some err \<Rightarrow> ret (Some (Inl err))
          | None \<Rightarrow> ret (Some (Inr (rp_allReady p, rp_needsRequeue p, rp_statuses p))))))
      (pass_done router ns plans v)"
    if "set (rp_expectedRoutes p) = planned_names plans" for p
  proof (rule triple_ex, rule triple_fact, rule triple_bind [OF triple_cleanup [OF that]], rule triple_case_option, goal_cases)
    case (1 v' r)
    then have "triple (steady (remaining route_Meta (Some ns) (managed_labels router)
          (\<lambda>r. om_Name (route_Meta r) \<notin> planned_names plans) v'))
        (bnd (cleanupStaleReferenceGrants K router (rp_expectedGrants p)) (\<lambda>r. case r of Some err \<Rightarrow> ret (Some (Inl err))
          | None \<Rightarrow> ret (Some (Inr (rp_allReady p, rp_needsRequeue p, rp_statuses p))))) (pass_done router ns plans v)"
      by (intro triple_keeps [OF keeps_cleanupStaleReferenceGrants [OF others_frame]] triple_case_option triple_return fail)
        (auto simp: pass_done_def)
    then show ?case by (rule triple_weaken) (use 1(2) in auto)
  qed (rule fail)
  show ?thesis
    unfolding reconcileRoutes_def build option.case sum.case prod.case
  proof (rule triple_keeps [OF keeps_helpers(2) [OF helpers]], rule triple_keeps [OF keeps_invalid_loop [OF others_frame]],
      rule triple_case_prod, rule triple_case_option, rule triple_bind [OF triple_plans_loop [OF distinct]], rule triple_case_sum,
      rule fail, goal_cases)
    case (1 entries r1 e ss r2 p)
    show ?case
      using keyed
      by (intro triple_weaken [OF triple_fact, OF clean [of p]]) (auto simp: plans_done_def 1 routes_keyed_def)
  qed (rule fail)
qed

end

section \<open>The in-memory cluster\<close>

definition cells_look :: "Cell list \<Rightarrow> (string \<Rightarrow> error + Cell) \<Rightarrow> bool" where
  "cells_look cells look \<longleftrightarrow>
     (\<forall>n. look n = (case find (has_key [] n \<circ> cell_Meta) cells of None \<Rightarrow> Inl not_found | Some c \<Rightarrow> Inr c))"

lemma mem_answers: "(\<lambda>w. answers mem_kube w look) = (\<lambda>w. cells_look (db_cells w) look)"
proof
  fix w :: cluster
  have "IsNotFound e" if "look n = Inl e" "cells_look (db_cells w) look" for n e
    using that by (cases "find (has_key [] n \<circ> cell_Meta) (db_cells w)") (auto simp: cells_look_def not_found_def)
  moreover have "(\<forall>n. run_state (rc_Get (k_cells mem_kube) [] n) w = (look n, w)) \<longleftrightarrow> cells_look (db_cells w) look"
    by (auto simp: cells_look_def mem_kube_def mem_client_def)
  ultimately show "answers mem_kube w look = cells_look (db_cells w) look"
    unfolding answers_def by blast
qed

interpretation mem_pass: routes_of_cluster mem_kube "mem_view db_routes route_Meta" "mem_wf db_routes route_Meta" norm look
  for norm :: "HTTPRouteSpec \<Rightarrow> 'd" and look
proof (unfold_locales, goal_cases)
  case (1 kind own m m' m'')
  then show ?case using mem_owner by (simp add: mem_kube_def)
next
  case (2 v)
  show ?case
    unfolding grant_packages_keep_def mem_answers [THEN fun_cong]
    by (intro conjI mem_helpers_keep) (simp_all add: mem_kube_def mem_client_reads mem_client_keeps mem_wf_def mem_view_def [abs_def])
qed (unfold mem_answers, simp_all add: mem_kube_def mem_client_reads mem_client_keeps)

text \<open>What the cleaned-up view holds, from the view after the writes.\<close>

lemma remaining_planned:
  assumes applied: "routes_applied K router ns norm bs plans v v'" "routes_keyed v'"
    and after: "v'' = remaining route_Meta (Some ns) (managed_labels router)
      (\<lambda>r. om_Name (route_Meta r) \<notin> {plan_name plan | plan. plan \<in> set plans \<and> bs plan \<noteq> []}) v'"
    and keyed: "routes_keyed v''"
  shows "{n. \<exists>r. v'' (ns, n) = Some r \<and> has_labels (managed_labels router) (route_Meta r)} =
      {plan_name plan | plan. plan \<in> set plans \<and> bs plan \<noteq> []}" (is "?managed = ?planned")
    and "plan \<in> set plans \<Longrightarrow> bs plan \<noteq> [] \<Longrightarrow>
      \<exists>r. v'' (ns, plan_name plan) = Some r \<and> route_synced K router ns norm plan (bs plan) r"
    and "fst k \<noteq> ns \<Longrightarrow> v'' k = v k"
    and "v k = Some r \<Longrightarrow> \<not> has_labels (managed_labels router) (route_Meta r) \<Longrightarrow>
      \<forall>plan\<in>set plans. snd k \<noteq> plan_name plan \<Longrightarrow> v'' k = Some r"
proof -
  show kept: "\<exists>r. v'' (ns, plan_name plan) = Some r \<and> route_synced K router ns norm plan (bs plan) r"
    if "plan \<in> set plans" "bs plan \<noteq> []" for plan
  proof -
    from applied that obtain r where r: "v' (ns, plan_name plan) = Some r" "route_synced K router ns norm plan (bs plan) r"
      unfolding routes_applied_def by blast
    moreover have "om_Name (route_Meta r) = plan_name plan" using applied(2) r(1) by (auto simp: routes_keyed_def)
    ultimately show ?thesis using that by (auto simp: after remaining_def)
  qed
  show "?managed = ?planned"
  proof (intro equalityI subsetI)
    fix n assume "n \<in> ?managed"
    then obtain r where r: "v'' (ns, n) = Some r" "has_labels (managed_labels router) (route_Meta r)" by blast
    moreover from keyed r(1) have "om_Name (route_Meta r) = n" by (auto simp: routes_keyed_def)
    ultimately show "n \<in> ?planned" by (auto simp: after remaining_def split: option.splits if_splits)
  next
    fix n assume "n \<in> ?planned"
    with kept show "n \<in> ?managed" unfolding route_synced_def by blast
  qed
  show "v'' k = v k" if "fst k \<noteq> ns"
  proof -
    have "k \<noteq> (ns, n)" for n using that by auto
    with applied(1) have "v' k = v k" unfolding routes_applied_def by blast
    with that show ?thesis by (simp add: after remaining_def split: option.splits)
  qed
  show "v'' k = Some r" if "v k = Some r" "\<not> has_labels (managed_labels router) (route_Meta r)"
      "\<forall>plan\<in>set plans. snd k \<noteq> plan_name plan"
  proof -
    have "k \<noteq> (ns, plan_name plan)" if "plan \<in> set plans" for plan using \<open>\<forall>plan\<in>set plans. snd k \<noteq> plan_name plan\<close> that by auto
    with applied(1) have "v' k = v k" unfolding routes_applied_def by blast
    with that show ?thesis by (simp add: after remaining_def)
  qed
qed

section \<open>Properties\<close>

text \<open>
  C2: after a successful pass over the routes the cluster holds what the plans say, up to what
  the server fills in. The routes of the gateway namespace that carry the labels of the router
  are exactly the planned routes with backends; each of them is controlled by the router, and
  its spec is the one the builder writes for the plan and its traffic-ready backends. Routes of
  other namespaces, and other routes without the labels, are as they were.
\<close>

theorem routes_converged:
  assumes store: "routes_of_cluster K view valid norm look"
    and build: "buildRoutePlans (k_subexpNames K) router placements = Some (Inr (plans, invalid))"
    and start: "valid w" "answers K w look"
    and run: "run_state (reconcileRoutes K router ns placements) w = (Some (Inr result), w')"
  shows "{n. \<exists>r. view w' (ns, n) = Some r \<and> has_labels (managed_labels router) (route_Meta r)} =
      {plan_name plan | plan. plan \<in> set plans \<and> route_backends K look (plan_spec plan) \<noteq> []} \<and>
    (\<forall>plan\<in>set plans. route_backends K look (plan_spec plan) \<noteq> [] \<longrightarrow>
      (\<exists>r. view w' (ns, plan_name plan) = Some r \<and> k_IsControlledBy K (route_Meta r) (router_Meta router) \<and>
         norm (route_Spec r) = norm (route_Spec (MutateHTTPRoute r router (plan_spec plan) ns
           (route_backends K look (plan_spec plan)) (plan_placementRef plan))))) \<and>
    (\<forall>k. fst k \<noteq> ns \<longrightarrow> view w' k = view w k) \<and>
    (\<forall>k r. view w k = Some r \<longrightarrow> \<not> has_labels (managed_labels router) (route_Meta r) \<longrightarrow>
       (\<forall>plan\<in>set plans. snd k \<noteq> plan_name plan) \<longrightarrow> view w' k = Some r)"
proof -
  note objects = routes_of_cluster.axioms(1) [OF store]
  have "routes_of_cluster.pass_done K view valid norm look router ns plans (view w) (Some (Inr result)) w'"
    by (rule triple_run [OF routes_of_cluster.triple_pass [OF store build] _ run]) (use start in simp)
  then obtain v' where applied: "routes_applied K router ns norm (\<lambda>plan. route_backends K look (plan_spec plan)) plans (view w) v'"
    and after: "view w' = remaining route_Meta (Some ns) (managed_labels router)
      (\<lambda>r. om_Name (route_Meta r) \<notin> {plan_name plan | plan. plan \<in> set plans \<and> route_backends K look (plan_spec plan) \<noteq> []}) v'"
    and keyed: "routes_keyed v'" and valid: "valid w'"
    unfolding routes_of_cluster.pass_done_def [OF store] by blast
  have "routes_keyed (view w')" using object_store.keyed [OF objects valid] by (auto simp: routes_keyed_def)
  note parts = remaining_planned [OF applied keyed after this]
  show ?thesis
    using parts(2) unfolding route_synced_def
    by (intro conjI parts(1) allI ballI impI parts(3,4)) auto
qed

definition ready_cluster :: cluster where
  "ready_cluster = example_cluster\<lparr>db_cells := [ready_cell], db_routes := [labelled_route]\<rparr>"

text \<open>
  On this cluster the route \<open>all\<close> has the traffic-ready cell \<open>alpha\<close> behind it and is
  written, and the route \<open>r\<close> with the labels of the router goes.
\<close>

theorem routes_converged_witness:
  "\<exists>result w'. run_state (reconcileRoutes mem_kube routed_router ''infra'' []) ready_cluster = (Some (Inr result), w') \<and>
     {n. \<exists>r. mem_view db_routes route_Meta w' (''infra'', n) = Some r \<and>
       has_labels (managed_labels routed_router) (route_Meta r)} = {''all''}"
proof -
  let ?run = "run_state (reconcileRoutes mem_kube routed_router ''infra'' []) ready_cluster"
  have "(case fst ?run of Some (Inr _) \<Rightarrow> True | _ \<Rightarrow> False)" by code_simp
  then obtain result where "fst ?run = Some (Inr result)" by (auto split: option.splits sum.splits)
  then obtain w' where run: "?run = (Some (Inr result), w')" by (metis prod.collapse)
  have build: "buildRoutePlans (k_subexpNames mem_kube) routed_router [] = Some (Inr
      ([\<lparr>plan_name = ''all'', plan_spec = example_route, plan_placement = None, plan_placementRef = []\<rparr>], fmempty))"
    by (simp add: buildRoutePlans_def validatePlacementOverlaps_def routed_router_def) (simp add: example_route_def)
  have valid: "mem_wf db_routes route_Meta ready_cluster" by (simp add: mem_wf_def ready_cluster_def)
  have "answers mem_kube ready_cluster example_look"
    using example_answers mem_answers [of example_look, THEN fun_cong] by (simp add: ready_cluster_def)
  from conjunct1 [OF routes_converged [OF mem_pass.routes_of_cluster_axioms [where norm = id] build valid this run]]
  have "{n. \<exists>r. mem_view db_routes route_Meta w' (''infra'', n) = Some r \<and>
      has_labels (managed_labels routed_router) (route_Meta r)} = {''all''}" by (simp add: example_backends)
  with run show ?thesis by blast
qed

end
