(* ===== verification/CellStability.thy ===== *)
theory CellStability
  imports CellController ObjectStore
begin

text \<open>
  A pass of the cell reconciler as a relation between the objects of the cluster before and
  after it, and that this relation settles: a second pass over an unchanged cell finds what it
  wants and leaves the cluster as it is. The contract of the API server is told by what it
  admits: it may complete what is written, with identifiers, labels and defaults of its own,
  and it may keep a deleted object for a while, marked as terminating.
\<close>

section \<open>Writing and removing, as relations on stores\<close>

type_synonym 'o store = "string \<times> string \<Rightarrow> 'o option"

text \<open>
  \<open>admits old y x\<close>: a server that holds \<open>old\<close> and is asked to store \<open>y\<close> may store \<open>x\<close>.
\<close>

type_synonym 'o admission = "'o option \<Rightarrow> 'o \<Rightarrow> 'o \<Rightarrow> bool"

definition stored_as :: "'o admission \<Rightarrow> 'o \<Rightarrow> ('o \<Rightarrow> error + 'o) \<Rightarrow> string \<times> string \<Rightarrow> 'o store \<Rightarrow> 'o store \<Rightarrow> bool" where
  "stored_as admits obj f k m m' \<longleftrightarrow>
     (\<exists>y x. f (case m k of None \<Rightarrow> obj | Some old \<Rightarrow> old) = Inr y \<and> admits (m k) y x \<and> m' = m(k \<mapsto> x))"

text \<open>An object that is gone or marked for deletion, which waits for its finalizers.\<close>

definition ended :: "('o \<Rightarrow> ObjectMeta) \<Rightarrow> 'o option \<Rightarrow> bool" where
  "ended meta o' \<longleftrightarrow> (\<forall>x. o' = Some x \<longrightarrow> om_DeletionTimestamp (meta x) \<noteq> None)"

text \<open>A deletion ends the object, and one that ends already stays as it is; the others stay too.\<close>

definition dropped :: "('o \<Rightarrow> ObjectMeta) \<Rightarrow> string \<times> string \<Rightarrow> 'o store \<Rightarrow> 'o store \<Rightarrow> bool" where
  "dropped meta k m m' \<longleftrightarrow>
     (\<forall>j. j \<noteq> k \<longrightarrow> m' j = m j) \<and> ended meta (m' k) \<and> (ended meta (m k) \<longrightarrow> m' k = m k)"

definition removed :: "('o \<Rightarrow> ObjectMeta) \<Rightarrow> ('o \<Rightarrow> bool) \<Rightarrow> string \<times> string \<Rightarrow> 'o store \<Rightarrow> 'o store \<Rightarrow> bool" where
  "removed meta allowed k m m' \<longleftrightarrow> (if \<exists>y. m k = Some y \<and> allowed y then dropped meta k m m' else m' = m)"

text \<open>An object that is wanted is written, one that is not is removed.\<close>

definition placed :: "'o admission \<Rightarrow> ('o \<Rightarrow> ObjectMeta) \<Rightarrow> bool \<Rightarrow> 'o \<Rightarrow> ('o \<Rightarrow> error + 'o) \<Rightarrow> ('o \<Rightarrow> bool) \<Rightarrow>
    string \<times> string \<Rightarrow> 'o store \<Rightarrow> 'o store \<Rightarrow> bool" where
  "placed admits meta wanted obj f allowed k m m' \<longleftrightarrow>
     (if wanted then stored_as admits obj f k m m' else removed meta allowed k m m')"

lemma removed_again:
  assumes "removed meta allowed k m m1" "removed meta allowed k m1 m2"
  shows "m2 = m1"
proof (cases "\<exists>y. m k = Some y \<and> allowed y")
  case True
  with assms(1) have "ended meta (m1 k)" by (simp add: removed_def dropped_def)
  with assms(2) show ?thesis by (auto simp: removed_def dropped_def fun_eq_iff split: if_splits) metis
next
  case False
  with assms show ?thesis by (simp add: removed_def)
qed

section \<open>The contract of the API server\<close>

text \<open>
  The third request of a write, a read and a write: it asks for the maps and the rest of the
  metadata as they are stored. A map is the stored one, or has its entries; an empty map is
  stored as a missing one, so the latter counts only where the earlier request gave a map too.
\<close>

definition same_map :: "gomap \<Rightarrow> gomap \<Rightarrow> gomap \<Rightarrow> bool" where
  "same_map y x z \<longleftrightarrow> z = x \<or> y \<noteq> None \<and> z \<noteq> None \<and> (\<forall>k. gomap_lookup z k = gomap_lookup x k)"

definition same_request :: "ObjectMeta \<Rightarrow> ObjectMeta \<Rightarrow> ObjectMeta \<Rightarrow> bool" where
  "same_request y x z \<longleftrightarrow>
     z\<lparr>om_Labels := None, om_Annotations := None\<rparr> = x\<lparr>om_Labels := None, om_Annotations := None\<rparr> \<and>
     same_map (om_Labels y) (om_Labels x) (om_Labels z) \<and>
     same_map (om_Annotations y) (om_Annotations x) (om_Annotations z)"

text \<open>What a mutation may not touch: the key, and the mark of deletion, which the server alone sets.\<close>

definition keeps_identity :: "('o \<Rightarrow> ObjectMeta) \<Rightarrow> ('o \<Rightarrow> error + 'o) \<Rightarrow> bool" where
  "keeps_identity meta f \<longleftrightarrow> (\<forall>old y. f old = Inr y \<longrightarrow> meta_key (meta y) = meta_key (meta old) \<and>
     om_DeletionTimestamp (meta y) = om_DeletionTimestamp (meta old))"

text \<open>
  Of a request the server keeps the key, the owner references and the entries of labels and
  annotations; it may add entries, identifiers and defaults. What it makes of the rest (the
  \<open>spec\<close>) is left open, except that a request that asks for the stored metadata and for the
  spec of the earlier request stores nothing new.
\<close>

locale api_store =
  fixes rc :: "('o, 'w) resource_client"
    and meta :: "'o \<Rightarrow> ObjectMeta"
    and spec :: "'o \<Rightarrow> 's"
    and get :: "'v \<Rightarrow> 'o store"
    and put :: "'o store \<Rightarrow> 'v \<Rightarrow> 'v"
    and view :: "'w \<Rightarrow> 'v"
    and valid :: "'w \<Rightarrow> bool"
    and admits :: "'o admission"
  assumes keyed: "valid w \<Longrightarrow> get (view w) k = Some y \<Longrightarrow> meta_key (meta y) = k"
    and put_get: "put (get v) v = v"
    and get_put: "get (put m v) = m"
    and get_ok: "valid w \<Longrightarrow> run_state (rc_Get rc ns n) w = (r, w') \<Longrightarrow>
      valid w' \<and> view w' = view w \<and> (\<forall>y. r = Inr y \<longrightarrow> get (view w) (ns, n) = Some y) \<and>
      (\<forall>e. r = Inl e \<longrightarrow> IsNotFound e \<longrightarrow> get (view w) (ns, n) = None)"
    and apply_ok: "valid w \<Longrightarrow> run_state (rc_CreateOrUpdate rc obj f) w = (Inr x, w') \<Longrightarrow>
      keeps_identity meta f \<Longrightarrow> om_DeletionTimestamp (meta obj) = None \<Longrightarrow>
      valid w' \<and> view w' = put ((get (view w))(meta_key (meta obj) \<mapsto> x)) (view w) \<and>
      (\<exists>y. f (case get (view w) (meta_key (meta obj)) of None \<Rightarrow> obj | Some old \<Rightarrow> old) = Inr y \<and>
         admits (get (view w) (meta_key (meta obj))) y x)"
    and admits_key: "admits o' y x \<Longrightarrow> meta_key (meta x) = meta_key (meta y)"
    and admits_owners: "admits o' y x \<Longrightarrow> om_OwnerReferences (meta x) = om_OwnerReferences (meta y)"
    and admits_labels: "admits o' y x \<Longrightarrow> gomap_lookup (om_Labels (meta y)) l = Some u \<Longrightarrow>
      gomap_lookup (om_Labels (meta x)) l = Some u"
    and admits_annotations: "admits o' y x \<Longrightarrow> gomap_lookup (om_Annotations (meta y)) l = Some u \<Longrightarrow>
      gomap_lookup (om_Annotations (meta x)) l = Some u"
    and admits_again: "admits o' y x \<Longrightarrow> admits (Some x) z x' \<Longrightarrow> spec z = spec y \<Longrightarrow>
      same_request (meta y) (meta x) (meta z) \<Longrightarrow> x' = x"
begin

abbreviation at :: "'v \<Rightarrow> 'w \<Rightarrow> bool" where
  "at v w \<equiv> valid w \<and> view w = v"

lemma triple_write:
  assumes "keeps_identity meta f" "om_DeletionTimestamp (meta obj) = None"
  shows "triple (at v) (rc_CreateOrUpdate rc obj f) (\<lambda>r w. \<forall>x. r = Inr x \<longrightarrow>
    meta_key (meta x) = meta_key (meta obj) \<and>
    (\<exists>m. stored_as admits obj f (meta_key (meta obj)) (get v) m \<and> at (put m v) w))"
  unfolding triple_def
proof (intro allI impI)
  fix w x
  assume w: "at v w" and x: "fst (run_state (rc_CreateOrUpdate rc obj f) w) = Inr x"
  define w' where "w' = snd (run_state (rc_CreateOrUpdate rc obj f) w)"
  with x have "run_state (rc_CreateOrUpdate rc obj f) w = (Inr x, w')" by (simp add: prod_eq_iff)
  from apply_ok [OF conjunct1 [OF w] this assms] w obtain y where
    step: "valid w'" "f (case get v (meta_key (meta obj)) of None \<Rightarrow> obj | Some old \<Rightarrow> old) = Inr y"
      "admits (get v (meta_key (meta obj))) y x" "view w' = put ((get v)(meta_key (meta obj) \<mapsto> x)) v" by auto
  then have "meta_key (meta x) = meta_key (meta obj)"
    using keyed [of w' "meta_key (meta obj)" x] by (simp add: get_put)
  moreover have "stored_as admits obj f (meta_key (meta obj)) (get v) ((get v)(meta_key (meta obj) \<mapsto> x))"
    using step(2,3) unfolding stored_as_def by blast
  ultimately show "meta_key (meta x) = meta_key (meta obj) \<and>
      (\<exists>m. stored_as admits obj f (meta_key (meta obj)) (get v) m \<and> at (put m v) (snd (run_state (rc_CreateOrUpdate rc obj f) w)))"
    using step(1,4) unfolding w'_def by blast
qed

text \<open>Writing again, by a function that asks for what is there, leaves the store as it is.\<close>

lemma stored_again:
  assumes "stored_as admits obj f k m m1" "stored_as admits obj f k m1 m2"
    and "\<And>old y o' x z. f old = Inr y \<Longrightarrow> admits o' y x \<Longrightarrow> f x = Inr z \<Longrightarrow>
      spec z = spec y \<and> same_request (meta y) (meta x) (meta z)"
  shows "m2 = m1"
proof -
  from assms(1) obtain old y x where x: "f old = Inr y" "admits (m k) y x" "m1 = m(k \<mapsto> x)"
    unfolding stored_as_def by blast
  with assms(2) obtain z x' where x': "f x = Inr z" "admits (Some x) z x'" "m2 = m1(k \<mapsto> x')"
    unfolding stored_as_def by auto
  from admits_again [OF x(2) x'(2)] assms(3) [OF x(1,2) x'(1)] have "x' = x" by blast
  with x(3) x'(3) show ?thesis by simp
qed

end

text \<open>The kinds whose objects a pass deletes one by one.\<close>

locale deletable_store = api_store +
  assumes delete_ok: "valid w \<Longrightarrow> run_state (rc_Delete rc y) w = (e, w') \<Longrightarrow> IgnoreNotFound e = None \<Longrightarrow>
      valid w' \<and> (\<exists>m. dropped meta (meta_key (meta y)) (get (view w)) m \<and> view w' = put m (view w))"
begin

lemma triple_remove:
  "triple (at v) (bnd (rc_Get rc ns n) (\<lambda>r. case r of Inl err \<Rightarrow> ret (if IsNotFound err then None else Some err)
     | Inr y \<Rightarrow> if \<not> allowed y then ret None else bnd (rc_Delete rc y) (\<lambda>err. ret (IgnoreNotFound err))))
   (\<lambda>r w. r = None \<longrightarrow> (\<exists>m. removed meta allowed (ns, n) (get v) m \<and> at (put m v) w))"
  unfolding triple_def
proof (intro allI impI, goal_cases)
  case (1 w)
  obtain r w1 where g: "run_state (rc_Get rc ns n) w = (r, w1)" by fastforce
  note w1 = get_ok [OF conjunct1 [OF 1(1)] g]
  have same: "removed meta allowed (ns, n) (get v) (get v)" "at (put (get v) v) w1"
    if "\<And>y. get v (ns, n) = Some y \<Longrightarrow> \<not> allowed y"
    using that w1 1(1) by (auto simp: removed_def put_get)
  show ?case
  proof (cases r)
    case (Inl err)
    with 1(2) g have "IsNotFound err" by (simp split: if_splits)
    with Inl w1 1(1) have "get v (ns, n) = None" by simp
    with same have "\<exists>m. removed meta allowed (ns, n) (get v) m \<and> at (put m v) w1" by auto
    with Inl g show ?thesis by simp
  next
    case (Inr y)
    obtain e w2 where d: "run_state (rc_Delete rc y) w1 = (e, w2)" by fastforce
    have y: "get v (ns, n) = Some y" "meta_key (meta y) = (ns, n)"
      using w1 1(1) Inr keyed [of w "(ns, n)" y] by auto
    show ?thesis
    proof (cases "allowed y")
      case True
      then have "IgnoreNotFound e = None" using 1(2) g Inr d by simp
      from delete_ok [OF conjunct1 [OF w1] d this] obtain m where
        "dropped meta (ns, n) (get v) m" "at (put m v) w2" using y w1 1(1) by auto
      with y True have "\<exists>m. removed meta allowed (ns, n) (get v) m \<and> at (put m v) w2" by (auto simp: removed_def)
      with g Inr d True show ?thesis by simp
    next
      case False
      with same y have "\<exists>m. removed meta allowed (ns, n) (get v) m \<and> at (put m v) w1" by auto
      with g Inr False show ?thesis by simp
    qed
  qed
qed

text \<open>An object that depends on a policy: written when it is configured, removed when it is not.\<close>

lemma triple_place:
  assumes "keeps_identity meta f" "om_DeletionTimestamp (meta obj) = None" "meta_key (meta obj) = (ns, n)"
  shows "triple (at v)
    (if wanted then bnd (rc_CreateOrUpdate rc obj f) (\<lambda>r. ret (to_error r))
     else bnd (rc_Get rc ns n) (\<lambda>r. case r of Inl err \<Rightarrow> ret (if IsNotFound err then None else Some err)
       | Inr y \<Rightarrow> if \<not> allowed y then ret None else bnd (rc_Delete rc y) (\<lambda>err. ret (IgnoreNotFound err))))
    (\<lambda>r w. r = None \<longrightarrow> (\<exists>m. placed admits meta wanted obj f allowed (ns, n) (get v) m \<and> at (put m v) w))"
proof (rule triple_if)
  assume wanted
  then show "triple (at v) (bnd (rc_CreateOrUpdate rc obj f) (\<lambda>r. ret (to_error r)))
      (\<lambda>r w. r = None \<longrightarrow> (\<exists>m. placed admits meta wanted obj f allowed (ns, n) (get v) m \<and> at (put m v) w))"
    by (intro triple_bind [OF triple_write [of f]] assms(1,2) triple_return)
      (auto simp: placed_def to_error_def assms(3) split: sum.splits)
next
  assume "\<not> wanted"
  then show "triple (at v) (bnd (rc_Get rc ns n) (\<lambda>r. case r of Inl err \<Rightarrow> ret (if IsNotFound err then None else Some err)
       | Inr y \<Rightarrow> if \<not> allowed y then ret None else bnd (rc_Delete rc y) (\<lambda>err. ret (IgnoreNotFound err))))
      (\<lambda>r w. r = None \<longrightarrow> (\<exists>m. placed admits meta wanted obj f allowed (ns, n) (get v) m \<and> at (put m v) w))"
    using triple_remove [of v ns n allowed] by (simp add: placed_def)
qed

lemma placed_again:
  assumes "placed admits meta wanted obj f allowed k m m1" "placed admits meta wanted obj f allowed k m1 m2"
    and "\<And>old y o' x z. wanted \<Longrightarrow> f old = Inr y \<Longrightarrow> admits o' y x \<Longrightarrow> f x = Inr z \<Longrightarrow>
      spec z = spec y \<and> same_request (meta y) (meta x) (meta z)"
  shows "m2 = m1"
proof (cases wanted)
  case True
  with assms(1,2) have "stored_as admits obj f k m m1" "stored_as admits obj f k m1 m2" by (simp_all add: placed_def)
  then show ?thesis by (rule stored_again) (use assms(3) True in blast)+
next
  case False
  with assms(1,2) show ?thesis using removed_again [of meta allowed k m m1 m2] by (simp add: placed_def)
qed

end

section \<open>A pass as a relation\<close>

text \<open>
  What the reconciler of a cell reads and writes: the five kinds of objects, the answers to
  queries for endpoint slices, and the stored statuses of cells.
\<close>

record cell_objects =
  co_namespaces :: "Namespace store"
  co_services :: "Service store"
  co_quotas :: "ResourceQuota store"
  co_limits :: "LimitRange store"
  co_netpols :: "NetworkPolicy store"
  co_slices :: "string option \<Rightarrow> (string \<times> string) list \<Rightarrow> EndpointSlice list"
  co_statuses :: "CellStatus store"

record cell_admission =
  ad_namespaces :: "Namespace admission"
  ad_services :: "Service admission"
  ad_quotas :: "ResourceQuota admission"
  ad_limits :: "LimitRange admission"
  ad_netpols :: "NetworkPolicy admission"

definition desired_namespaces :: "cell_admission \<Rightarrow> Cell \<Rightarrow> Namespace store \<Rightarrow> Namespace store \<Rightarrow> bool" where
  "desired_namespaces A cell =
     stored_as (ad_namespaces A) \<lparr>ns_Meta = NewMeta (effectiveNamespace cell) []\<rparr> (\<lambda>ns. Inr (MutateNamespace ns cell))
       ([], effectiveNamespace cell)"

definition desired_services :: "cell_admission \<Rightarrow> 'w kube \<Rightarrow> Cell \<Rightarrow> Service store \<Rightarrow> Service store \<Rightarrow> bool" where
  "desired_services A K cell =
     stored_as (ad_services A) \<lparr>svc_Meta = NewMeta (ep_ServiceName (cs_Entrypoint (cell_Spec cell))) (effectiveNamespace cell),
         svc_Selector = None, svc_Type = [], svc_Ports = []\<rparr>
       (\<lambda>svc. controlled K ''Cell'' (cell_Meta cell) svc_Meta (\<lambda>m s. s\<lparr>svc_Meta := m\<rparr>) (MutateService svc cell))
       (effectiveNamespace cell, ep_ServiceName (cs_Entrypoint (cell_Spec cell)))"

definition desired_quotas :: "cell_admission \<Rightarrow> 'w kube \<Rightarrow> Cell \<Rightarrow> ResourceQuota store \<Rightarrow> ResourceQuota store \<Rightarrow> bool" where
  "desired_quotas A K cell =
     placed (ad_quotas A) quota_Meta (Option.bind (cs_Policies (cell_Spec cell)) pol_ResourceQuota \<noteq> None)
       \<lparr>quota_Meta = NewMeta CellResourceQuotaName (effectiveNamespace cell), quota_Hard = None\<rparr>
       (\<lambda>q. controlled K ''Cell'' (cell_Meta cell) quota_Meta (\<lambda>m s. s\<lparr>quota_Meta := m\<rparr>) (MutateResourceQuota q cell))
       (\<lambda>q. k_IsControlledBy K (quota_Meta q) (cell_Meta cell)) (effectiveNamespace cell, CellResourceQuotaName)"

definition desired_limits :: "cell_admission \<Rightarrow> 'w kube \<Rightarrow> Cell \<Rightarrow> LimitRange store \<Rightarrow> LimitRange store \<Rightarrow> bool" where
  "desired_limits A K cell =
     placed (ad_limits A) limits_Meta (Option.bind (cs_Policies (cell_Spec cell)) pol_LimitRange \<noteq> None)
       \<lparr>limits_Meta = NewMeta CellLimitRangeName (effectiveNamespace cell), limits_Limits = []\<rparr>
       (\<lambda>l. controlled K ''Cell'' (cell_Meta cell) limits_Meta (\<lambda>m s. s\<lparr>limits_Meta := m\<rparr>) (MutateLimitRange l cell))
       (\<lambda>l. k_IsControlledBy K (limits_Meta l) (cell_Meta cell)) (effectiveNamespace cell, CellLimitRangeName)"

definition desired_netpols :: "cell_admission \<Rightarrow> 'w kube \<Rightarrow> Cell \<Rightarrow> NetworkPolicy store \<Rightarrow> NetworkPolicy store \<Rightarrow> bool" where
  "desired_netpols A K cell =
     placed (ad_netpols A) netpol_Meta (network_policy_enabled cell)
       \<lparr>netpol_Meta = NewMeta CellNetworkPolicyName (effectiveNamespace cell), netpol_PodSelector = \<lparr>ls_MatchLabels = None\<rparr>,
        netpol_PolicyTypes = [], netpol_Ingress = []\<rparr>
       (\<lambda>p. controlled K ''Cell'' (cell_Meta cell) netpol_Meta (\<lambda>m s. s\<lparr>netpol_Meta := m\<rparr>) (MutateNetworkPolicy p cell))
       (\<lambda>p. k_IsControlledBy K (netpol_Meta p) (cell_Meta cell)) (effectiveNamespace cell, CellNetworkPolicyName)"

text \<open>The objects a pass leaves: every kind as desired, everything else as it was.\<close>

definition desired_state :: "cell_admission \<Rightarrow> 'w kube \<Rightarrow> Cell \<Rightarrow> cell_objects \<Rightarrow> cell_objects \<Rightarrow> bool" where
  "desired_state A K cell v v' \<longleftrightarrow>
     desired_namespaces A cell (co_namespaces v) (co_namespaces v') \<and>
     desired_services A K cell (co_services v) (co_services v') \<and>
     desired_quotas A K cell (co_quotas v) (co_quotas v') \<and>
     desired_limits A K cell (co_limits v) (co_limits v') \<and>
     desired_netpols A K cell (co_netpols v) (co_netpols v') \<and>
     co_slices v' = co_slices v"

text \<open>
  \<^verbatim>\<open>SetControllerReference\<close> touches the owner references only. An object under the same key
  with the owner references of its result is controlled by the owner, which is known by its
  UID, and a call with this owner leaves it alone.
\<close>

definition owner_settles :: "'w kube \<Rightarrow> bool" where
  "owner_settles K \<longleftrightarrow> (\<forall>kind own m m'. k_SetControllerReference K kind own m = Inr m' \<longrightarrow>
     (\<exists>rs. m' = m\<lparr>om_OwnerReferences := rs\<rparr>) \<and>
     (\<forall>m''. om_OwnerReferences m'' = om_OwnerReferences m' \<and> meta_key m'' = meta_key m' \<longrightarrow>
        k_SetControllerReference K kind own m'' = Inr m'' \<and>
        (\<forall>own'. om_UID own' = om_UID own \<longrightarrow> k_IsControlledBy K m'' own')))"

lemma controlled_result:
  assumes "owner_settles K" "controlled K kind own get put o' = Inr y"
  obtains rs where "y = put ((get o')\<lparr>om_OwnerReferences := rs\<rparr>) o'"
    "\<And>m''. om_OwnerReferences m'' = rs \<Longrightarrow> meta_key m'' = meta_key (get o') \<Longrightarrow>
      k_SetControllerReference K kind own m'' = Inr m'' \<and> (\<forall>own'. om_UID own' = om_UID own \<longrightarrow> k_IsControlledBy K m'' own')"
proof -
  from assms(2) obtain m where m: "k_SetControllerReference K kind own (get o') = Inr m" "y = put m o'"
    by (auto simp: controlled_def split: sum.splits)
  with assms(1) obtain rs where rs: "m = (get o')\<lparr>om_OwnerReferences := rs\<rparr>" unfolding owner_settles_def by blast
  have "k_SetControllerReference K kind own m'' = Inr m'' \<and> (\<forall>own'. om_UID own' = om_UID own \<longrightarrow> k_IsControlledBy K m'' own')"
    if "om_OwnerReferences m'' = rs" "meta_key m'' = meta_key (get o')" for m''
    using assms(1) m(1) rs that unfolding owner_settles_def by auto
  with that m(2) rs show thesis by blast
qed

text \<open>
  A second request, built from the object that the server made of the first one: the owner is
  there already, so the builder alone decides what is asked for.
\<close>

lemma controlled_again:
  assumes "owner_settles K" "controlled K kind own get put (mutate old) = Inr y" "controlled K kind own get put (mutate x) = Inr z"
    and "om_OwnerReferences (get x) = om_OwnerReferences (get y)" "meta_key (get x) = meta_key (get y)"
    and mutate: "om_OwnerReferences (get (mutate x)) = om_OwnerReferences (get x)" "meta_key (get (mutate x)) = meta_key (get x)"
    and lens: "\<And>m o'. get (put m o') = m" "\<And>o'. put (get o') o' = o'"
  shows "z = mutate x \<and> (\<exists>rs. y = put ((get (mutate old))\<lparr>om_OwnerReferences := rs\<rparr>) (mutate old))"
proof -
  obtain rs where y: "y = put ((get (mutate old))\<lparr>om_OwnerReferences := rs\<rparr>) (mutate old)"
    "\<And>m''. om_OwnerReferences m'' = rs \<Longrightarrow> meta_key m'' = meta_key (get (mutate old)) \<Longrightarrow>
      k_SetControllerReference K kind own m'' = Inr m''"
    using controlled_result [OF assms(1,2)] by metis
  have "k_SetControllerReference K kind own (get (mutate x)) = Inr (get (mutate x))"
    using y(2) assms(4,5) mutate unfolding y(1) lens by simp
  with assms(3) have "z = mutate x" by (simp add: controlled_def lens)
  with y(1) show ?thesis by blast
qed

text \<open>A map that has the entries of a merge is not changed by this merge.\<close>

lemma Merge_absorb:
  assumes "\<And>k u. gomap_lookup (Merge d s p) k = Some u \<Longrightarrow> gomap_lookup m k = Some u"
  shows "same_map (Merge d s p) m (Merge m s p)"
  using assms Merge_not_nil [of d s p] Merge_not_nil [of m s p]
  by (auto simp: same_map_def Merge_lookup split: option.splits if_splits)

lemma Merge_owned_absorb:
  assumes "\<And>k u. gomap_lookup (Merge (Merge d (gomap_lit owned) []) s p) k = Some u \<Longrightarrow> gomap_lookup m k = Some u"
    and "dom (map_of owned) \<subseteq> set p"
  shows "same_map (Merge (Merge d (gomap_lit owned) []) s p) m (Merge (Merge m (gomap_lit owned) []) s p)"
proof -
  have "gomap_lookup (Merge (Merge m (gomap_lit owned) []) s p) k = gomap_lookup m k" for k
  proof -
    from assms(2) have "k \<notin> set p \<Longrightarrow> map_of owned k = None" by auto
    then show ?thesis using assms(1) [of k] by (auto simp: Merge_lookup split: option.splits if_splits)
  qed
  then show ?thesis
    using Merge_not_nil [of "Merge d (gomap_lit owned) []" s p] Merge_not_nil [of "Merge m (gomap_lit owned) []" s p]
    by (auto simp: same_map_def)
qed

definition svc_spec :: "Service \<Rightarrow> gomap \<times> string \<times> ServicePort list" where
  "svc_spec svc = (svc_Selector svc, svc_Type svc, svc_Ports svc)"

definition netpol_spec :: "NetworkPolicy \<Rightarrow> LabelSelector \<times> string list \<times> NetworkPolicyIngressRule list" where
  "netpol_spec p = (netpol_PodSelector p, netpol_PolicyTypes p, netpol_Ingress p)"

text \<open>
  What each builder asks for on an object that has the labels and annotations of its earlier
  result, \<open>has_entries\<close>: the same spec, and the metadata as they are.
\<close>

definition has_entries :: "ObjectMeta \<Rightarrow> ObjectMeta \<Rightarrow> bool" where
  "has_entries m x \<longleftrightarrow> (\<forall>k u. gomap_lookup (om_Labels m) k = Some u \<longrightarrow> gomap_lookup (om_Labels x) k = Some u) \<and>
     (\<forall>k u. gomap_lookup (om_Annotations m) k = Some u \<longrightarrow> gomap_lookup (om_Annotations x) k = Some u)"

lemma builders_again:
  "has_entries (ns_Meta (MutateNamespace a cell)) (ns_Meta b) \<Longrightarrow>
     same_request (ns_Meta (MutateNamespace a cell)) (ns_Meta b) (ns_Meta (MutateNamespace b cell))"
  "has_entries (svc_Meta (MutateService c cell)) (svc_Meta d) \<Longrightarrow>
     same_request (svc_Meta (MutateService c cell)) (svc_Meta d) (svc_Meta (MutateService d cell))"
  "has_entries (quota_Meta (MutateResourceQuota e cell)) (quota_Meta f) \<Longrightarrow>
     same_request (quota_Meta (MutateResourceQuota e cell)) (quota_Meta f) (quota_Meta (MutateResourceQuota f cell))"
  "has_entries (limits_Meta (MutateLimitRange g cell)) (limits_Meta h) \<Longrightarrow>
     same_request (limits_Meta (MutateLimitRange g cell)) (limits_Meta h) (limits_Meta (MutateLimitRange h cell))"
  "has_entries (netpol_Meta (MutateNetworkPolicy i cell)) (netpol_Meta j) \<Longrightarrow>
     same_request (netpol_Meta (MutateNetworkPolicy i cell)) (netpol_Meta j) (netpol_Meta (MutateNetworkPolicy j cell))"
  by (auto simp: same_request_def has_entries_def MutateNamespace_def MutateService_def MutateResourceQuota_def
      MutateLimitRange_def MutateNetworkPolicy_def Let_def intro!: Merge_absorb Merge_owned_absorb split: option.splits)
    (simp_all add: same_map_def split: if_splits)

lemma builders_spec:
  "svc_spec (MutateService c cell) = svc_spec (MutateService d cell)"
  "quota_Hard (MutateResourceQuota e cell) = quota_Hard (MutateResourceQuota f cell)"
  "limits_Limits (MutateLimitRange g cell) = limits_Limits (MutateLimitRange h cell)"
  "netpol_spec (MutateNetworkPolicy i cell) = netpol_spec (MutateNetworkPolicy j cell)"
  by (simp_all add: svc_spec_def netpol_spec_def MutateService_def MutateResourceQuota_def MutateLimitRange_def
      MutateNetworkPolicy_def Let_def split: option.splits)

section \<open>Conditions that are set again\<close>

text \<open>The list has the condition, whenever it came about.\<close>

definition reports :: "'w kube \<Rightarrow> Condition list \<Rightarrow> Condition \<Rightarrow> bool" where
  "reports K cs c \<longleftrightarrow> (\<exists>d. k_FindStatusCondition K cs (c_Type c) = Some d \<and>
     d\<lparr>c_LastTransitionTime := c_LastTransitionTime c\<rparr> = c)"

text \<open>\<^verbatim>\<open>apimeta.SetStatusCondition\<close> leaves a list alone that has the condition already.\<close>

definition conditions_settle :: "'w kube \<Rightarrow> bool" where
  "conditions_settle K \<longleftrightarrow>
     (\<forall>cs c w. reports K cs c \<longrightarrow> fst (run_state (k_SetStatusCondition K cs c) w) = cs)"

lemma reports_set:
  assumes "conditions_ok K"
  shows "reports K (fst (run_state (k_SetStatusCondition K cs c) w)) c"
    and "c_Type b \<noteq> c_Type c \<Longrightarrow> reports K (fst (run_state (k_SetStatusCondition K cs c) w)) b = reports K cs b"
proof -
  note ok = assms [unfolded conditions_ok_def Let_def, rule_format, where cs = cs and c = c and w = w]
  show "reports K (fst (run_state (k_SetStatusCondition K cs c) w)) c"
    using ok [where t = "c_Type c"] by (auto simp: reports_def intro: Condition.equality)
  show "reports K (fst (run_state (k_SetStatusCondition K cs c) w)) b = reports K cs b" if "c_Type b \<noteq> c_Type c"
    using ok [where t = "c_Type b"] that by (simp add: reports_def)
qed

text \<open>
  The knowledge about an object while the conditions of \<open>goal\<close> are set one after the other:
  those set so far are there, and if all of them were there at the beginning nothing changed.
\<close>

definition told :: "'w kube \<Rightarrow> ('o \<Rightarrow> Condition list) \<Rightarrow> (Condition list \<Rightarrow> 'o \<Rightarrow> 'o) \<Rightarrow>
    'o \<Rightarrow> Condition list \<Rightarrow> Condition list \<Rightarrow> 'o \<Rightarrow> bool" where
  "told K conds put x goal known y \<longleftrightarrow>
     (\<exists>cs. y = put cs x) \<and> list_all (reports K (conds y)) known \<and> (list_all (reports K (conds x)) goal \<longrightarrow> y = x)"

context status_conditions
begin

lemma told_start: "told K conds put x goal [] x"
  unfolding told_def by (metis list.pred_inject(1) put_conds)

lemma triple_tell:
  assumes ok: "conditions_ok K" "conditions_settle K" "helpers_keep I K"
    and next_step: "\<And>z. told K conds put x goal (c # known) z \<Longrightarrow> triple I (f z) Q"
    and here: "told K conds put x goal known y" "c \<in> set goal" "c_Type c \<notin> c_Type ` set known"
    and c: "c = \<lparr>c_Type = t, c_Status = s, c_ObservedGeneration = generation y, c_LastTransitionTime = 0, c_Reason = r, c_Message = m\<rparr>"
  shows "triple I (bnd (set_cond K y t s r m) f) Q"
  unfolding triple_def
proof (intro allI impI)
  fix w assume "I w"
  obtain cs w' where run: "run_state (k_SetStatusCondition K (conds y) c) w = (cs, w')" by fastforce
  have "I w'" using keeps_run [OF keeps_helpers(1) [OF ok(3)] \<open>I w\<close>] run by (metis snd_conv)
  have "list_all (reports K cs) (c # known)"
    using here(1,3) reports_set [OF ok(1), where cs = "conds y" and c = c and w = w] run by (auto simp: told_def list_all_iff image_iff)
  moreover have "put cs y = x" if "list_all (reports K (conds x)) goal"
    using that here(1,2) ok(2) run put_conds
    by (auto simp: told_def conditions_settle_def list_all_iff) (metis fst_conv)
  moreover have "\<exists>cs'. put cs y = put cs' x" using here(1) by (auto simp: told_def put_put)
  ultimately have "told K conds put x goal (c # known) (put cs y)"
    unfolding told_def by (simp add: conds_put)
  from next_step [OF this] \<open>I w'\<close> run show "Q (fst (run_state (bnd (set_cond K y t s r m) f) w)) (snd (run_state (bnd (set_cond K y t s r m) f) w))"
    by (simp add: set_cond_eq c triple_def)
qed

end

section \<open>The status a pass publishes\<close>

text \<open>Status, reason and message of the last two conditions, and whether to come back.\<close>

definition backend_report :: "CellState \<Rightarrow> int32 \<Rightarrow> (string \<times> string \<times> string) \<times> (string \<times> string \<times> string) \<times> bool" where
  "backend_report state n =
     (if state = CellStateDisabled then
        ((ConditionFalse, ConditionReasonLifecycleBlocked, ''cell is disabled''),
         (ConditionFalse, ConditionReasonLifecycleBlocked, ''cell is disabled''), False)
      else if state = CellStateDraining then
        (if 0 < sint n then (ConditionTrue, ConditionReasonReconciled, ''backend remains available while draining'')
         else (ConditionFalse, ConditionReasonWaitingForBackend, ''waiting for ready backend endpoints''),
         (ConditionFalse, ConditionReasonLifecycleBlocked, ''cell is draining and withheld from new traffic''), \<not> 0 < sint n)
      else if n = 0 then
        ((ConditionFalse, ConditionReasonWaitingForBackend, ''waiting for ready backend endpoints''),
         (ConditionFalse, ConditionReasonWaitingForBackend, ''cell is waiting for ready backend endpoints''), True)
      else
        ((ConditionTrue, ConditionReasonReconciled, ''backend endpoints are ready''),
         (ConditionTrue, ConditionReasonReconciled, ''cell is ready''), False))"

definition cell_condition :: "Cell \<Rightarrow> string \<Rightarrow> string \<times> string \<times> string \<Rightarrow> Condition" where
  "cell_condition cell t srm = \<lparr>c_Type = t, c_Status = fst srm, c_ObservedGeneration = om_Generation (cell_Meta cell),
     c_LastTransitionTime = 0, c_Reason = fst (snd srm), c_Message = snd (snd srm)\<rparr>"

definition cell_report :: "Cell \<Rightarrow> int32 \<Rightarrow> Condition list" where
  "cell_report cell n =
     [cell_condition cell CellReadyCondition (fst (snd (backend_report (effectiveCellState cell) n))),
      cell_condition cell CellBackendReadyCondition (fst (backend_report (effectiveCellState cell) n)),
      cell_condition cell CellPoliciesReadyCondition (ConditionTrue, ConditionReasonReconciled, ''policies reconciled''),
      cell_condition cell CellServiceReadyCondition (ConditionTrue, ConditionReasonReconciled, ''service reconciled''),
      cell_condition cell CellNamespaceReadyCondition (ConditionTrue, ConditionReasonReconciled, ''namespace reconciled'')]"

abbreviation status_fields :: "Cell \<Rightarrow> int32 \<Rightarrow> CellStatus \<Rightarrow> CellStatus" where
  "status_fields cell n st \<equiv> st\<lparr>cst_Namespace := effectiveNamespace cell,
     cst_EntrypointService := effectiveNamespace cell @ ''/'' @ ep_ServiceName (cs_Entrypoint (cell_Spec cell)),
     cst_ObservedGeneration := om_Generation (cell_Meta cell),
     cst_OperationalState := effectiveCellState cell, cst_AvailableEndpoints := n\<rparr>"

definition status_settled :: "'w kube \<Rightarrow> Cell \<Rightarrow> int32 \<Rightarrow> CellStatus \<Rightarrow> bool" where
  "status_settled K cell n st \<longleftrightarrow>
     status_fields cell n st = st \<and> list_all (reports K (cst_Conditions st)) (cell_report cell n)"

text \<open>The count a pass works with, from the slices of the cluster.\<close>

definition endpoints_of :: "Cell \<Rightarrow> cell_objects \<Rightarrow> int32" where
  "endpoints_of cell v = count_slices
     (co_slices v (Some (effectiveNamespace cell)) [(LabelServiceName, ep_ServiceName (cs_Entrypoint (cell_Spec cell)))]) 0"

text \<open>What a successful pass over the objects \<open>v\<close> leaves, and its result.\<close>

definition pass_result :: "cell_admission \<Rightarrow> 'w kube \<Rightarrow> Cell \<Rightarrow> cell_objects \<Rightarrow> cell_objects \<Rightarrow> Result \<Rightarrow> bool" where
  "pass_result A K cell v v' res \<longleftrightarrow>
     desired_state A K cell v v' \<and>
     (\<exists>st. co_statuses v' = (co_statuses v)(cell_key cell \<mapsto> st) \<and> status_settled K cell (endpoints_of cell v) st \<and>
        (status_settled K cell (endpoints_of cell v) (cell_Status cell) \<longrightarrow> st = cell_Status cell)) \<and>
     res = \<lparr>res_RequeueAfter = if snd (snd (backend_report (effectiveCellState cell) (endpoints_of cell v)))
       then cellBackendRequeueDelay else 0\<rparr>"

abbreviation cell_told :: "'w kube \<Rightarrow> Cell \<Rightarrow> Condition list \<Rightarrow> Condition list \<Rightarrow> Cell \<Rightarrow> bool" where
  "cell_told K \<equiv> told K cell_conds put_cell_conds"

lemma cell_told_same:
  assumes "cell_told K cell goal known c"
  shows "cell_Meta c = cell_Meta cell" "cell_Spec c = cell_Spec cell" "\<exists>st. c = cell\<lparr>cell_Status := st\<rparr>"
  using assms by (auto simp: told_def)

lemma cell_told_fields:
  assumes "cell_told K cell goal known c"
  shows "cell_told K (cell\<lparr>cell_Status := status_fields cell n (cell_Status cell)\<rparr>) goal known
    (c\<lparr>cell_Status := status_fields cell n (cell_Status c)\<rparr>)"
proof -
  from assms obtain cs where c: "c = put_cell_conds cs cell" by (auto simp: told_def)
  with assms have known: "list_all (reports K cs) known"
    and kept: "list_all (reports K (cell_conds cell)) goal \<Longrightarrow> put_cell_conds cs cell = cell" by (simp_all add: told_def)
  show ?thesis
    unfolding told_def
  proof (intro conjI impI, goal_cases)
    case 1
    show ?case by (rule exI [of _ cs]) (simp add: c)
  next
    case 3
    then have "c = cell" using kept c by simp
    then show ?case by simp
  qed (use known c in simp)
qed

lemma triple_backend_report:
  assumes ok: "conditions_ok K" "conditions_settle K" "helpers_keep I K"
    and here: "cell_told K cell goal known c" "c_Type ` set known \<inter> {CellBackendReadyCondition, CellReadyCondition} = {}"
      "cell_condition cell CellBackendReadyCondition (fst (backend_report state n)) \<in> set goal"
      "cell_condition cell CellReadyCondition (fst (snd (backend_report state n))) \<in> set goal"
  shows "triple I (backend_conditions K c state n) (\<lambda>r w. I w \<and>
    cell_told K cell goal (cell_condition cell CellReadyCondition (fst (snd (backend_report state n))) #
      cell_condition cell CellBackendReadyCondition (fst (backend_report state n)) # known) (fst r) \<and>
    snd r = snd (snd (backend_report state n)))"
proof -
  let ?goal = "\<lambda>a b z. cell_told K cell goal (cell_condition cell CellReadyCondition b # cell_condition cell CellBackendReadyCondition a # known) z"
  have two: "triple I (bnd (setCellCondition K c CellBackendReadyCondition (fst a) (fst (snd a)) (snd (snd a)))
      (\<lambda>z. bnd (setCellCondition K z CellReadyCondition (fst b) (fst (snd b)) (snd (snd b))) (\<lambda>z. ret (z, q))))
      (\<lambda>r w. I w \<and> ?goal a b (fst r) \<and> snd r = q)"
    if "cell_condition cell CellBackendReadyCondition a \<in> set goal" "cell_condition cell CellReadyCondition b \<in> set goal" for a b q
  proof (rule cell_conditions.triple_tell [OF ok _ here(1) that(1)], goal_cases)
    case (1 z)
    show ?case
      by (rule cell_conditions.triple_tell [OF ok _ 1 that(2)])
        (use 1 here(2) in \<open>auto simp: cell_condition_def cell_told_same(1) [OF 1] intro: triple_return\<close>)
  qed (use here in \<open>auto simp: cell_condition_def cell_told_same(1) [OF here(1)]\<close>)
  note report = two [OF here(3,4), of "snd (snd (backend_report state n))"]
  show ?thesis by (cases rule: backend_cases [where state = state and n = n]) (use report in \<open>simp add: backend_conditions_def backend_report_def\<close>)+
qed

section \<open>The pass refines its specification\<close>

text \<open>The status of the cell does not matter for the objects it wants.\<close>

lemma WorkloadSelector_status: "WorkloadSelector (cell\<lparr>cell_Status := st\<rparr>) = WorkloadSelector cell"
  by (cases "cs_WorkloadSelector (cell_Spec cell)") (simp_all add: WorkloadSelector_def)

lemma effectiveNamespace_status: "effectiveNamespace (cell\<lparr>cell_Status := st\<rparr>) = effectiveNamespace cell"
  by (simp add: effectiveNamespace_def)

lemma desired_status:
  "desired_namespaces A (cell\<lparr>cell_Status := st\<rparr>) = desired_namespaces A cell"
  "desired_services A K (cell\<lparr>cell_Status := st\<rparr>) = desired_services A K cell"
  "desired_quotas A K (cell\<lparr>cell_Status := st\<rparr>) = desired_quotas A K cell"
  "desired_limits A K (cell\<lparr>cell_Status := st\<rparr>) = desired_limits A K cell"
  "desired_netpols A K (cell\<lparr>cell_Status := st\<rparr>) = desired_netpols A K cell"
  by (simp_all add: desired_namespaces_def desired_services_def desired_quotas_def desired_limits_def desired_netpols_def
      effectiveNamespace_status WorkloadSelector_status network_policy_enabled_def MutateNamespace_def MutateService_def
      MutateResourceQuota_def MutateLimitRange_def MutateNetworkPolicy_def)

lemma report_status:
  "effectiveCellState (cell\<lparr>cell_Status := st\<rparr>) = effectiveCellState cell"
  "endpoints_of (cell\<lparr>cell_Status := st\<rparr>) = endpoints_of cell"
  "status_settled K (cell\<lparr>cell_Status := st\<rparr>) = status_settled K cell"
  by (simp_all add: effectiveCellState_def endpoints_of_def effectiveNamespace_status status_settled_def cell_report_def
      cell_condition_def fun_eq_iff)

lemma status_spec: "cell_Spec (cell\<lparr>cell_Status := st\<rparr>) = cell_Spec cell"
  by simp

lemma case_option_wanted: "(case x of None \<Rightarrow> a | Some _ \<Rightarrow> b) = (if x \<noteq> None then b else a)"
  by (cases x) simp_all

lemma if_not_swap: "(if \<not> b then x else y) = (if b then y else x)"
  by simp

text \<open>
  The API server as a cell reconciler sees it while nobody else writes: reads are current, and
  a status patch against the stored status stores the new one.
\<close>

locale cell_world =
  namespaces: api_store "k_namespaces K" ns_Meta "\<lambda>_. ()" co_namespaces "\<lambda>m v. v\<lparr>co_namespaces := m\<rparr>" view valid "ad_namespaces A" +
  services: deletable_store "k_services K" svc_Meta svc_spec co_services "\<lambda>m v. v\<lparr>co_services := m\<rparr>" view valid "ad_services A" +
  quotas: deletable_store "k_quotas K" quota_Meta quota_Hard co_quotas "\<lambda>m v. v\<lparr>co_quotas := m\<rparr>" view valid "ad_quotas A" +
  limits: deletable_store "k_limits K" limits_Meta limits_Limits co_limits "\<lambda>m v. v\<lparr>co_limits := m\<rparr>" view valid "ad_limits A" +
  netpols: deletable_store "k_netpols K" netpol_Meta netpol_spec co_netpols "\<lambda>m v. v\<lparr>co_netpols := m\<rparr>" view valid "ad_netpols A"
  for K :: "'w kube" and view :: "'w \<Rightarrow> cell_objects" and valid :: "'w \<Rightarrow> bool" and A :: cell_admission +
  assumes helpers: "helpers_keep (\<lambda>w. valid w \<and> view w = v) K"
    and slices_ok: "valid w \<Longrightarrow> run_state (rc_List (k_slices K) ns ls) w = (Inr xs, w') \<Longrightarrow>
      valid w' \<and> view w' = view w \<and> xs = co_slices (view w) ns ls"
    and status_ok: "valid w \<Longrightarrow> co_statuses (view w) (cell_key base) = Some (cell_Status base) \<Longrightarrow>
      cell_key x = cell_key base \<Longrightarrow> run_state (rc_StatusPatch (k_cells K) x base) w = (None, w') \<Longrightarrow>
      valid w' \<and> view w' = (view w)\<lparr>co_statuses := (co_statuses (view w))(cell_key x \<mapsto> cell_Status x)\<rparr>"
    and owner: "owner_settles K"
    and conditions: "conditions_ok K" "conditions_settle K"
begin

abbreviation at :: "cell_objects \<Rightarrow> 'w \<Rightarrow> bool" where
  "at v w \<equiv> valid w \<and> view w = v"

lemma controlled_identity:
  assumes "\<And>y. meta_key (get (mutate y)) = meta_key (get y) \<and> om_DeletionTimestamp (get (mutate y)) = om_DeletionTimestamp (get y)"
    and "\<And>m y. get (put m y) = m"
  shows "keeps_identity get (\<lambda>y. controlled K kind own get put (mutate y))"
  unfolding keeps_identity_def
proof (intro allI impI, goal_cases)
  case (1 old y)
  then obtain rs where "y = put ((get (mutate old))\<lparr>om_OwnerReferences := rs\<rparr>) (mutate old)"
    using controlled_result [OF owner] by metis
  with assms show ?case by simp
qed

lemma identities:
  "keeps_identity ns_Meta (\<lambda>ns. Inr (MutateNamespace ns cell))"
  "keeps_identity svc_Meta (\<lambda>s. controlled K kind own svc_Meta (\<lambda>m s. s\<lparr>svc_Meta := m\<rparr>) (MutateService s cell))"
  "keeps_identity quota_Meta (\<lambda>q. controlled K kind own quota_Meta (\<lambda>m s. s\<lparr>quota_Meta := m\<rparr>) (MutateResourceQuota q cell))"
  "keeps_identity limits_Meta (\<lambda>l. controlled K kind own limits_Meta (\<lambda>m s. s\<lparr>limits_Meta := m\<rparr>) (MutateLimitRange l cell))"
  "keeps_identity netpol_Meta (\<lambda>p. controlled K kind own netpol_Meta (\<lambda>m s. s\<lparr>netpol_Meta := m\<rparr>) (MutateNetworkPolicy p cell))"
  subgoal by (simp add: keeps_identity_def MutateNamespace_def Let_def)
  by (rule controlled_identity; simp add: MutateService_def MutateResourceQuota_def MutateLimitRange_def
      MutateNetworkPolicy_def Let_def split: option.splits)+

lemma triple_event:
  "(\<And>w. at v w \<Longrightarrow> Q r w) \<Longrightarrow> triple (at v) (bnd (eventf K a b c) (\<lambda>_. ret r)) Q"
  by (intro triple_keeps [OF keeps_helpers(3) [OF helpers]] triple_return)

text \<open>The shape of what follows a write: the stored object has its key, and the store is the written one.\<close>

lemma triple_after:
  assumes "triple (at v) m (\<lambda>r w. \<forall>x. r = Inr x \<longrightarrow> B x \<and> (\<exists>s. W s \<and> at (u s) w))"
    and "\<And>x s. B x \<Longrightarrow> W s \<Longrightarrow> triple (at (u s)) (f x) Q" "\<And>e. triple (\<lambda>_. True) (g e) Q"
  shows "triple (at v) (bnd m (\<lambda>r. case r of Inl e \<Rightarrow> g e | Inr x \<Rightarrow> f x)) Q"
  by (rule triple_try_sum [OF assms(1) _ assms(3)], rule triple_fact, rule triple_ex, rule triple_fact, rule assms(2))

lemma triple_namespace:
  "triple (at v) (reconcileNamespace K cell (effectiveNamespace cell)) (\<lambda>r w. r = None \<longrightarrow>
     (\<exists>n. desired_namespaces A cell (co_namespaces v) n \<and> at (v\<lparr>co_namespaces := n\<rparr>) w))"
  unfolding reconcileNamespace_def
  by (rule triple_after [OF namespaces.triple_write [OF identities(1)]], simp add: NewMeta_def, rule triple_event)
    (auto simp: desired_namespaces_def NewMeta_def triple_return)

lemma triple_service:
  "triple (at v) (reconcileService K cell (effectiveNamespace cell)) (\<lambda>r w. \<forall>x. r = Inr x \<longrightarrow>
     x = effectiveNamespace cell @ ''/'' @ ep_ServiceName (cs_Entrypoint (cell_Spec cell)) \<and>
     (\<exists>s. desired_services A K cell (co_services v) s \<and> at (v\<lparr>co_services := s\<rparr>) w))"
  unfolding reconcileService_def
  by (rule triple_after [OF services.triple_write [OF identities(2)]], simp add: NewMeta_def, rule triple_event)
    (auto simp: desired_services_def NewMeta_def triple_return)

lemma triple_quota:
  "triple (at v) (reconcileResourceQuota K cell (effectiveNamespace cell)) (\<lambda>r w. r = None \<longrightarrow>
     (\<exists>q. desired_quotas A K cell (co_quotas v) q \<and> at (v\<lparr>co_quotas := q\<rparr>) w))"
  unfolding reconcileResourceQuota_def deleteManagedResourceQuota_def desired_quotas_def case_option_wanted
  by (rule quotas.triple_place [OF identities(3)]) (simp_all add: NewMeta_def)

lemma triple_limits:
  "triple (at v) (reconcileLimitRange K cell (effectiveNamespace cell)) (\<lambda>r w. r = None \<longrightarrow>
     (\<exists>l. desired_limits A K cell (co_limits v) l \<and> at (v\<lparr>co_limits := l\<rparr>) w))"
  unfolding reconcileLimitRange_def deleteManagedLimitRange_def desired_limits_def case_option_wanted
  by (rule limits.triple_place [OF identities(4)]) (simp_all add: NewMeta_def)

lemma triple_netpol:
  "triple (at v) (reconcileNetworkPolicy K cell (effectiveNamespace cell)) (\<lambda>r w. r = None \<longrightarrow>
     (\<exists>p. desired_netpols A K cell (co_netpols v) p \<and> at (v\<lparr>co_netpols := p\<rparr>) w))"
  unfolding reconcileNetworkPolicy_def deleteManagedNetworkPolicy_def desired_netpols_def if_not_swap [of "network_policy_enabled cell"]
  by (rule netpols.triple_place [OF identities(5)]) (simp_all add: NewMeta_def)

lemma triple_policies:
  "triple (at v) (reconcilePolicies K cell (effectiveNamespace cell)) (\<lambda>r w. r = None \<longrightarrow>
     (\<exists>q l p. (desired_quotas A K cell (co_quotas v) q \<and> desired_limits A K cell (co_limits v) l \<and>
        desired_netpols A K cell (co_netpols v) p) \<and> at (v\<lparr>co_quotas := q, co_limits := l, co_netpols := p\<rparr>) w))"
  unfolding reconcilePolicies_def
proof (rule triple_try_option [OF triple_quota], rule triple_ex, rule triple_fact, goal_cases)
  case (1 q)
  show ?case
  proof (rule triple_try_option [OF triple_limits], rule triple_ex, rule triple_fact, goal_cases)
    case (1 l)
    with \<open>desired_quotas A K cell (co_quotas v) q\<close> show ?case
      by (intro triple_weaken [OF triple_netpol]) (auto, blast)
  qed (simp add: triple_return)
qed (simp add: triple_return)

lemma triple_count:
  "triple (at v) (countReadyEndpoints K (effectiveNamespace cell) (ep_ServiceName (cs_Entrypoint (cell_Spec cell))))
     (\<lambda>r w. \<forall>n. r = Inr n \<longrightarrow> n = endpoints_of cell v \<and> at v w)"
  unfolding triple_def
proof (intro allI impI, goal_cases)
  case (1 w n)
  let ?q = "rc_List (k_slices K) (Some (effectiveNamespace cell)) [(LabelServiceName, ep_ServiceName (cs_Entrypoint (cell_Spec cell)))]"
  obtain r w' where run: "run_state ?q w = (r, w')" by fastforce
  with 1(2) obtain xs where "r = Inr xs" by (cases r) (simp_all add: countReadyEndpoints_def)
  with slices_ok [of w] 1 run show ?case by (auto simp: countReadyEndpoints_def endpoints_of_def)
qed

lemma triple_publish_status:
  assumes c: "cell_told K cell (cell_report cell n) (drop 2 (cell_report cell n)) c"
    and read: "co_statuses v (cell_key cell) = Some (cell_Status cell)"
  shows "triple (at v) (publish_status K c cell (effectiveNamespace cell)
      (effectiveNamespace cell @ ''/'' @ ep_ServiceName (cs_Entrypoint (cell_Spec cell))) (effectiveCellState cell) n)
    (\<lambda>r w. snd r = None \<longrightarrow> (\<exists>st. at (v\<lparr>co_statuses := (co_statuses v)(cell_key cell \<mapsto> st)\<rparr>) w \<and> status_settled K cell n st \<and>
       (status_settled K cell n (cell_Status cell) \<longrightarrow> st = cell_Status cell)) \<and>
     fst r = \<lparr>res_RequeueAfter = if snd (snd (backend_report (effectiveCellState cell) n)) then cellBackendRequeueDelay else 0\<rparr>)"
proof -
  let ?base = "cell\<lparr>cell_Status := status_fields cell n (cell_Status cell)\<rparr>"
  let ?known = "drop 2 (cell_report cell n)"
  have told: "cell_told K ?base (cell_report cell n) ?known (c\<lparr>cell_Status := status_fields cell n (cell_Status c)\<rparr>)"
    by (rule cell_told_fields [OF c])
  have same: "cell_condition ?base = cell_condition cell" by (simp add: cell_condition_def fun_eq_iff)
  have goal: "cell_condition cell CellReadyCondition (fst (snd (backend_report (effectiveCellState cell) n))) #
      cell_condition cell CellBackendReadyCondition (fst (backend_report (effectiveCellState cell) n)) # ?known = cell_report cell n"
    by (simp add: cell_report_def)
  have report: "triple (at v) (backend_conditions K (c\<lparr>cell_Status := status_fields cell n (cell_Status c)\<rparr>) (effectiveCellState cell) n)
      (\<lambda>r w. (cell_told K ?base (cell_report cell n) (cell_report cell n) (fst r) \<and>
         snd r = snd (snd (backend_report (effectiveCellState cell) n))) \<and> at v w)"
    by (rule triple_weaken [OF triple_backend_report [OF conditions helpers [of v] told, where state = "effectiveCellState cell" and n = n, unfolded same goal]])
      (auto simp: cell_report_def cell_condition_def)
  have patch: "triple (\<lambda>w. cell_told K ?base (cell_report cell n) (cell_report cell n) z \<and> at v w) (Cell_patchStatus K z cell)
      (\<lambda>r w. r = None \<longrightarrow> (\<exists>st. at (v\<lparr>co_statuses := (co_statuses v)(cell_key cell \<mapsto> st)\<rparr>) w \<and> status_settled K cell n st \<and>
         (status_settled K cell n (cell_Status cell) \<longrightarrow> st = cell_Status cell)))" for z
  proof (rule triple_fact, unfold triple_def, intro allI impI, goal_cases)
    case (1 w)
    then have z: "cell_Meta z = cell_Meta cell" using cell_told_same(1) [OF 1(1)] by simp
    have "status_settled K cell n (cell_Status z)"
      using 1(1) by (auto simp: told_def status_settled_def)
    moreover have "z = cell" if "status_settled K cell n (cell_Status cell)"
      using 1(1) that by (simp add: told_def status_settled_def)
    ultimately show ?case
      using status_ok [of w cell z "snd (run_state (Cell_patchStatus K z cell) w)"] 1(2,3) z read
      by (auto simp: Cell_patchStatus_def prod_eq_iff)
  qed
  show ?thesis
    unfolding publish_status_def cell_told_same(1) [OF c]
  proof (rule triple_bind_fact [OF report], goal_cases)
    case (1 r)
    obtain z q where r: "r = (z, q)" by (cases r)
    have "triple (at v) (Cell_patchStatus K z cell)
      (\<lambda>r w. r = None \<longrightarrow> (\<exists>st. at (v\<lparr>co_statuses := (co_statuses v)(cell_key cell \<mapsto> st)\<rparr>) w \<and> status_settled K cell n st \<and>
         (status_settled K cell n (cell_Status cell) \<longrightarrow> st = cell_Status cell)))"
      by (rule triple_weaken [OF patch]) (use 1 r in auto)
    then show ?case
      unfolding r prod.case
      by (rule triple_try_option) (use 1 r in \<open>auto intro!: triple_return simp: NoRequeue_def\<close>)
  qed
qed

lemma triple_failure: "triple P (cell_failed K c base t msg err) (\<lambda>r w. snd r = None \<longrightarrow> Q r w)"
  by (simp add: triple_def cell_failed_def split: prod.splits)

lemma triple_tell_cell:
  assumes "cell_told K cell goal known y" "cell_condition cell t (s, r, m) \<in> set goal" "t \<notin> c_Type ` set known"
    and "\<And>z. cell_told K cell goal (cell_condition cell t (s, r, m) # known) z \<Longrightarrow> triple (at v) (f z) Q"
  shows "triple (at v) (bnd (setCellCondition K y t s r m) f) Q"
  by (rule cell_conditions.triple_tell [OF conditions helpers assms(4,1,2)])
    (use assms(3) in \<open>simp_all add: cell_condition_def cell_told_same(1) [OF assms(1)]\<close>)

lemma triple_pass:
  assumes read: "co_statuses v (cell_key cell) = Some (cell_Status cell)"
  shows "triple (at v) (Cell_reconcileNormal K cell) (\<lambda>r w. snd r = None \<longrightarrow> valid w \<and> pass_result A K cell v (view w) (fst r))"
proof -
  define n where "n = endpoints_of cell v"
  let ?goal = "cell_report cell n"
  show ?thesis
    unfolding Cell_reconcileNormal_def Let_def
  proof (rule triple_try_option [OF triple_namespace], rule triple_ex, rule triple_fact,
      rule triple_tell_cell [OF cell_conditions.told_start [where goal = ?goal]], goal_cases)
    case (3 ns c1)
    then obtain st1 where c1: "c1 = cell\<lparr>cell_Status := st1\<rparr>" using cell_told_same(3) by blast
    note service = triple_service [where cell = c1 and v = "v\<lparr>co_namespaces := ns\<rparr>", unfolded c1 desired_status effectiveNamespace_status status_spec]
    show ?case
      unfolding c1
    proof (rule triple_after [OF service], hypsubst, rule triple_tell_cell [OF 3(2) [unfolded c1]], goal_cases)
      case (3 svc s c2)
      note written = 3(1) \<open>desired_namespaces A cell (co_namespaces v) ns\<close>
      from 3(2) obtain st2 where c2: "c2 = cell\<lparr>cell_Status := st2\<rparr>" using cell_told_same(3) by blast
      note policies = triple_policies [where cell = c2 and v = "v\<lparr>co_namespaces := ns, co_services := s\<rparr>",
          unfolded c2 desired_status effectiveNamespace_status]
      show ?case
        unfolding c2
      proof (rule triple_try_option [OF policies], (rule triple_ex)+, rule triple_fact,
          rule triple_tell_cell [OF 3(2) [unfolded c2]], goal_cases)
        case (3 q l p c3)
        note c3 = 3(2) and placed = 3(1)
        from c3 have spec: "cell_Spec c3 = cell_Spec cell" using cell_told_same(2) by blast
        have same: "endpoints_of cell (v\<lparr>co_namespaces := ns, co_services := s, co_quotas := q, co_limits := l, co_netpols := p\<rparr>) = n"
          by (simp add: n_def endpoints_of_def)
        show ?case
          unfolding spec
        proof (rule triple_try_sum [OF triple_count], rule triple_fact, goal_cases)
          case (1 m)
          have told: "cell_told K cell ?goal (drop 2 ?goal) c3" using c3 by (simp add: cell_report_def)
          from 1 same have m: "m = n" by simp
          show ?case
            unfolding m
            by (rule triple_weaken [OF triple_publish_status [OF told]])
              (use read written placed in \<open>auto simp: pass_result_def desired_state_def n_def [symmetric]\<close>)
        qed (rule triple_failure)
      qed (auto simp: cell_report_def cell_condition_def triple_failure)
    qed (auto simp: cell_report_def cell_condition_def triple_failure)
  qed (auto simp: cell_report_def cell_condition_def triple_failure)
qed

text \<open>The objects a pass wants, wanted again: nothing changes.\<close>

lemma desired_again:
  "desired_namespaces A cell n n1 \<Longrightarrow> desired_namespaces A cell n1 n2 \<Longrightarrow> n2 = n1"
  "desired_services A K cell s s1 \<Longrightarrow> desired_services A K cell s1 s2 \<Longrightarrow> s2 = s1"
  "desired_quotas A K cell q q1 \<Longrightarrow> desired_quotas A K cell q1 q2 \<Longrightarrow> q2 = q1"
  "desired_limits A K cell l l1 \<Longrightarrow> desired_limits A K cell l1 l2 \<Longrightarrow> l2 = l1"
  "desired_netpols A K cell p p1 \<Longrightarrow> desired_netpols A K cell p1 p2 \<Longrightarrow> p2 = p1"
proof -
  note asks = builders_again [of _ cell] builders_spec [of _ cell]
  note again = controlled_again [OF owner, where kind = "''Cell''" and own = "cell_Meta cell"]
  show "n2 = n1" if "desired_namespaces A cell n n1" "desired_namespaces A cell n1 n2"
    using that unfolding desired_namespaces_def
  proof (rule namespaces.stored_again, goal_cases)
    case (1 old y o' x z)
    then have "has_entries (ns_Meta (MutateNamespace old cell)) (ns_Meta x)"
      using namespaces.admits_labels namespaces.admits_annotations by (auto simp: has_entries_def)
    with 1 builders_again(1) show ?case by auto
  qed
  show "s2 = s1" if "desired_services A K cell s s1" "desired_services A K cell s1 s2"
    using that unfolding desired_services_def
  proof (rule services.stored_again, goal_cases)
    case (1 old y o' x z)
    from again [where mutate = "\<lambda>svc. MutateService svc cell", OF 1(1,3) services.admits_owners [OF 1(2)] services.admits_key [OF 1(2)]]
    obtain rs where z: "z = MutateService x cell" and y: "y = (MutateService old cell)\<lparr>svc_Meta := (svc_Meta (MutateService old cell))\<lparr>om_OwnerReferences := rs\<rparr>\<rparr>"
      by (auto simp: service_builder.mutate_identity)
    have "has_entries (svc_Meta (MutateService old cell)) (svc_Meta x)"
      using services.admits_labels [OF 1(2)] services.admits_annotations [OF 1(2)] by (simp add: y has_entries_def)
    from builders_again(2) [OF this] show ?case
      using builders_spec(1) [of x cell old] by (simp add: z y svc_spec_def same_request_def)
  qed
  show "q2 = q1" if "desired_quotas A K cell q q1" "desired_quotas A K cell q1 q2"
    using that unfolding desired_quotas_def
  proof (rule quotas.placed_again, goal_cases)
    case (1 old y o' x z)
    from again [where mutate = "\<lambda>quota. MutateResourceQuota quota cell", OF 1(2,4) quotas.admits_owners [OF 1(3)] quotas.admits_key [OF 1(3)]]
    obtain rs where z: "z = MutateResourceQuota x cell" and y: "y = (MutateResourceQuota old cell)\<lparr>quota_Meta := (quota_Meta (MutateResourceQuota old cell))\<lparr>om_OwnerReferences := rs\<rparr>\<rparr>"
      by (auto simp: quota_builder.mutate_identity)
    have "has_entries (quota_Meta (MutateResourceQuota old cell)) (quota_Meta x)"
      using quotas.admits_labels [OF 1(3)] quotas.admits_annotations [OF 1(3)] by (simp add: y has_entries_def)
    from builders_again(3) [OF this] show ?case
      using builders_spec(2) [of x cell old] by (simp add: z y same_request_def)
  qed
  show "l2 = l1" if "desired_limits A K cell l l1" "desired_limits A K cell l1 l2"
    using that unfolding desired_limits_def
  proof (rule limits.placed_again, goal_cases)
    case (1 old y o' x z)
    from again [where mutate = "\<lambda>l. MutateLimitRange l cell", OF 1(2,4) limits.admits_owners [OF 1(3)] limits.admits_key [OF 1(3)]]
    obtain rs where z: "z = MutateLimitRange x cell" and y: "y = (MutateLimitRange old cell)\<lparr>limits_Meta := (limits_Meta (MutateLimitRange old cell))\<lparr>om_OwnerReferences := rs\<rparr>\<rparr>"
      by (auto simp: limits_builder.mutate_identity)
    have "has_entries (limits_Meta (MutateLimitRange old cell)) (limits_Meta x)"
      using limits.admits_labels [OF 1(3)] limits.admits_annotations [OF 1(3)] by (simp add: y has_entries_def)
    from builders_again(4) [OF this] show ?case
      using builders_spec(3) [of x cell old] by (simp add: z y same_request_def)
  qed
  show "p2 = p1" if "desired_netpols A K cell p p1" "desired_netpols A K cell p1 p2"
    using that unfolding desired_netpols_def
  proof (rule netpols.placed_again, goal_cases)
    case (1 old y o' x z)
    from again [where mutate = "\<lambda>p. MutateNetworkPolicy p cell", OF 1(2,4) netpols.admits_owners [OF 1(3)] netpols.admits_key [OF 1(3)]]
    obtain rs where z: "z = MutateNetworkPolicy x cell" and y: "y = (MutateNetworkPolicy old cell)\<lparr>netpol_Meta := (netpol_Meta (MutateNetworkPolicy old cell))\<lparr>om_OwnerReferences := rs\<rparr>\<rparr>"
      by (auto simp: netpol_builder.mutate_identity)
    have "has_entries (netpol_Meta (MutateNetworkPolicy old cell)) (netpol_Meta x)"
      using netpols.admits_labels [OF 1(3)] netpols.admits_annotations [OF 1(3)] by (simp add: y has_entries_def)
    from builders_again(5) [OF this] show ?case
      using builders_spec(4) [of x cell old] by (simp add: z y netpol_spec_def same_request_def)
  qed
qed

text \<open>A pass over the result of a pass has nothing to do.\<close>

lemma pass_result_again:
  assumes "pass_result A K cell v v1 res" "co_statuses v1 (cell_key cell) = Some st"
    and "pass_result A K (cell\<lparr>cell_Status := st\<rparr>) v1 v2 res'"
  shows "v2 = v1 \<and> res' = res"
proof -
  have slices: "endpoints_of cell v1 = endpoints_of cell v"
    using assms(1) by (simp add: pass_result_def desired_state_def endpoints_of_def)
  have first: "desired_state A K cell v v1" using assms(1) by (simp add: pass_result_def)
  have second: "desired_state A K cell v1 v2"
    using assms(3) by (simp add: pass_result_def desired_state_def desired_status)
  have "status_settled K cell (endpoints_of cell v) st"
    using assms(1,2) by (auto simp: pass_result_def)
  then have "co_statuses v2 = co_statuses v1"
    using assms(2,3) by (auto simp: pass_result_def report_status slices fun_upd_idem)
  with first second have "v2 = v1"
    unfolding desired_state_def by (intro cell_objects.equality) (auto dest: desired_again)
  with assms(1,3) show ?thesis by (simp add: pass_result_def report_status slices)
qed

end

section \<open>The in-memory cluster\<close>

text \<open>An operation of the client replaces the list of its kind, or nothing.\<close>

lemma mem_client_frame:
  "snd (run_state (rc_Get (mem_client getl putl meta st) ns n) w) = w"
  "\<exists>xs. snd (run_state (rc_Delete (mem_client getl putl meta st) y) w) \<in> {w, putl xs w}"
  "\<exists>xs. snd (run_state (rc_CreateOrUpdate (mem_client getl putl meta st) obj f) w) \<in> {w, putl xs w}"
  by (auto simp: mem_client_def split: option.splits sum.splits)

text \<open>
  This server stores what it is given and removes what is deleted; none of its objects is marked
  for deletion.
\<close>

abbreviation exactly :: "'o admission" where
  "exactly \<equiv> \<lambda>_ y x. x = y"

definition exact_admission :: cell_admission where
  "exact_admission = \<lparr>ad_namespaces = exactly, ad_services = exactly, ad_quotas = exactly, ad_limits = exactly, ad_netpols = exactly\<rparr>"

definition mem_live :: "('w \<Rightarrow> 'o list) \<Rightarrow> ('o \<Rightarrow> ObjectMeta) \<Rightarrow> 'w \<Rightarrow> bool" where
  "mem_live get meta w \<longleftrightarrow> mem_wf get meta w \<and> list_all (\<lambda>y. om_DeletionTimestamp (meta y) = None) (get w)"

lemma mem_live_iff:
  assumes "mem_wf get meta w"
  shows "mem_live get meta w \<longleftrightarrow> (\<forall>k y. mem_view get meta w k = Some y \<longrightarrow> om_DeletionTimestamp (meta y) = None)"
  using assms mem_view_iff [OF assms] by (auto simp: mem_live_def list_all_iff)

lemma same_map_exact: "same_map x x z \<Longrightarrow> z = x"
  by (auto simp: same_map_def intro: fmap_ext)

lemma same_request_exact:
  assumes "same_request m m m'"
  shows "m' = m"
proof -
  from assms have "om_Labels m' = om_Labels m" "om_Annotations m' = om_Annotations m"
    unfolding same_request_def by (blast dest: same_map_exact)+
  with assms show ?thesis by (cases m; cases m') (simp add: same_request_def)
qed

lemma mem_deletable_store:
  assumes gp: "\<And>xs w. getl (putl xs w) = xs"
    and valid: "\<And>w. valid w \<longleftrightarrow> mem_live getl meta w \<and> rest w" "\<And>xs w. rest (putl xs w) = rest w"
    and view: "\<And>w. get (view w) = mem_view getl meta w" "\<And>xs w. view (putl xs w) = put (get (view (putl xs w))) (view w)"
    and put: "\<And>v. put (get v) v = v" "\<And>m v. get (put m v) = m"
    and parts: "\<And>a b. meta a = meta b \<Longrightarrow> spec a = spec b \<Longrightarrow> a = b"
  shows "deletable_store (mem_client getl putl meta st) meta spec get put view valid exactly"
proof -
  have store: "object_store (mem_client getl putl meta st) meta (mem_view getl meta) (mem_wf getl meta) (\<lambda>x. x)"
    by (rule mem_client_object_store) (rule gp)
  have framed: "rest w' = rest w" "view w' = put (mem_view getl meta w') (view w)" if "w' \<in> {w, putl xs w}" for w w' xs
    using that valid(2) view put(1) by (auto simp: view(1) [symmetric])
  have live: "mem_wf getl meta w" "mem_view getl meta w k = Some y \<Longrightarrow> om_DeletionTimestamp (meta y) = None"
    if "valid w" for w k y using that mem_live_iff [of getl meta w] by (auto simp: valid(1) mem_live_def simp del: split_paired_All)
  show ?thesis
  proof (unfold_locales, goal_cases)
    case (1 w k y)
    then show ?case using object_store.keyed [OF store live(1), of w k y] by (simp add: view(1))
  next
    case (4 w ns n r w')
    then have "w' = w" using mem_client_frame(1) [of getl putl meta st ns n w] by simp
    with 4 object_store.get_ok [OF store live(1), of w ns n r w'] show ?case by (simp add: view(1))
  next
    case (5 w obj f x w')
    then obtain xs where xs: "w' \<in> {w, putl xs w}" using mem_client_frame(3) [of getl putl meta st obj f w] by auto
    have key: "f old = Inr y \<Longrightarrow> meta_key (meta y) = meta_key (meta old)" for old y
      using 5(3) by (simp add: keeps_identity_def)
    from object_store.apply_ok [OF store live(1) [OF 5(1)] 5(2) key] have
      step: "mem_wf getl meta w'" "mem_view getl meta w' = (mem_view getl meta w)(meta_key (meta obj) \<mapsto> x)"
        "f (case mem_view getl meta w (meta_key (meta obj)) of None \<Rightarrow> obj | Some old \<Rightarrow> old) = Inr x" by auto
    then have "om_DeletionTimestamp (meta x) = None"
      using 5(3,4) live(2) [OF 5(1)] by (auto simp: keeps_identity_def split: option.splits)
    with step(1,2) live(2) [OF 5(1)] have "mem_live getl meta w'" by (auto simp: mem_live_iff)
    with framed [OF xs] step 5(1) show ?case by (auto simp: valid(1) view(1))
  next
    case (10 o' y x z x')
    then show ?case using parts same_request_exact by blast
  next
    case (11 w y e w')
    then obtain xs where xs: "w' \<in> {w, putl xs w}" using mem_client_frame(2) [of getl putl meta st y w] by auto
    from object_store.delete_ok [OF store live(1) [OF 11(1)] 11(2,3)] have
      step: "mem_wf getl meta w'" "mem_view getl meta w' = (mem_view getl meta w)(meta_key (meta y) := None)" by auto
    then have "mem_live getl meta w'" using live(2) [OF 11(1)] by (auto simp: mem_live_iff)
    moreover have "dropped meta (meta_key (meta y)) (mem_view getl meta w) (mem_view getl meta w')"
      using step(2) live(2) [OF 11(1)] by (auto simp: dropped_def ended_def not_Some_eq)
    ultimately show ?case using framed [OF xs] 11(1) by (auto simp: valid(1) view(1))
  qed (simp_all add: put)
qed

definition mem_cell_objects :: "cluster \<Rightarrow> cell_objects" where
  "mem_cell_objects w =
     \<lparr>co_namespaces = mem_view db_namespaces ns_Meta w, co_services = mem_view db_services svc_Meta w,
      co_quotas = mem_view db_quotas quota_Meta w, co_limits = mem_view db_limits limits_Meta w,
      co_netpols = mem_view db_netpols netpol_Meta w,
      co_slices = (\<lambda>ns ls. filter (\<lambda>x. (case ns of None \<Rightarrow> True | Some s \<Rightarrow> om_Namespace (slice_Meta x) = s) \<and>
        has_labels ls (slice_Meta x)) (db_slices w)),
      co_statuses = stored_status w\<rparr>"

definition mem_cell_valid :: "cluster \<Rightarrow> bool" where
  "mem_cell_valid w \<longleftrightarrow> mem_live db_namespaces ns_Meta w \<and> mem_live db_services svc_Meta w \<and>
     mem_live db_quotas quota_Meta w \<and> mem_live db_limits limits_Meta w \<and> mem_live db_netpols netpol_Meta w"

lemmas mem_cell_simps = mem_cell_objects_def mem_cell_valid_def mem_live_def mem_wf_def mem_view_def [abs_def] mem_status_def [abs_def]

lemma find_other_key:
  "k \<noteq> (ns, n) \<Longrightarrow> (\<And>y. meta (f y) = meta y) \<Longrightarrow>
   find (has_key (fst k) (snd k) \<circ> meta) (map (\<lambda>y. if has_key ns n (meta y) then f y else y) xs) =
   find (has_key (fst k) (snd k) \<circ> meta) xs"
  by (induction xs) (auto simp: has_key_def prod_eq_iff)

lemma mem_owner_settles: "owner_settles mem_kube"
  unfolding owner_settles_def
proof (intro allI impI, goal_cases)
  case (1 kind own m m')
  then have c: "set_controller kind own m = Inr m'" by (simp add: mem_kube_def)
  then have refs: "\<exists>rs. m' = m\<lparr>om_OwnerReferences := rs\<rparr>"
    by (cases m) (auto simp: set_controller_def split: if_splits)
  from c have "is_controlled m' own"
    "\<not> list_ex (\<lambda>r. or_Controller r = Some True \<and> or_UID r \<noteq> om_UID own) (om_OwnerReferences m')"
    by (auto simp: set_controller_def is_controlled_def split: if_splits)
  then show ?case
    using refs by (auto simp: mem_kube_def set_controller_def is_controlled_def)
qed

lemma set_condition_again:
  assumes "find_condition cs (c_Type c) = Some d" "d\<lparr>c_LastTransitionTime := c_LastTransitionTime c\<rparr> = c"
  shows "set_condition now c cs = cs"
proof -
  have "c_Status d = c_Status c" "c\<lparr>c_LastTransitionTime := c_LastTransitionTime d\<rparr> = d"
    by (subst assms(2) [symmetric], simp)+
  with assms(1) show ?thesis
    by (induction cs) (auto simp: find_condition_def split: if_splits)
qed

lemma mem_conditions_settle: "conditions_settle mem_kube"
  by (auto simp: conditions_settle_def reports_def mem_kube_def set_condition_again)

lemma mem_status_patch:
  assumes "run_state (rc_StatusPatch (k_cells mem_kube) x base) w = (None, w')"
    and "stored_status w (cell_key base) = Some (cell_Status base)" "cell_key x = cell_key base"
  shows "mem_cell_valid w' = mem_cell_valid w \<and>
    mem_cell_objects w' = (mem_cell_objects w)\<lparr>co_statuses := (stored_status w)(cell_key x \<mapsto> cell_Status x)\<rparr>"
proof -
  let ?f = "\<lambda>y. y\<lparr>cell_Status := cell_Status x\<rparr>"
  from assms(1) have w': "w' = w\<lparr>db_cells := map (\<lambda>y. if same_key (cell_Meta x) (cell_Meta y) then ?f y else y) (db_cells w)\<rparr>"
    by (simp add: mem_kube_def mem_client_def split: if_splits)
  have "stored_status w' k = ((stored_status w)(cell_key x \<mapsto> cell_Status x)) k" for k
  proof (cases "k = cell_key x")
    case True
    with assms(2,3) show ?thesis
      by (auto simp: w' mem_status_def find_has_key_map [where meta = cell_Meta and f = ?f])
  qed (simp add: w' mem_status_def find_other_key [where meta = cell_Meta and f = ?f])
  then have "stored_status w' = (stored_status w)(cell_key x \<mapsto> cell_Status x)" by blast
  then show ?thesis by (simp add: mem_cell_objects_def) (simp add: w' mem_cell_simps)
qed

lemma mem_cell_stores:
  "deletable_store (k_namespaces mem_kube) ns_Meta (\<lambda>_. ()) co_namespaces (\<lambda>m v. v\<lparr>co_namespaces := m\<rparr>)
     mem_cell_objects mem_cell_valid (ad_namespaces exact_admission)"
  "deletable_store (k_services mem_kube) svc_Meta svc_spec co_services (\<lambda>m v. v\<lparr>co_services := m\<rparr>)
     mem_cell_objects mem_cell_valid (ad_services exact_admission)"
  "deletable_store (k_quotas mem_kube) quota_Meta quota_Hard co_quotas (\<lambda>m v. v\<lparr>co_quotas := m\<rparr>)
     mem_cell_objects mem_cell_valid (ad_quotas exact_admission)"
  "deletable_store (k_limits mem_kube) limits_Meta limits_Limits co_limits (\<lambda>m v. v\<lparr>co_limits := m\<rparr>)
     mem_cell_objects mem_cell_valid (ad_limits exact_admission)"
  "deletable_store (k_netpols mem_kube) netpol_Meta netpol_spec co_netpols (\<lambda>m v. v\<lparr>co_netpols := m\<rparr>)
     mem_cell_objects mem_cell_valid (ad_netpols exact_admission)"
proof -
  show "deletable_store (k_namespaces mem_kube) ns_Meta (\<lambda>_. ()) co_namespaces (\<lambda>m v. v\<lparr>co_namespaces := m\<rparr>)
     mem_cell_objects mem_cell_valid (ad_namespaces exact_admission)"
    unfolding mem_kube_def exact_admission_def kube.simps cell_admission.simps
    by (rule mem_deletable_store [where rest = "\<lambda>w. mem_live db_services svc_Meta w \<and>
        mem_live db_quotas quota_Meta w \<and>
        mem_live db_limits limits_Meta w \<and>
        mem_live db_netpols netpol_Meta w"])
      (auto simp: mem_cell_simps svc_spec_def netpol_spec_def)
  show "deletable_store (k_services mem_kube) svc_Meta svc_spec co_services (\<lambda>m v. v\<lparr>co_services := m\<rparr>)
     mem_cell_objects mem_cell_valid (ad_services exact_admission)"
    unfolding mem_kube_def exact_admission_def kube.simps cell_admission.simps
    by (rule mem_deletable_store [where rest = "\<lambda>w. mem_live db_namespaces ns_Meta w \<and>
        mem_live db_quotas quota_Meta w \<and>
        mem_live db_limits limits_Meta w \<and>
        mem_live db_netpols netpol_Meta w"])
      (auto simp: mem_cell_simps svc_spec_def netpol_spec_def)
  show "deletable_store (k_quotas mem_kube) quota_Meta quota_Hard co_quotas (\<lambda>m v. v\<lparr>co_quotas := m\<rparr>)
     mem_cell_objects mem_cell_valid (ad_quotas exact_admission)"
    unfolding mem_kube_def exact_admission_def kube.simps cell_admission.simps
    by (rule mem_deletable_store [where rest = "\<lambda>w. mem_live db_namespaces ns_Meta w \<and>
        mem_live db_services svc_Meta w \<and>
        mem_live db_limits limits_Meta w \<and>
        mem_live db_netpols netpol_Meta w"])
      (auto simp: mem_cell_simps svc_spec_def netpol_spec_def)
  show "deletable_store (k_limits mem_kube) limits_Meta limits_Limits co_limits (\<lambda>m v. v\<lparr>co_limits := m\<rparr>)
     mem_cell_objects mem_cell_valid (ad_limits exact_admission)"
    unfolding mem_kube_def exact_admission_def kube.simps cell_admission.simps
    by (rule mem_deletable_store [where rest = "\<lambda>w. mem_live db_namespaces ns_Meta w \<and>
        mem_live db_services svc_Meta w \<and>
        mem_live db_quotas quota_Meta w \<and>
        mem_live db_netpols netpol_Meta w"])
      (auto simp: mem_cell_simps svc_spec_def netpol_spec_def)
  show "deletable_store (k_netpols mem_kube) netpol_Meta netpol_spec co_netpols (\<lambda>m v. v\<lparr>co_netpols := m\<rparr>)
     mem_cell_objects mem_cell_valid (ad_netpols exact_admission)"
    unfolding mem_kube_def exact_admission_def kube.simps cell_admission.simps
    by (rule mem_deletable_store [where rest = "\<lambda>w. mem_live db_namespaces ns_Meta w \<and>
        mem_live db_services svc_Meta w \<and>
        mem_live db_quotas quota_Meta w \<and>
        mem_live db_limits limits_Meta w"])
      (auto simp: mem_cell_simps svc_spec_def netpol_spec_def)
qed

interpretation mem_cell_world: cell_world mem_kube mem_cell_objects mem_cell_valid exact_admission
proof (intro cell_world.intro cell_world_axioms.intro mem_cell_stores deletable_store.axioms(1) [OF mem_cell_stores(1)]
    mem_helpers_keep mem_owner_settles mem_conditions_ok mem_conditions_settle, goal_cases)
  case (1 w ns ls xs w')
  then show ?case by (auto simp: mem_kube_def mem_client_def mem_cell_objects_def)
next
  case (2 w base x w')
  then show ?case using mem_status_patch [of x base w w'] by (simp add: mem_cell_objects_def)
qed

section \<open>Properties\<close>

text \<open>
  C10: a successful pass of a cell implements its specification on the whole cluster. The
  namespace and the service are what the server makes of the stored ones, or of new ones, with
  the desired state written into them; quota, limit range and network policy likewise where
  they are configured, and they are deleted where they are not and the cell controls them;
  every other object is untouched, and the status of this cell alone is replaced, by one that
  says what was done. The server may complete what it stores (identifiers, labels, defaults)
  and keep deleted objects marked as terminating; nobody else writes during the pass.
\<close>

theorem cell_pass_refines:
  assumes "cell_world K view valid A" "valid w" "co_statuses (view w) (cell_key cell) = Some (cell_Status cell)"
    and "run_state (Cell_reconcileNormal K cell) w = ((res, None), w')"
  shows "valid w' \<and> pass_result A K cell (view w) (view w') res"
  using triple_run [OF cell_world.triple_pass [OF assms(1,3)] _ assms(4)] assms(2) by simp

text \<open>A cell with a quota, in a cluster that has none.\<close>

definition policy_cell :: Cell where
  "policy_cell = example_cell\<lparr>cell_Spec := (cell_Spec example_cell)\<lparr>cs_Policies :=
     Some \<lparr>pol_ResourceQuota = Some \<lparr>rq_Hard = gomap_lit [(''pods'', ''10'')]\<rparr>, pol_LimitRange = None,
       pol_NetworkPolicy = None\<rparr>\<rparr>\<rparr>"

definition policy_cluster :: cluster where
  "policy_cluster = example_cluster\<lparr>db_cells := [policy_cell]\<rparr>"

lemma policy_cluster_facts:
  "mem_cell_valid policy_cluster" "cell_key policy_cell = ([], ''alpha'')" "effectiveNamespace policy_cell = ''cell-alpha''"
  "co_statuses (mem_cell_objects policy_cluster) (cell_key policy_cell) = Some (cell_Status policy_cell)"
  "co_quotas (mem_cell_objects policy_cluster) k = None"
  by (simp_all add: mem_cell_simps policy_cluster_def policy_cell_def example_cluster_def empty_cluster_def example_cell_def
      NewMeta_def has_key_def effectiveNamespace_def)

theorem cell_pass_refines_witness:
  "\<exists>w' q. run_state (Cell_reconcileNormal mem_kube policy_cell) policy_cluster = ((NoRequeue, None), w') \<and>
     co_quotas (mem_cell_objects w') (''cell-alpha'', CellResourceQuotaName) = Some q \<and> quota_Hard q = gomap_lit [(''pods'', ''10'')]"
proof -
  have "fst (run_state (Cell_reconcileNormal mem_kube policy_cell) policy_cluster) = (NoRequeue, None)" by code_simp
  then obtain w' where run: "run_state (Cell_reconcileNormal mem_kube policy_cell) policy_cluster = ((NoRequeue, None), w')"
    by (metis prod.collapse)
  have wanted: "Option.bind (cs_Policies (cell_Spec policy_cell)) pol_ResourceQuota = Some \<lparr>rq_Hard = gomap_lit [(''pods'', ''10'')]\<rparr>"
    by (simp add: policy_cell_def)
  from cell_pass_refines [OF mem_cell_world.cell_world_axioms policy_cluster_facts(1,4) run] have
    "desired_quotas exact_admission mem_kube policy_cell (co_quotas (mem_cell_objects policy_cluster)) (co_quotas (mem_cell_objects w'))"
    by (simp add: pass_result_def desired_state_def)
  then obtain old q where q: "co_quotas (mem_cell_objects w') (''cell-alpha'', CellResourceQuotaName) = Some q"
    "controlled mem_kube ''Cell'' (cell_Meta policy_cell) quota_Meta (\<lambda>m s. s\<lparr>quota_Meta := m\<rparr>) (MutateResourceQuota old policy_cell) = Inr q"
    using wanted by (auto simp: desired_quotas_def placed_def stored_as_def policy_cluster_facts(3,5) exact_admission_def)
  then have "quota_Hard q = gomap_lit [(''pods'', ''10'')]"
    by (auto simp: controlled_def MutateResourceQuota_def wanted Let_def split: sum.splits)
  with q(1) run show ?thesis by blast
qed

text \<open>
  C9: repeating a pass changes nothing. When a pass of a cell succeeded, and a second pass over
  the cell as it is stored then succeeds too, the second one leaves the cluster exactly as the
  first one left it, transition times included, and asks for the same delay. The server may
  have completed what the first pass wrote and may complete the second request in the same way;
  nobody else writes in between.
\<close>

theorem second_pass_quiet:
  assumes "cell_world K view valid A" "valid w" "co_statuses (view w) (cell_key cell) = Some (cell_Status cell)"
    and "run_state (Cell_reconcileNormal K cell) w = ((res, None), w1)"
    and "co_statuses (view w1) (cell_key cell) = Some st"
    and "run_state (Cell_reconcileNormal K (cell\<lparr>cell_Status := st\<rparr>)) w1 = ((res', None), w2)"
  shows "view w2 = view w1 \<and> res' = res"
proof -
  let ?cell = "cell\<lparr>cell_Status := st\<rparr>"
  note pass = triple_run [OF cell_world.triple_pass [OF assms(1)]]
  have p1: "valid w1" "pass_result A K cell (view w) (view w1) res"
    using pass [OF assms(3) _ assms(4)] assms(2) by auto
  have p2: "pass_result A K ?cell (view w1) (view w2) res'"
    using pass [of "view w1" ?cell, OF _ _ assms(6)] assms(5) p1(1) by simp
  show ?thesis by (rule cell_world.pass_result_again [OF assms(1) p1(2) assms(5) p2])
qed

text \<open>The example cell and its cluster after a pass.\<close>

definition settled_status :: CellStatus where
  "settled_status = \<lparr>cst_ObservedGeneration = 3, cst_Namespace = ''cell-alpha'', cst_EntrypointService = ''cell-alpha/web'',
     cst_OperationalState = CellStateActive, cst_AvailableEndpoints = 1,
     cst_Conditions = map (\<lambda>(t, m). \<lparr>c_Type = t, c_Status = ConditionTrue, c_ObservedGeneration = 3,
         c_LastTransitionTime = 1, c_Reason = ConditionReasonReconciled, c_Message = m\<rparr>)
       [(CellNamespaceReadyCondition, ''namespace reconciled''), (CellServiceReadyCondition, ''service reconciled''),
        (CellPoliciesReadyCondition, ''policies reconciled''), (CellBackendReadyCondition, ''backend endpoints are ready''),
        (CellReadyCondition, ''cell is ready'')]\<rparr>"

definition settled_cluster :: cluster where
  "settled_cluster = example_cluster\<lparr>db_cells := [example_cell\<lparr>cell_Status := settled_status\<rparr>],
     db_namespaces := [\<lparr>ns_Meta = (NewMeta ''cell-alpha'' [])\<lparr>om_Labels := gomap_lit (cell_labels example_cell),
       om_Annotations := gomap_lit []\<rparr>\<rparr>],
     db_services := [\<lparr>svc_Meta = (NewMeta ''web'' ''cell-alpha'')\<lparr>om_Labels := gomap_lit (service_labels example_cell),
         om_Annotations := gomap_lit [], om_OwnerReferences :=
           [\<lparr>or_Kind = ''Cell'', or_Name = ''alpha'', or_UID = ''uid-1'', or_Controller = Some True\<rparr>]\<rparr>,
       svc_Selector = Some (WorkloadSelector example_cell), svc_Type = ''ClusterIP'',
       svc_Ports = [\<lparr>sp_Name = ''port-80'', sp_Port = 80, sp_TargetPort = 80, sp_Protocol = ''TCP''\<rparr>]\<rparr>]\<rparr>"
lemma settled_runs:
  "run_state (Cell_reconcileNormal mem_kube example_cell) example_cluster = ((NoRequeue, None), settled_cluster)"
  "fst (run_state (Cell_reconcileNormal mem_kube (example_cell\<lparr>cell_Status := settled_status\<rparr>)) settled_cluster) = (NoRequeue, None)"
  by code_simp+

theorem second_pass_quiet_witness:
  "\<exists>w2. run_state (Cell_reconcileNormal mem_kube (example_cell\<lparr>cell_Status := settled_status\<rparr>)) settled_cluster =
       ((NoRequeue, None), w2) \<and> mem_cell_objects w2 = mem_cell_objects settled_cluster"
proof -
  from settled_runs(2) obtain w2 where run2: "run_state (Cell_reconcileNormal mem_kube
      (example_cell\<lparr>cell_Status := settled_status\<rparr>)) settled_cluster = ((NoRequeue, None), w2)"
    by (metis prod.collapse)
  have start: "mem_cell_valid example_cluster"
    "co_statuses (mem_cell_objects example_cluster) (cell_key example_cell) = Some (cell_Status example_cell)"
    by (simp_all add: mem_cell_simps example_cluster_def empty_cluster_def example_cell_def NewMeta_def has_key_def)
  have "co_statuses (mem_cell_objects settled_cluster) (cell_key example_cell) = Some settled_status"
    by (simp add: mem_cell_simps settled_cluster_def has_key_def)
  from second_pass_quiet [OF mem_cell_world.cell_world_axioms start settled_runs(1) this run2] run2 show ?thesis by blast
qed

end
