(* ===== verification/CellTeardown.thy ===== *)
theory CellTeardown
  imports CellStability
begin

text \<open>
  What the deletion of a cell takes away (\<^verbatim>\<open>internal/controller/cell_controller.go\<close>,
  \<^verbatim>\<open>reconcileDeletion\<close>), over an API server whose deletions take their time: a deleted object
  is gone or marked for deletion, the contents of a deleted namespace go with it sooner or
  later, and objects that depend on a cell may be collected once its finalizer is removed.
\<close>

section \<open>Deletions that take their time\<close>

text \<open>
  The objects that a deletion may take along: those in the namespaces \<open>nss\<close>, and those with an
  owner reference to one of the UIDs \<open>uids\<close>.
\<close>

definition at_risk :: "('o \<Rightarrow> ObjectMeta) \<Rightarrow> string set \<Rightarrow> string set \<Rightarrow> string \<times> string \<Rightarrow> 'o option \<Rightarrow> bool" where
  "at_risk meta nss uids k o' \<longleftrightarrow> (\<exists>x. o' = Some x \<and>
     (fst k \<in> nss \<or> (\<exists>r\<in>set (om_OwnerReferences (meta x)). or_UID r \<in> uids)))"

definition left_alone :: "('o \<Rightarrow> ObjectMeta) \<Rightarrow> string set \<Rightarrow> string set \<Rightarrow> 'o store \<Rightarrow> 'o store \<Rightarrow> string \<times> string \<Rightarrow> bool" where
  "left_alone meta nss uids m m' k \<longleftrightarrow> m' k = m k \<or> at_risk meta nss uids k (m k) \<and> ended meta (m' k)"

definition contents_left_alone :: "string set \<Rightarrow> string set \<Rightarrow> cell_objects \<Rightarrow> cell_objects \<Rightarrow> bool" where
  "contents_left_alone nss uids v v' \<longleftrightarrow>
     (\<forall>k. left_alone svc_Meta nss uids (co_services v) (co_services v') k \<and>
       left_alone quota_Meta nss uids (co_quotas v) (co_quotas v') k \<and>
       left_alone limits_Meta nss uids (co_limits v) (co_limits v') k \<and>
       left_alone netpol_Meta nss uids (co_netpols v) (co_netpols v') k)"

lemma at_risk_mono:
  "at_risk meta nss uids k o' \<Longrightarrow> at_risk meta (nss \<union> nss') (uids \<union> uids') k o'"
  "at_risk meta nss' uids' k o' \<Longrightarrow> at_risk meta (nss \<union> nss') (uids \<union> uids') k o'"
  unfolding at_risk_def by blast+

lemma left_alone_trans:
  assumes "left_alone meta nss uids m m1 k" "left_alone meta nss' uids' m1 m2 k"
  shows "left_alone meta (nss \<union> nss') (uids \<union> uids') m m2 k"
proof -
  from assms consider "m2 k = m k"
    | "at_risk meta nss' uids' k (m k)" "ended meta (m2 k)"
    | "at_risk meta nss uids k (m k)" "ended meta (m2 k)"
    unfolding left_alone_def by metis
  then show ?thesis by cases (simp_all add: left_alone_def at_risk_mono)
qed

lemma contents_trans:
  assumes "contents_left_alone nss uids v v1" "contents_left_alone nss' uids' v1 v2"
  shows "contents_left_alone (nss \<union> nss') (uids \<union> uids') v v2"
  using assms unfolding contents_left_alone_def by (blast intro: left_alone_trans)

lemma left_alone_refl [simp]: "left_alone meta nss uids m m k"
  by (simp add: left_alone_def)

lemma ended_left_alone: "ended meta (m k) \<Longrightarrow> left_alone meta nss uids m m' k \<Longrightarrow> ended meta (m' k)"
  by (auto simp: left_alone_def)

text \<open>
  The contract of the server for a deletion pass. Deleting a namespace ends it and puts its
  contents at risk; a patch of a cell (which may remove its finalizer, and with it the cell)
  puts the objects at risk that depend on the cell.
\<close>

locale teardown_world = cell_world +
  assumes namespace_delete_ok: "valid w \<Longrightarrow> run_state (rc_Delete (k_namespaces K) y) w = (e, w') \<Longrightarrow> IgnoreNotFound e = None \<Longrightarrow>
      valid w' \<and> dropped ns_Meta (meta_key (ns_Meta y)) (co_namespaces (view w)) (co_namespaces (view w')) \<and>
      contents_left_alone {om_Name (ns_Meta y)} {} (view w) (view w')"
    and cell_patch_ok: "valid w \<Longrightarrow> run_state (rc_Patch (k_cells K) x base) w = (r, w') \<Longrightarrow>
      valid w' \<and> (\<forall>k. left_alone ns_Meta {} {om_UID (cell_Meta base)} (co_namespaces (view w)) (co_namespaces (view w')) k) \<and>
      contents_left_alone {} {om_UID (cell_Meta base)} (view w) (view w')"

section \<open>The deletion pass\<close>

abbreviation entry_key :: "Cell \<Rightarrow> string \<times> string" where
  "entry_key cell \<equiv> (effectiveNamespace cell, ep_ServiceName (cs_Entrypoint (cell_Spec cell)))"

text \<open>The namespace is torn down: asked for, and it carries the labels of the operator and of the cell.\<close>

definition tears_down :: "Cell \<Rightarrow> Namespace store \<Rightarrow> bool" where
  "tears_down cell nv \<longleftrightarrow> cs_TearDownOnDelete (cell_Spec cell) \<and> effectiveNamespace cell \<noteq> [] \<and>
     (\<exists>ns. nv ([], effectiveNamespace cell) = Some ns \<and> cell_owns_namespace cell ns)"

text \<open>The entrypoint service is deleted: the cell controls it.\<close>

definition claims_service :: "'w kube \<Rightarrow> Cell \<Rightarrow> Service store \<Rightarrow> bool" where
  "claims_service K cell sv \<longleftrightarrow> effectiveNamespace cell \<noteq> [] \<and>
     (\<exists>svc. sv (entry_key cell) = Some svc \<and> k_IsControlledBy K (svc_Meta svc) (cell_Meta cell))"

text \<open>What a deletion pass makes of the cluster.\<close>

definition torn_state :: "'w kube \<Rightarrow> Cell \<Rightarrow> cell_objects \<Rightarrow> cell_objects \<Rightarrow> bool" where
  "torn_state K cell v v' \<longleftrightarrow>
     (let torn = tears_down cell (co_namespaces v); nss = (if torn then {effectiveNamespace cell} else {});
          uids = {om_UID (cell_Meta cell)} in
      (torn \<longrightarrow> ended ns_Meta (co_namespaces v' ([], effectiveNamespace cell))) \<and>
      (\<forall>k. \<not> (torn \<and> k = ([], effectiveNamespace cell)) \<longrightarrow>
        left_alone ns_Meta {} uids (co_namespaces v) (co_namespaces v') k) \<and>
      (claims_service K cell (co_services v) \<longrightarrow> ended svc_Meta (co_services v' (entry_key cell))) \<and>
      (\<forall>k. \<not> (claims_service K cell (co_services v) \<and> k = entry_key cell) \<longrightarrow>
        left_alone svc_Meta nss uids (co_services v) (co_services v') k) \<and>
      (\<forall>k. left_alone quota_Meta nss uids (co_quotas v) (co_quotas v') k \<and>
        left_alone limits_Meta nss uids (co_limits v) (co_limits v') k \<and>
        left_alone netpol_Meta nss uids (co_netpols v) (co_netpols v') k))"

context teardown_world
begin

lemma triple_entry:
  "triple (at v) (deleteEntrypointService K cell (effectiveNamespace cell)) (\<lambda>r w. r = None \<longrightarrow>
     (\<exists>s. (if claims_service K cell (co_services v) then dropped svc_Meta (entry_key cell) (co_services v) s
       else s = co_services v) \<and> at (v\<lparr>co_services := s\<rparr>) w))"
proof (cases "effectiveNamespace cell = []")
  case True
  then show ?thesis
    by (auto simp: deleteEntrypointService_def claims_service_def intro!: triple_return exI [of _ "co_services v"])
next
  case False
  show ?thesis
    unfolding deleteEntrypointService_def if_not_P [OF False]
    by (rule triple_weaken [OF services.triple_remove [where allowed = "\<lambda>s. k_IsControlledBy K (svc_Meta s) (cell_Meta cell)"]])
      (auto simp: removed_def claims_service_def False)
qed

text \<open>The step that tears the namespace down, or does not.\<close>

definition tear_step :: "Cell \<Rightarrow> cell_objects \<Rightarrow> cell_objects \<Rightarrow> bool" where
  "tear_step cell v v' \<longleftrightarrow>
     (if tears_down cell (co_namespaces v)
      then dropped ns_Meta ([], effectiveNamespace cell) (co_namespaces v) (co_namespaces v') \<and>
        contents_left_alone {effectiveNamespace cell} {} v v'
      else v' = v)"

lemma triple_tear:
  "triple (at v) (if cs_TearDownOnDelete (cell_Spec cell) then deleteNamespaceIfManaged K cell (effectiveNamespace cell)
      else ret None) (\<lambda>r w. r = None \<longrightarrow> valid w \<and> tear_step cell v (view w))"
proof (cases "cs_TearDownOnDelete (cell_Spec cell) \<and> effectiveNamespace cell \<noteq> []")
  case False
  then show ?thesis
    by (auto simp: triple_def tear_step_def tears_down_def deleteNamespaceIfManaged_def)
next
  case True
  show ?thesis
    unfolding deleteNamespaceIfManaged_def owns_namespace_guard triple_def
  proof (intro allI impI, goal_cases)
    case (1 w)
    obtain r w1 where g: "run_state (rc_Get (k_namespaces K) [] (effectiveNamespace cell)) w = (r, w1)" by fastforce
    note w1 = namespaces.get_ok [OF conjunct1 [OF 1(1)] g]
    note run = 1(2)
    have stay: "tear_step cell v (view w1)" if "\<not> tears_down cell (co_namespaces v)"
      using that w1 1(1) by (simp add: tear_step_def)
    show ?case
    proof (cases r)
      case (Inl err)
      with run g True have "IsNotFound err" by (simp split: if_splits)
      with Inl w1 1(1) have "\<not> tears_down cell (co_namespaces v)" by (simp add: tears_down_def)
      with stay Inl g w1 True show ?thesis by simp
    next
      case (Inr y)
      with w1 1(1) have y: "co_namespaces v ([], effectiveNamespace cell) = Some y" by simp
      then have key: "meta_key (ns_Meta y) = ([], effectiveNamespace cell)" using namespaces.keyed 1(1) by blast
      show ?thesis
      proof (cases "cell_owns_namespace cell y")
        case False
        with y have "\<not> tears_down cell (co_namespaces v)" by (simp add: tears_down_def)
        with stay Inr g w1 True False show ?thesis by simp
      next
        case owns: True
        obtain e w2 where d: "run_state (rc_Delete (k_namespaces K) y) w1 = (e, w2)" by fastforce
        from run g Inr owns d True have "IgnoreNotFound e = None" by simp
        from namespace_delete_ok [OF conjunct1 [OF w1] d this] key w1 1(1) y owns True have
          "valid w2 \<and> tear_step cell v (view w2)" by (auto simp: tear_step_def tears_down_def)
        with g Inr owns d True show ?thesis by simp
      qed
    qed
  qed
qed

lemma triple_finalizer:
  "triple (at v) (Cell_removeFinalizer K cell) (\<lambda>r w. valid w \<and>
     (\<forall>k. left_alone ns_Meta {} {om_UID (cell_Meta cell)} (co_namespaces v) (co_namespaces (view w)) k) \<and>
     contents_left_alone {} {om_UID (cell_Meta cell)} v (view w))"
  unfolding triple_def
proof (intro allI impI, goal_cases)
  case (1 w)
  show ?case
  proof (cases "k_ContainsFinalizer K (cell_Meta cell) FinalizerCell")
    case True
    let ?x = "cell\<lparr>cell_Meta := k_RemoveFinalizer K (cell_Meta cell) FinalizerCell\<rparr>"
    obtain r w' where run: "run_state (rc_Patch (k_cells K) ?x cell) w = (r, w')" by fastforce
    from cell_patch_ok [OF conjunct1 [OF 1] run] 1 True run show ?thesis
      by (cases r) (simp_all add: Cell_removeFinalizer_def)
  qed (use 1 in \<open>simp add: Cell_removeFinalizer_def contents_left_alone_def\<close>)
qed

lemma torn_state_steps:
  assumes "if claims_service K cell (co_services v) then dropped svc_Meta (entry_key cell) (co_services v) s else s = co_services v"
    and "tear_step cell (v\<lparr>co_services := s\<rparr>) v1"
    and "\<forall>k. left_alone ns_Meta {} {om_UID (cell_Meta cell)} (co_namespaces v1) (co_namespaces v2) k"
    and "contents_left_alone {} {om_UID (cell_Meta cell)} v1 v2"
  shows "torn_state K cell v v2"
proof -
  let ?torn = "tears_down cell (co_namespaces v)" and ?uid = "{om_UID (cell_Meta cell)}"
  let ?nss = "if ?torn then {effectiveNamespace cell} else {}"
  have first: "contents_left_alone ?nss {} (v\<lparr>co_services := s\<rparr>) v1"
    using assms(2) by (auto simp: tear_step_def contents_left_alone_def)
  have rest: "contents_left_alone ?nss ?uid (v\<lparr>co_services := s\<rparr>) v2"
    using contents_trans [OF first assms(4)] by simp
  have ns: "?torn \<Longrightarrow> ended ns_Meta (co_namespaces v1 ([], effectiveNamespace cell))"
    "\<not> (?torn \<and> k = ([], effectiveNamespace cell)) \<Longrightarrow> co_namespaces v1 k = co_namespaces v k" for k
    using assms(2) by (auto simp: tear_step_def dropped_def simp del: split_paired_All split: if_splits)
  have svc: "claims_service K cell (co_services v) \<Longrightarrow> ended svc_Meta (s (entry_key cell))"
    "\<not> (claims_service K cell (co_services v) \<and> k = entry_key cell) \<Longrightarrow> s k = co_services v k" for k
    using assms(1) by (auto simp: dropped_def simp del: split_paired_All split: if_splits)
  have same: "m k = m' k \<Longrightarrow> left_alone meta nss uids m' m2 k = left_alone meta nss uids m m2 k" for meta :: "'o \<Rightarrow> ObjectMeta" and nss uids m m' m2 k
    by (simp add: left_alone_def)
  show ?thesis
    unfolding torn_state_def Let_def
  proof (intro conjI allI impI)
    show "ended ns_Meta (co_namespaces v2 ([], effectiveNamespace cell))" if ?torn
      using ended_left_alone [where m = "co_namespaces v1" and m' = "co_namespaces v2", OF ns(1) [OF that]] assms(3) by blast
    show "left_alone ns_Meta {} ?uid (co_namespaces v) (co_namespaces v2) k" if "\<not> (?torn \<and> k = ([], effectiveNamespace cell))" for k
      using assms(3) [THEN spec, of k] ns(2) [OF that] by (simp add: left_alone_def)
    show "ended svc_Meta (co_services v2 (entry_key cell))" if "claims_service K cell (co_services v)"
      by (rule ended_left_alone [where m = s and nss = ?nss and uids = ?uid, OF svc(1) [OF that]]) (use rest in \<open>simp add: contents_left_alone_def\<close>)
    show "left_alone svc_Meta ?nss ?uid (co_services v) (co_services v2) k"
      if "\<not> (claims_service K cell (co_services v) \<and> k = entry_key cell)" for k
      using rest [unfolded contents_left_alone_def, THEN spec, of k] svc(2) [OF that] by (simp add: left_alone_def)
  qed (use rest in \<open>simp_all add: contents_left_alone_def del: split_paired_All if_split\<close>)
qed

lemma triple_deletion_pass:
  "triple (at v) (Cell_reconcileDeletion K cell) (\<lambda>r w. snd r = None \<longrightarrow> valid w \<and> torn_state K cell v (view w))"
  unfolding Cell_reconcileDeletion_def
proof (rule triple_try_option [OF triple_entry], rule triple_ex, rule triple_fact, goal_cases)
  case (1 s)
  have last: "triple (\<lambda>w. valid w \<and> tear_step cell (v\<lparr>co_services := s\<rparr>) (view w)) (Cell_removeFinalizer K cell)
      (\<lambda>r w. snd r = None \<longrightarrow> valid w \<and> torn_state K cell v (view w))"
    unfolding triple_def
  proof (intro allI impI, goal_cases)
    case (1 w)
    from triple_finalizer [of "view w" cell] 1(1) torn_state_steps [OF \<open>if _ then _ else _\<close>]
    show ?case by (auto simp: triple_def)
  qed
  show ?case by (rule triple_try_option [OF triple_tear last]) (simp add: triple_return)
qed (simp add: triple_return)

end

section \<open>Cells that were reconciled\<close>

text \<open>
  Where the namespace and the service are still as a pass left them, the deletion of the cell
  claims both: the labels and the owner reference are on what the server stored.
\<close>

context teardown_world
begin

lemma pass_then_torn:
  assumes "pass_result A K cell v v1 res"
    and "co_namespaces v2 ([], effectiveNamespace cell) = co_namespaces v1 ([], effectiveNamespace cell)"
    and "co_services v2 (entry_key cell) = co_services v1 (entry_key cell)"
    and cell: "cell_Spec cell' = cell_Spec cell" "cell_Name cell' = cell_Name cell" "om_UID (cell_Meta cell') = om_UID (cell_Meta cell)"
    and "effectiveNamespace cell \<noteq> []"
  shows "cs_TearDownOnDelete (cell_Spec cell) \<Longrightarrow> tears_down cell' (co_namespaces v2)"
    and "claims_service K cell' (co_services v2)"
proof -
  have ns: "effectiveNamespace cell' = effectiveNamespace cell" using cell by (simp add: effectiveNamespace_def)
  show "tears_down cell' (co_namespaces v2)" if "cs_TearDownOnDelete (cell_Spec cell)"
  proof -
    from assms(1) obtain old x where x: "co_namespaces v1 ([], effectiveNamespace cell) = Some x"
      "ad_namespaces A (co_namespaces v ([], effectiveNamespace cell)) (MutateNamespace old cell) x"
      by (auto simp: pass_result_def desired_state_def desired_namespaces_def stored_as_def)
    have "gomap_lookup (om_Labels (ns_Meta x)) l = Some u" if "(l, u) \<in> set (cell_labels cell)" for l u
      using namespaces.admits_labels [OF x(2) namespace_builder.mutate_owned [OF that]] .
    then have "cell_owns_namespace cell' x" by (simp add: cell_owns_namespace_def cell_labels_def gomap_index_def cell)
    with x(1) assms(2,7) that show ?thesis by (simp add: tears_down_def ns cell)
  qed
  from assms(1) obtain old y x where x: "co_services v1 (entry_key cell) = Some x"
    "ad_services A (co_services v (entry_key cell)) y x"
    "controlled K ''Cell'' (cell_Meta cell) svc_Meta (\<lambda>m s. s\<lparr>svc_Meta := m\<rparr>) (MutateService old cell) = Inr y"
    by (auto simp: pass_result_def desired_state_def desired_services_def stored_as_def)
  from controlled_result [OF owner x(3)] obtain rs where
    y: "y = (MutateService old cell)\<lparr>svc_Meta := (svc_Meta (MutateService old cell))\<lparr>om_OwnerReferences := rs\<rparr>\<rparr>"
    "\<And>m own'. om_OwnerReferences m = rs \<Longrightarrow> meta_key m = meta_key (svc_Meta (MutateService old cell)) \<Longrightarrow>
      om_UID own' = om_UID (cell_Meta cell) \<Longrightarrow> k_IsControlledBy K m own'" by metis
  have "k_IsControlledBy K (svc_Meta x) (cell_Meta cell')"
    by (rule y(2)) (use services.admits_owners [OF x(2)] services.admits_key [OF x(2)] cell(3) in \<open>simp_all add: y(1)\<close>)
  with x(1) assms(3,7) show "claims_service K cell' (co_services v2)" by (simp add: claims_service_def ns cell)
qed

end

section \<open>The in-memory cluster\<close>

interpretation mem_teardown: teardown_world mem_kube mem_cell_objects mem_cell_valid exact_admission
proof (intro teardown_world.intro teardown_world_axioms.intro mem_cell_world.cell_world_axioms, goal_cases)
  case (1 w y e w')
  from deletable_store.delete_ok [OF mem_cell_stores(1) 1] show ?case by (auto simp: contents_left_alone_def)
next
  case (2 w x base r w')
  then obtain cs where "w' = w\<lparr>db_cells := cs\<rparr> \<or> w' = w"
    by (auto simp: mem_kube_def mem_client_def split: if_splits)
  with 2(1) show ?case by (auto simp: contents_left_alone_def mem_cell_simps)
qed

section \<open>Properties\<close>

text \<open>
  C12: a successful deletion pass of a cell takes away exactly this. The namespace ends (it is
  gone or marked for deletion) when tear-down is asked for and it carries the labels of the
  operator and of the cell, and then its contents may go with it; the entrypoint service ends
  when the cell controls it. Every other namespace, service, quota, limit range and network
  policy stays as it was, unless it has an owner reference to the cell and is collected once
  the finalizer is removed.
\<close>

theorem tear_down_exact:
  assumes "teardown_world K view valid A" "valid w"
    and "run_state (Cell_reconcileDeletion K cell) w = ((res, None), w')"
  shows "valid w' \<and> torn_state K cell (view w) (view w')"
  using triple_run [OF teardown_world.triple_deletion_pass [OF assms(1), of "view w" cell] _ assms(3)] assms(2) by simp

definition labelled_namespace :: Namespace where
  "labelled_namespace = \<lparr>ns_Meta = (NewMeta ''cell-alpha'' [])\<lparr>om_Labels := gomap_lit (cell_labels example_cell)\<rparr>\<rparr>"

definition other_namespace :: Namespace where
  "other_namespace = \<lparr>ns_Meta = NewMeta ''infra'' []\<rparr>"

theorem tear_down_exact_witness:
  "\<exists>w'. run_state (Cell_reconcileDeletion mem_kube example_cell)
       (example_cluster\<lparr>db_namespaces := [labelled_namespace, other_namespace]\<rparr>) = ((NoRequeue, None), w') \<and>
     ended ns_Meta (co_namespaces (mem_cell_objects w') ([], ''cell-alpha'')) \<and>
     co_namespaces (mem_cell_objects w') ([], ''infra'') = Some other_namespace"
proof -
  let ?w = "example_cluster\<lparr>db_namespaces := [labelled_namespace, other_namespace]\<rparr>"
  have "fst (run_state (Cell_reconcileDeletion mem_kube example_cell) ?w) = (NoRequeue, None)"
    by code_simp
  then obtain w' where run: "run_state (Cell_reconcileDeletion mem_kube example_cell) ?w = ((NoRequeue, None), w')"
    by (metis prod.collapse)
  have valid: "mem_cell_valid ?w"
    by (simp add: mem_cell_simps example_cluster_def empty_cluster_def labelled_namespace_def other_namespace_def NewMeta_def)
  have view: "co_namespaces (mem_cell_objects ?w) ([], ''cell-alpha'') = Some labelled_namespace"
    "co_namespaces (mem_cell_objects ?w) ([], ''infra'') = Some other_namespace"
    by (simp_all add: mem_cell_simps has_key_def labelled_namespace_def other_namespace_def NewMeta_def)
  have ns: "effectiveNamespace example_cell = ''cell-alpha''" "cs_TearDownOnDelete (cell_Spec example_cell)"
    by (simp_all add: effectiveNamespace_def example_cell_def)
  have "cell_owns_namespace example_cell labelled_namespace"
    by (simp add: cell_owns_namespace_def labelled_namespace_def cell_labels_def gomap_index_def)
  with view ns have torn: "tears_down example_cell (co_namespaces (mem_cell_objects ?w))" by (simp add: tears_down_def)
  from tear_down_exact [OF mem_teardown.teardown_world_axioms valid run] torn ns have
    "ended ns_Meta (co_namespaces (mem_cell_objects w') ([], ''cell-alpha''))"
    "left_alone ns_Meta {} {om_UID (cell_Meta example_cell)} (co_namespaces (mem_cell_objects ?w)) (co_namespaces (mem_cell_objects w')) ([], ''infra'')"
    by (simp_all add: torn_state_def Let_def)
  with run view(2) show ?thesis by (auto simp: left_alone_def at_risk_def other_namespace_def NewMeta_def)
qed

text \<open>
  C11: a cell that was reconciled and is then deleted with tear-down leaves neither its
  namespace nor its service behind: both are gone or marked for deletion. Nothing is asked of
  the objects that were stored under these names before the cell was reconciled: a namespace or
  a service that existed already is adopted by the pass and deleted with the cell. Between the
  two passes anything may change but these two objects and the spec of the cell.
\<close>

theorem reconciled_then_deleted:
  assumes "teardown_world K view valid A" "valid w" "co_statuses (view w) (cell_key cell) = Some (cell_Status cell)"
    and "run_state (Cell_reconcileNormal K cell) w = ((res, None), w1)"
    and "valid w2" "co_namespaces (view w2) ([], effectiveNamespace cell) = co_namespaces (view w1) ([], effectiveNamespace cell)"
      "co_services (view w2) (entry_key cell) = co_services (view w1) (entry_key cell)"
    and "cell_Spec cell' = cell_Spec cell" "cell_Name cell' = cell_Name cell" "om_UID (cell_Meta cell') = om_UID (cell_Meta cell)"
    and "run_state (Cell_reconcileDeletion K cell') w2 = ((res', None), w3)"
    and "cs_TearDownOnDelete (cell_Spec cell)" "effectiveNamespace cell \<noteq> []"
  shows "ended ns_Meta (co_namespaces (view w3) ([], effectiveNamespace cell)) \<and>
    ended svc_Meta (co_services (view w3) (entry_key cell))"
proof -
  note world = teardown_world.axioms(1) [OF assms(1)]
  have "pass_result A K cell (view w) (view w1) res"
    using triple_run [OF cell_world.triple_pass [OF world assms(3)] _ assms(4)] assms(2) by simp
  note claims = teardown_world.pass_then_torn [OF assms(1) this assms(6-10,13)]
  have "torn_state K cell' (view w2) (view w3)"
    using triple_run [OF teardown_world.triple_deletion_pass [OF assms(1), of "view w2" cell'] _ assms(11)] assms(5) by simp
  moreover have "effectiveNamespace cell' = effectiveNamespace cell"
    using assms(8,9) by (simp add: effectiveNamespace_def)
  ultimately show ?thesis using claims(1) [OF assms(12)] claims(2) assms(8) by (simp add: torn_state_def Let_def)
qed

text \<open>The namespace of this cluster was there before the cell and had no labels.\<close>

definition deleted_cell :: Cell where
  "deleted_cell = example_cell\<lparr>cell_Meta := (cell_Meta example_cell)\<lparr>om_DeletionTimestamp := Some 9,
     om_Finalizers := [FinalizerCell]\<rparr>, cell_Status := settled_status\<rparr>"

lemma adopted_runs:
  "run_state (Cell_reconcileNormal mem_kube example_cell)
     (example_cluster\<lparr>db_namespaces := [\<lparr>ns_Meta = NewMeta ''cell-alpha'' []\<rparr>]\<rparr>) = ((NoRequeue, None), settled_cluster)"
  "fst (run_state (Cell_reconcileDeletion mem_kube deleted_cell) settled_cluster) = (NoRequeue, None)"
  by code_simp+

theorem reconciled_then_deleted_witness:
  "\<exists>w3. run_state (Cell_reconcileDeletion mem_kube deleted_cell) settled_cluster = ((NoRequeue, None), w3) \<and>
     ended ns_Meta (co_namespaces (mem_cell_objects w3) ([], ''cell-alpha'')) \<and>
     ended svc_Meta (co_services (mem_cell_objects w3) (''cell-alpha'', ''web''))"
proof -
  let ?w = "example_cluster\<lparr>db_namespaces := [\<lparr>ns_Meta = NewMeta ''cell-alpha'' []\<rparr>]\<rparr>"
  from adopted_runs(2) obtain w3 where run: "run_state (Cell_reconcileDeletion mem_kube deleted_cell) settled_cluster = ((NoRequeue, None), w3)"
    by (metis prod.collapse)
  have valid: "mem_cell_valid ?w" "mem_cell_valid settled_cluster"
    "co_statuses (mem_cell_objects ?w) (cell_key example_cell) = Some (cell_Status example_cell)"
    by (simp_all add: mem_cell_simps settled_cluster_def example_cluster_def empty_cluster_def example_cell_def NewMeta_def has_key_def)
  have cell: "cell_Spec deleted_cell = cell_Spec example_cell" "cell_Name deleted_cell = cell_Name example_cell"
    "om_UID (cell_Meta deleted_cell) = om_UID (cell_Meta example_cell)"
    "cs_TearDownOnDelete (cell_Spec example_cell)" "effectiveNamespace example_cell \<noteq> []"
    by (simp_all add: deleted_cell_def example_cell_def effectiveNamespace_def)
  have "effectiveNamespace example_cell = ''cell-alpha''" "ep_ServiceName (cs_Entrypoint (cell_Spec example_cell)) = ''web''"
    by (simp_all add: example_cell_def effectiveNamespace_def)
  with reconciled_then_deleted [OF mem_teardown.teardown_world_axioms valid(1,3) adopted_runs(1) valid(2) refl refl cell(1-3) run cell(4,5)]
    run show ?thesis by simp
qed

end
