(* ===== verification/Operator.thy ===== *)
theory Operator
  imports RouteConvergence CellTeardown
begin

text \<open>
  The operator as a transition system. The two controllers run beside each other, each pass
  is one step from world to world, and between the steps the environment (users, other
  controllers, the API server) acts. Reachable worlds are an inductive closure, and invariants
  of the steps are carried to them by rule induction.
\<close>

section \<open>Steps\<close>

inductive operator_step :: "'w kube \<Rightarrow> 'w \<Rightarrow> 'w \<Rightarrow> bool" for K :: "'w kube" where
  cell_pass: "operator_step K w (snd (run_state (Cell_Reconcile K req) w))"
| router_pass: "operator_step K w (snd (run_state (Router_Reconcile K req) w))"
| slice_event: "operator_step K w (snd (run_state (requestsForEndpointSlice K obj) w))"
| cell_event: "operator_step K w (snd (run_state (requestsForCell K) w))"

inductive reachable :: "'w kube \<Rightarrow> ('w \<Rightarrow> 'w \<Rightarrow> bool) \<Rightarrow> 'w \<Rightarrow> 'w \<Rightarrow> bool" for K :: "'w kube" and env and w0 where
  start: "reachable K env w0 w0"
| operator: "reachable K env w0 w \<Longrightarrow> operator_step K w w' \<Longrightarrow> reachable K env w0 w'"
| environment: "reachable K env w0 w \<Longrightarrow> env w w' \<Longrightarrow> reachable K env w0 w'"

inductive_cases operator_stepE: "operator_step K w w'"

lemma step_keeps:
  assumes "operator_step K w w'" "I w"
    and "\<And>req. keeps I (Cell_Reconcile K req)" "\<And>req. keeps I (Router_Reconcile K req)"
      "\<And>obj. keeps I (requestsForEndpointSlice K obj)" "keeps I (requestsForCell K)"
  shows "I w'"
  using assms(1) assms(3-6) [THEN keeps_run, OF assms(2)] by (elim operator_stepE) simp_all

lemma reachable_invariant:
  assumes "reachable K env w0 w" "I w0"
    and "\<And>w w'. operator_step K w w' \<Longrightarrow> I w \<Longrightarrow> I w'" "\<And>w w'. env w w' \<Longrightarrow> I w \<Longrightarrow> I w'"
  shows "I w"
  using assms(1) by (induction rule: reachable.induct) (use assms(2-) in blast)+

section \<open>Invariants of a pass\<close>

definition client_keeps :: "('w \<Rightarrow> bool) \<Rightarrow> ('o, 'w) resource_client \<Rightarrow> bool" where
  "client_keeps I rc \<longleftrightarrow> reads_keep I rc \<and> applies_keep I rc \<and> patches_keep I rc \<and> deletes_keep I rc (\<lambda>_. True)"

text \<open>The kinds whose operations an invariant of gateways and routers survives.\<close>

definition bystanders_keep :: "('w \<Rightarrow> bool) \<Rightarrow> 'w kube \<Rightarrow> bool" where
  "bystanders_keep I K \<longleftrightarrow> helpers_keep I K \<and> client_keeps I (k_placements K) \<and>
     client_keeps I (k_services K) \<and> client_keeps I (k_quotas K) \<and>
     client_keeps I (k_limits K) \<and> client_keeps I (k_netpols K) \<and> client_keeps I (k_slices K) \<and>
     client_keeps I (k_routes K) \<and> client_keeps I (k_grants K)"

text \<open>
  Deleting a namespace deletes what is in it, so an invariant of a gateway survives deletions of
  other namespaces than its own, \<open>s\<close>, only. A read returns the namespace that was asked for.
\<close>

definition other_namespaces_keep :: "string \<Rightarrow> ('w \<Rightarrow> bool) \<Rightarrow> 'w kube \<Rightarrow> bool" where
  "other_namespaces_keep s I K \<longleftrightarrow>
     applies_keep I (k_namespaces K) \<and> deletes_keep I (k_namespaces K) (\<lambda>n. om_Name (ns_Meta n) \<noteq> s) \<and>
     (\<forall>n. triple I (rc_Get (k_namespaces K) [] n) (\<lambda>r w. (\<forall>y. r = Inr y \<longrightarrow> om_Name (ns_Meta y) = n) \<and> I w))"

text \<open>No cell that the API returns asks for the tear-down of this namespace.\<close>

definition spares :: "string \<Rightarrow> Cell \<Rightarrow> bool" where
  "spares s cell \<longleftrightarrow> (cs_TearDownOnDelete (cell_Spec cell) \<longrightarrow> effectiveNamespace cell \<noteq> s)"

definition cells_spare :: "string \<Rightarrow> ('w \<Rightarrow> bool) \<Rightarrow> 'w kube \<Rightarrow> bool" where
  "cells_spare s I K \<longleftrightarrow>
     reads_keep I (k_cells K) \<and> status_patches_keep I (k_cells K) \<and>
     (\<forall>ns n. triple I (rc_Get (k_cells K) ns n) (\<lambda>r w. (\<forall>c. r = Inr c \<longrightarrow> spares s c) \<and> I w)) \<and>
     (\<forall>x base. spares s x \<longrightarrow> keeps I (rc_Patch (k_cells K) x base)) \<and>
     (\<forall>m f. om_Name (k_AddFinalizer K m f) = om_Name m \<and> om_Name (k_RemoveFinalizer K m f) = om_Name m)"

lemma keeps_cell_failed [keeps_intros]:
  "helpers_keep I K \<Longrightarrow> status_patches_keep I (k_cells K) \<Longrightarrow> keeps I (cell_failed K cell base t msg err)"
  unfolding cell_failed_def Cell_patchStatus_def by (intro keeps_intros cell_conditions.keeps_set_cond) auto

lemma keeps_publish_status [keeps_intros]:
  "helpers_keep I K \<Longrightarrow> status_patches_keep I (k_cells K) \<Longrightarrow> keeps I (publish_status K cell base ns svc state n)"
  unfolding publish_status_def backend_conditions_def Cell_patchStatus_def
  by (intro keeps_intros cell_conditions.keeps_set_cond) auto

lemma keeps_Cell_reconcileNormal [keeps_intros]:
  assumes "helpers_keep I K" "status_patches_keep I (k_cells K)" "applies_keep I (k_namespaces K)" "applies_keep I (k_services K)"
    and "\<And>cell. policy_packages_keep I K cell"
  shows "keeps I (Cell_reconcileNormal K cell)"
  unfolding Cell_reconcileNormal_def Let_def using assms
  by (intro keeps_intros cell_conditions.keeps_set_cond)

lemma keeps_deleteEntrypointService_any [keeps_intros]:
  "reads_keep I (k_services K) \<Longrightarrow> deletes_keep I (k_services K) (\<lambda>_. True) \<Longrightarrow> keeps I (deleteEntrypointService K cell ns)"
  unfolding deleteEntrypointService_def by (intro keeps_intros keeps_delete [where allowed = "\<lambda>_. True"]) simp_all

lemma keeps_deleteNamespaceIfManaged_any [keeps_intros]:
  "reads_keep I (k_namespaces K) \<Longrightarrow> deletes_keep I (k_namespaces K) (\<lambda>_. True) \<Longrightarrow> keeps I (deleteNamespaceIfManaged K cell ns)"
  unfolding deleteNamespaceIfManaged_def by (intro keeps_intros keeps_delete [where allowed = "\<lambda>_. True"]) simp_all

lemma keeps_Cell_Reconcile_parts:
  assumes "helpers_keep I K" "reads_keep I (k_cells K)" "patches_keep I (k_cells K)" "applies_keep I (k_namespaces K)"
    "applies_keep I (k_services K)" "reads_keep I (k_namespaces K)" "deletes_keep I (k_namespaces K) (\<lambda>_. True)"
    "reads_keep I (k_services K)" "deletes_keep I (k_services K) (\<lambda>_. True)" "\<And>cell. policy_packages_keep I K cell"
  shows "keeps I (Cell_Reconcile K req)"
  unfolding Cell_Reconcile_def Cell_ensureFinalizer_def Cell_reconcileDeletion_def
  using assms by (intro keeps_intros) auto

lemma keeps_deleteNamespace_other:
  assumes "other_namespaces_keep s I K" "ns \<noteq> s"
  shows "keeps I (deleteNamespaceIfManaged K cell ns)"
proof -
  have get: "triple I (rc_Get (k_namespaces K) [] ns) (\<lambda>r w. (\<forall>y. r = Inr y \<longrightarrow> om_Name (ns_Meta y) = ns) \<and> I w)"
    using assms(1) by (simp add: other_namespaces_keep_def)
  have "keeps I (rc_Delete (k_namespaces K) y)" if "om_Name (ns_Meta y) = ns" for y
    using assms that by (auto simp: other_namespaces_keep_def deletes_keep_def)
  then show ?thesis
    unfolding deleteNamespaceIfManaged_def
    by (intro keeps_if keeps_return) (unfold keeps_def, rule triple_bind_fact [OF get],
      auto simp: keeps_def [symmetric] intro!: keeps_case_sum keeps_if keeps_return keeps_bind)
qed

lemma keeps_Cell_Reconcile:
  assumes "bystanders_keep I K" "other_namespaces_keep s I K" "cells_spare s I K"
  shows "keeps I (Cell_Reconcile K req)"
proof -
  have policies: "policy_packages_keep I K cell" for cell
    using assms(1) by (auto simp: policy_packages_keep_def bystanders_keep_def client_keeps_def deletes_keep_def)
  have parts: "helpers_keep I K" "status_patches_keep I (k_cells K)" "applies_keep I (k_namespaces K)"
    "applies_keep I (k_services K)" "reads_keep I (k_services K)" "deletes_keep I (k_services K) (\<lambda>_. True)"
    using assms by (simp_all add: bystanders_keep_def client_keeps_def other_namespaces_keep_def cells_spare_def)
  have get: "triple I (rc_Get (k_cells K) ns n) (\<lambda>r w. (\<forall>c. r = Inr c \<longrightarrow> spares s c) \<and> I w)" for ns n
    using assms(3) by (simp add: cells_spare_def)
  have finalizers: "keeps I (Cell_removeFinalizer K cell)" "keeps I (Cell_ensureFinalizer K cell)" if "spares s cell" for cell
  proof -
    have "spares s (cell\<lparr>cell_Meta := k_RemoveFinalizer K (cell_Meta cell) f\<rparr>)" "spares s (cell\<lparr>cell_Meta := k_AddFinalizer K (cell_Meta cell) f\<rparr>)" for f
      using that assms(3) by (auto simp: spares_def cells_spare_def effectiveNamespace_def)
    with assms(3) show "keeps I (Cell_removeFinalizer K cell)" "keeps I (Cell_ensureFinalizer K cell)"
      unfolding Cell_removeFinalizer_def Cell_ensureFinalizer_def cells_spare_def
      by (auto intro!: keeps_if keeps_return keeps_bind keeps_case_sum)
  qed
  have delete: "keeps I (Cell_reconcileDeletion K cell)" if "spares s cell" for cell
  proof -
    have "keeps I (if cs_TearDownOnDelete (cell_Spec cell)
        then deleteNamespaceIfManaged K cell (effectiveNamespace cell) else ret None)"
      using that keeps_deleteNamespace_other [OF assms(2)] by (auto simp: spares_def intro: keeps_return)
    moreover have "keeps I (deleteEntrypointService K cell (effectiveNamespace cell))"
      using parts by (intro keeps_deleteEntrypointService_any)
    ultimately show ?thesis
      unfolding Cell_reconcileDeletion_def using finalizers(1) [OF that]
      by (intro keeps_bind keeps_case_option keeps_return)
  qed
  have normal: "keeps I (Cell_reconcileNormal K cell)" for cell
    using parts policies by (intro keeps_Cell_reconcileNormal)
  show ?thesis
    unfolding Cell_Reconcile_def keeps_def
  proof (rule triple_bind_fact [OF get], unfold keeps_def [symmetric], goal_cases)
    case (1 r)
    with finalizers(2) delete normal show ?case
      by (auto intro!: keeps_case_sum keeps_if keeps_return keeps_bind)
  qed
qed

lemma keeps_events:
  assumes "reads_keep I (k_cells K)" "reads_keep I (k_routers K)"
  shows "keeps I (requestsForEndpointSlice K obj)" "keeps I (requestsForCell K)"
proof -
  show "keeps I (requestsForEndpointSlice K obj)"
    unfolding requestsForEndpointSlice_def Let_def using assms(1) by (intro keeps_intros)
  show "keeps I (requestsForCell K)"
    unfolding requestsForCell_def using assms(2) by (intro keeps_intros)
qed

section \<open>Gateways of others\<close>

text \<open>The rules for control flow only, where clients have rules of their own.\<close>

lemmas keeps_control = keeps_return keeps_bind keeps_if keeps_case_sum keeps_case_option keeps_case_prod

text \<open>
  A gateway that someone else controls: reads return it unchanged, a create-or-update under
  its key whose mutation fails on it changes nothing, and neither does a deletion of another
  object.
\<close>

definition untouched_by_failure :: "('o, 'w) resource_client \<Rightarrow> ('o \<Rightarrow> ObjectMeta) \<Rightarrow> 'o \<Rightarrow> ('w \<Rightarrow> bool) \<Rightarrow> bool" where
  "untouched_by_failure rc meta x I \<longleftrightarrow> stores rc meta x I \<and>
     (\<forall>obj f. (\<forall>old y. f old = Inr y \<longrightarrow> meta_key (meta y) = meta_key (meta old)) \<longrightarrow>
        (meta_key (meta obj) = meta_key (meta x) \<longrightarrow> (\<exists>e. f x = Inl e)) \<longrightarrow> keeps I (rc_CreateOrUpdate rc obj f))"

text \<open>
  The routers the API returns are not the controller of the gateway (\<open>foreign\<close>), so that
  \<^verbatim>\<open>SetControllerReference\<close>, which never changes the key of an object, refuses and
  \<^verbatim>\<open>IsControlledBy\<close> denies.
\<close>

definition refuses :: "'w kube \<Rightarrow> (ObjectMeta \<Rightarrow> bool) \<Rightarrow> ObjectMeta \<Rightarrow> bool" where
  "refuses K foreign x \<longleftrightarrow>
     (\<forall>kind own m m'. k_SetControllerReference K kind own m = Inr m' \<longrightarrow> meta_key m' = meta_key m) \<and>
     (\<forall>kind own m. foreign own \<longrightarrow> om_OwnerReferences m = om_OwnerReferences x \<longrightarrow>
     (\<exists>e. k_SetControllerReference K kind own m = Inl e) \<and> \<not> k_IsControlledBy K m own)"

definition routers_foreign :: "'w kube \<Rightarrow> (ObjectMeta \<Rightarrow> bool) \<Rightarrow> ('w \<Rightarrow> bool) \<Rightarrow> bool" where
  "routers_foreign K foreign I \<longleftrightarrow>
     reads_keep I (k_routers K) \<and>
     (\<forall>ns n. triple I (rc_Get (k_routers K) ns n) (\<lambda>r w. (\<forall>y. r = Inr y \<longrightarrow> foreign (router_Meta y)) \<and> I w)) \<and>
     (\<forall>x base. foreign (router_Meta x) \<longrightarrow>
        triple I (rc_Patch (k_routers K) x base) (\<lambda>r w. (\<forall>y. r = Inr y \<longrightarrow> foreign (router_Meta y)) \<and> I w)) \<and>
     (\<forall>x base. keeps I (rc_StatusPatch (k_routers K) x base)) \<and>
     (\<forall>m f. foreign m \<longrightarrow> foreign (k_AddFinalizer K m f) \<and> foreign (k_RemoveFinalizer K m f))"

lemma untouched_apply:
  assumes "untouched_by_failure rc meta x I"
    and "\<And>old y. f old = Inr y \<Longrightarrow> meta_key (meta y) = meta_key (meta old)" "\<exists>e. f x = Inl e"
  shows "keeps I (rc_CreateOrUpdate rc obj f)"
  using assms by (simp add: untouched_by_failure_def)

lemma keeps_reconcileGateway_foreign:
  assumes "untouched_by_failure (k_gateways K) gw_Meta gw I" "refuses K foreign (gw_Meta gw)"
    and "foreign (router_Meta router)" "helpers_keep I K"
  shows "keeps I (reconcileGateway K router)"
proof -
  have "\<exists>e. controlled K ''CellRouter'' (router_Meta router) gw_Meta (\<lambda>m s. s\<lparr>gw_Meta := m\<rparr>) (MutateGateway gw router) = Inl e"
  proof -
    have "om_OwnerReferences (gw_Meta (MutateGateway gw router)) = om_OwnerReferences (gw_Meta gw)"
      by (rule gateway_builder.mutate_owners)
    with assms(2,3) obtain e where "k_SetControllerReference K ''CellRouter'' (router_Meta router)
        (gw_Meta (MutateGateway gw router)) = Inl e"
      unfolding refuses_def by blast
    then show ?thesis by (simp add: controlled_def)
  qed
  moreover have "meta_key (gw_Meta y) = meta_key (gw_Meta old)" if "controlled K ''CellRouter'' (router_Meta router) gw_Meta
      (\<lambda>m s. s\<lparr>gw_Meta := m\<rparr>) (MutateGateway old router) = Inr y" for old y
  proof -
    from that obtain m where m: "k_SetControllerReference K ''CellRouter'' (router_Meta router) (gw_Meta (MutateGateway old router)) = Inr m"
      "gw_Meta y = m" by (auto simp: controlled_def split: sum.splits)
    then have "meta_key m = meta_key (gw_Meta (MutateGateway old router))" using assms(2) unfolding refuses_def by blast
    then show ?thesis by (simp add: m(2) gateway_builder.mutate_identity)
  qed
  ultimately have "keeps I (rc_CreateOrUpdate (k_gateways K) obj
      (\<lambda>g. controlled K ''CellRouter'' (router_Meta router) gw_Meta (\<lambda>m s. s\<lparr>gw_Meta := m\<rparr>) (MutateGateway g router)))" for obj
    by (intro untouched_apply [OF assms(1)]) auto
  then show ?thesis
    unfolding reconcileGateway_def Let_def using keeps_helpers(3) [OF assms(4)] by (intro keeps_control)
qed

lemma keeps_deleteManagedGateway_foreign:
  assumes "untouched_by_failure (k_gateways K) gw_Meta gw I" "refuses K foreign (gw_Meta gw)" "foreign (router_Meta router)"
  shows "keeps I (deleteManagedGateway K router)"
proof -
  have "stores (k_gateways K) gw_Meta gw I" "\<not> k_IsControlledBy K (gw_Meta gw) (router_Meta router)"
    using assms by (simp_all add: untouched_by_failure_def refuses_def)
  then show ?thesis
    unfolding deleteManagedGateway_def Let_def
    by (rule keeps_guarded_delete [where allowed = "\<lambda>g. k_IsControlledBy K (gw_Meta g) (router_Meta router)"])
qed

lemma routers_foreign_parts:
  assumes "routers_foreign K foreign I"
  shows "reads_keep I (k_routers K)" "keeps I (rc_StatusPatch (k_routers K) x base)"
    "foreign (router_Meta y) \<Longrightarrow> keeps I (rc_Patch (k_routers K) y base)"
  using assms by (auto simp: routers_foreign_def keeps_def triple_def)

lemma keeps_router_status:
  assumes "routers_foreign K foreign I" "helpers_keep I K"
  shows "keeps I (router_failed K router base t msg err)" "keeps I (publish_router K router base ref ready requeue managed)"
  unfolding router_failed_def publish_router_def Let_def patchRouterStatus_def
  by (intro keeps_control router_conditions.keeps_set_cond assms(2) routers_foreign_parts(2) [OF assms(1)])+

lemma keeps_Router_reconcileDeletion_foreign:
  assumes gw: "untouched_by_failure (k_gateways K) gw_Meta gw I" "refuses K foreign (gw_Meta gw)"
    and "routers_foreign K foreign I" "bystanders_keep I K" "foreign (router_Meta router)"
  shows "keeps I (Router_reconcileDeletion K router)"
proof -
  have parts: "reads_keep I (k_routes K)" "deletes_keep I (k_routes K) (\<lambda>_. True)"
    "reads_keep I (k_grants K)" "deletes_keep I (k_grants K) (\<lambda>_. True)"
    using assms(4) by (simp_all add: bystanders_keep_def client_keeps_def)
  have "foreign (router_Meta (router\<lparr>router_Meta := k_RemoveFinalizer K (router_Meta router) f\<rparr>))" for f
    using assms(3,5) by (simp add: routers_foreign_def)
  then have "keeps I (Router_removeFinalizer K router)"
    unfolding Router_removeFinalizer_def by (intro keeps_control routers_foreign_parts(3) [OF assms(3)])
  moreover have "keeps I (deleteManagedHTTPRoutes K router n)" for n
    unfolding deleteManagedHTTPRoutes_def using parts by (intro keeps_intros keeps_delete_loop_any)
  moreover have "keeps I (deleteManagedReferenceGrants K router)"
    unfolding deleteManagedReferenceGrants_def using parts by (intro keeps_intros keeps_delete_loop_any)
  ultimately show ?thesis
    unfolding Router_reconcileDeletion_def
    using keeps_deleteManagedGateway_foreign [OF gw assms(5)] by (intro keeps_intros)
qed

lemma keeps_Router_reconcileNormal_foreign:
  assumes gw: "untouched_by_failure (k_gateways K) gw_Meta gw I" "refuses K foreign (gw_Meta gw)"
    and "routers_foreign K foreign I" "bystanders_keep I K" "foreign (router_Meta router)"
    and "applies_keep I (k_namespaces K)" "reads_keep I (k_cells K)"
  shows "keeps I (Router_reconcileNormal K router)"
proof -
  have parts: "helpers_keep I K" "applies_keep I (k_namespaces K)" "reads_keep I (k_placements K)" "route_packages_keep I K"
    using assms(4,6,7) by (simp_all add: bystanders_keep_def client_keeps_def route_packages_keep_def grant_packages_keep_def)
  have "keeps I (reconcileGatewayNamespace K router ns)" for ns
    unfolding reconcileGatewayNamespace_def using parts by (intro keeps_intros)
  then show ?thesis
    unfolding Router_reconcileNormal_def Let_def listPlacements_def
    using keeps_reconcileGateway_foreign [OF gw assms(5) parts(1)] parts
    by (intro keeps_control keeps_router_status [OF assms(3)] router_conditions.keeps_set_cond
        keeps_reconcileRoutes keeps_client(2))
qed

lemma keeps_Router_Reconcile_foreign:
  assumes gw: "untouched_by_failure (k_gateways K) gw_Meta gw I" "refuses K foreign (gw_Meta gw)"
    and "routers_foreign K foreign I" "bystanders_keep I K" "applies_keep I (k_namespaces K)" "reads_keep I (k_cells K)"
  shows "keeps I (Router_Reconcile K req)"
proof -
  note pass = keeps_Router_reconcileNormal_foreign [OF gw assms(3,4) _ assms(5,6)] keeps_Router_reconcileDeletion_foreign [OF gw assms(3,4)]
  have get: "triple I (rc_Get (k_routers K) ns n) (\<lambda>r w. (\<forall>y. r = Inr y \<longrightarrow> foreign (router_Meta y)) \<and> I w)" for ns n
    using assms(3) by (simp add: routers_foreign_def)
  have ensure: "triple I (Router_ensureFinalizer K router) (\<lambda>r w. (\<forall>y. r = Inr y \<longrightarrow> foreign (router_Meta y)) \<and> I w)"
    if "foreign (router_Meta router)" for router
  proof -
    have "foreign (router_Meta (router\<lparr>router_Meta := k_AddFinalizer K (router_Meta router) FinalizerCellRouter\<rparr>))"
      using assms(3) that by (simp add: routers_foreign_def)
    with assms(3) that show ?thesis
      unfolding Router_ensureFinalizer_def routers_foreign_def by (intro triple_if triple_return) auto
  qed
  show ?thesis
    unfolding Router_Reconcile_def keeps_def
  proof (rule triple_bind_fact [OF get], rule triple_case_sum, rule triple_return, assumption, goal_cases)
    case (1 r router)
    then have foreign: "foreign (router_Meta router)" by simp
    show ?case
    proof (rule triple_if, goal_cases)
      case 1
      show ?case using keeps_bind [OF pass(2) [OF foreign] keeps_return] by (simp add: keeps_def)
    next
      case 2
      show ?case
        by (rule triple_bind_fact [OF ensure [OF foreign]], rule triple_case_sum, rule triple_return)
          (auto simp: keeps_def [symmetric] intro: pass(1))
    qed
  qed
qed

lemma foreign_gateway_invariant:
  assumes gw: "untouched_by_failure (k_gateways K) gw_Meta gw I" "refuses K foreign (gw_Meta gw)"
    and "routers_foreign K foreign I" "bystanders_keep I K"
    and "other_namespaces_keep (om_Namespace (gw_Meta gw)) I K" "cells_spare (om_Namespace (gw_Meta gw)) I K"
    and "\<And>w w'. env w w' \<Longrightarrow> I w \<Longrightarrow> I w'" "reachable K env w0 w" "I w0"
  shows "I w"
proof (rule reachable_invariant [where I = I, OF assms(8,9) _ assms(7)])
  have parts: "applies_keep I (k_namespaces K)" "reads_keep I (k_cells K)"
    using assms(5,6) by (simp_all add: other_namespaces_keep_def cells_spare_def)
  fix w w' assume "operator_step K w w'" "I w"
  then show "I w'"
    by (rule step_keeps) (use assms(3-6) gw parts in
        \<open>auto intro: keeps_Cell_Reconcile keeps_Router_Reconcile_foreign keeps_events routers_foreign_parts(1)\<close>)
qed

section \<open>The in-memory cluster\<close>

lemma stores_conj:
  assumes "stores rc meta x I" "reads_keep J rc" "deletes_keep J rc (\<lambda>_. True)"
  shows "stores rc meta x (\<lambda>w. I w \<and> J w)"
  using assms unfolding stores_def reads_keep_def deletes_keep_def keeps_def triple_def by blast

lemma mem_untouched:
  fixes meta :: "'a \<Rightarrow> ObjectMeta"
  assumes gp: "\<And>v w. get (put v w) = v" and J: "\<And>v w. J (put v w) = J w"
  shows "untouched_by_failure (mem_client get put meta st) meta x (\<lambda>w. only_stored meta x (get w) \<and> J w)"
  unfolding untouched_by_failure_def
proof (intro conjI allI impI stores_conj mem_client_stores mem_client_keeps gp J)
  fix obj and f :: "'a \<Rightarrow> error + 'a"
  assume key: "\<forall>old y. f old = Inr y \<longrightarrow> meta_key (meta y) = meta_key (meta old)"
    and refuse: "meta_key (meta obj) = meta_key (meta x) \<longrightarrow> (\<exists>e. f x = Inl e)"
  have "only_stored meta x (get (snd (run_state (rc_CreateOrUpdate (mem_client get put meta st) obj f) w)))"
    if w: "only_stored meta x (get w)" for w
  proof (cases "meta_key (meta obj) = meta_key (meta x)")
    case True
    have "find (same_key (meta obj) \<circ> meta) (get w) = Some x"
    proof (cases "find (same_key (meta obj) \<circ> meta) (get w)")
      case None
      then show ?thesis using w True by (auto simp: find_None_iff only_stored_def has_key_def)
    next
      case (Some y)
      then have "y \<in> set (get w)" "meta_key (meta y) = meta_key (meta obj)" by (auto simp: find_Some_iff has_key_def)
      then show ?thesis using w True Some by (simp add: only_stored_def)
    qed
    with True refuse show ?thesis using w by (auto simp: mem_client_def)
  next
    case False
    have new: "meta_key (meta z) \<noteq> meta_key (meta x)"
      if "f old = Inr z" "meta_key (meta old) = meta_key (meta obj)" for old z
      using key that False by auto
    have old: "meta_key (meta y) = meta_key (meta obj)" if "find (same_key (meta obj) \<circ> meta) (get w) = Some y" for y
      using that by (auto simp: find_Some_iff has_key_def)
    show ?thesis
    proof (cases "find (same_key (meta obj) \<circ> meta) (get w)")
      case None
      then show ?thesis using w new [of obj] gp by (auto simp: mem_client_def only_stored_def split: sum.splits)
    next
      case (Some y)
      have "only_stored meta x (map (\<lambda>u. if same_key (meta obj) (meta u) then z else u) (get w))" if "f y = Inr z" for z
        using w new [OF that old [OF Some]] False by (auto simp: only_stored_def has_key_def image_iff)
      then show ?thesis using w Some gp by (auto simp: mem_client_def split: sum.splits)
    qed
  qed
  moreover have "J (snd (run_state (rc_CreateOrUpdate (mem_client get put meta st) obj f) w)) = J w" for w
    using J by (auto simp: mem_client_def split: option.splits sum.splits)
  ultimately show "keeps (\<lambda>w. only_stored meta x (get w) \<and> J w) (rc_CreateOrUpdate (mem_client get put meta st) obj f)"
    by (simp add: keeps_def triple_def)
qed

end
