(* ===== verification/GoHeap.thy ===== *)
theory GoHeap
  imports Prelude "HOL-Library.AList"
begin

text \<open>
  The memory of a Go program, as far as the deep-copy functions of the API types see it: an
  address space of allocated objects, values that refer to them by pointers, slices and maps,
  the types of these values, and the statements the generated code is made of (\<^verbatim>\<open>new\<close>,
  \<^verbatim>\<open>make\<close>, the loops over slices and maps, the assignment to one field of a struct). Types
  are data, so that the layout of every API struct can be written down next to its copy
  function; what it means to be a deep copy is one predicate over a type, and the statements
  above keep it.
\<close>

section \<open>Values and types\<close>

text \<open>
  A slice is the address of its backing array, an offset and a length. A pointer and a map are
  an address. The fields of a struct are a map from their names, so that assigning one field
  is a map update.
\<close>

datatype gval = VString string | VInt int | VBool bool | VNil | VRef nat | VSlice nat nat nat
  | VStruct "string \<Rightarrow> gval option"

datatype gobj = OVal gval | OArray "gval list" | OMap "(string \<times> gval) list"

record heap =
  h_next :: nat
  h_mem :: "nat \<Rightarrow> gobj option"

text \<open>
  The types. A string, an integer of some width and a boolean have no references. A named type
  of another package comes with the layout it has there.
\<close>

datatype gtype = TString | TInt nat | TBool | TPtr gtype | TSlice gtype | TMap gtype
  | TStruct "(string \<times> gtype) list" | TExt string gtype

fun has_type :: "heap \<Rightarrow> gtype \<Rightarrow> gval \<Rightarrow> bool"
  and has_fields :: "heap \<Rightarrow> (string \<times> gtype) list \<Rightarrow> (string \<Rightarrow> gval option) \<Rightarrow> bool" where
  "has_type h TString v = (case v of VString _ \<Rightarrow> True | _ \<Rightarrow> False)"
| "has_type h (TInt w) v = (case v of VInt i \<Rightarrow> - (2 ^ (w - 1)) \<le> i \<and> i < 2 ^ (w - 1) | _ \<Rightarrow> False)"
| "has_type h TBool v = (case v of VBool _ \<Rightarrow> True | _ \<Rightarrow> False)"
| "has_type h (TPtr t) v = (case v of VNil \<Rightarrow> True
     | VRef a \<Rightarrow> (case h_mem h a of Some (OVal x) \<Rightarrow> has_type h t x | _ \<Rightarrow> False) | _ \<Rightarrow> False)"
| "has_type h (TSlice t) v = (case v of VNil \<Rightarrow> True
     | VSlice a off len \<Rightarrow> (case h_mem h a of
         Some (OArray xs) \<Rightarrow> off + len \<le> length xs \<and> (\<forall>x\<in>set (take len (drop off xs)). has_type h t x)
       | _ \<Rightarrow> False) | _ \<Rightarrow> False)"
| "has_type h (TMap t) v = (case v of VNil \<Rightarrow> True
     | VRef a \<Rightarrow> (case h_mem h a of
         Some (OMap kvs) \<Rightarrow> distinct (map fst kvs) \<and> (\<forall>p\<in>set kvs. has_type h t (snd p)) | _ \<Rightarrow> False)
     | _ \<Rightarrow> False)"
| "has_type h (TStruct fs) v = (case v of VStruct f \<Rightarrow> distinct (map fst fs) \<and> has_fields h fs f | _ \<Rightarrow> False)"
| "has_type h (TExt n t) v = has_type h t v"
| "has_fields h [] f = True"
| "has_fields h ((n, t) # fs) f =
     ((case f n of None \<Rightarrow> False | Some x \<Rightarrow> has_type h t x) \<and> has_fields h fs f)"

text \<open>
  What a value denotes: the tree that is seen when every reference is followed. Two values with
  the same view are equal in the sense of \<^verbatim>\<open>reflect.DeepEqual\<close>.
\<close>

datatype gtree = LString string | LInt int | LBool bool | LNil | LPtr gtree | LSlice "gtree list"
  | LMap "string \<Rightarrow> gtree option" | LStruct "(string \<times> gtree) list"

fun view :: "heap \<Rightarrow> gtype \<Rightarrow> gval \<Rightarrow> gtree"
  and view_fields :: "heap \<Rightarrow> (string \<times> gtype) list \<Rightarrow> (string \<Rightarrow> gval option) \<Rightarrow> (string \<times> gtree) list" where
  "view h TString v = (case v of VString s \<Rightarrow> LString s | _ \<Rightarrow> LNil)"
| "view h (TInt w) v = (case v of VInt i \<Rightarrow> LInt i | _ \<Rightarrow> LNil)"
| "view h TBool v = (case v of VBool b \<Rightarrow> LBool b | _ \<Rightarrow> LNil)"
| "view h (TPtr t) v = (case v of
     VRef a \<Rightarrow> (case h_mem h a of Some (OVal x) \<Rightarrow> LPtr (view h t x) | _ \<Rightarrow> LNil) | _ \<Rightarrow> LNil)"
| "view h (TSlice t) v = (case v of
     VSlice a off len \<Rightarrow> (case h_mem h a of
         Some (OArray xs) \<Rightarrow> LSlice (map (view h t) (take len (drop off xs))) | _ \<Rightarrow> LNil) | _ \<Rightarrow> LNil)"
| "view h (TMap t) v = (case v of
     VRef a \<Rightarrow> (case h_mem h a of
         Some (OMap kvs) \<Rightarrow> LMap (map_of (map (\<lambda>p. (fst p, view h t (snd p))) kvs)) | _ \<Rightarrow> LNil) | _ \<Rightarrow> LNil)"
| "view h (TStruct fs) v = (case v of VStruct f \<Rightarrow> LStruct (view_fields h fs f) | _ \<Rightarrow> LNil)"
| "view h (TExt n t) v = view h t v"
| "view_fields h [] f = []"
| "view_fields h ((n, t) # fs) f =
     (n, case f n of None \<Rightarrow> LNil | Some x \<Rightarrow> view h t x) # view_fields h fs f"

text \<open>The addresses that are reached from a value by following references.\<close>

fun reach :: "heap \<Rightarrow> gtype \<Rightarrow> gval \<Rightarrow> nat set"
  and reach_fields :: "heap \<Rightarrow> (string \<times> gtype) list \<Rightarrow> (string \<Rightarrow> gval option) \<Rightarrow> nat set" where
  "reach h TString v = {}"
| "reach h (TInt w) v = {}"
| "reach h TBool v = {}"
| "reach h (TPtr t) v = (case v of
     VRef a \<Rightarrow> insert a (case h_mem h a of Some (OVal x) \<Rightarrow> reach h t x | _ \<Rightarrow> {}) | _ \<Rightarrow> {})"
| "reach h (TSlice t) v = (case v of
     VSlice a off len \<Rightarrow> insert a (case h_mem h a of
         Some (OArray xs) \<Rightarrow> \<Union>x\<in>set (take len (drop off xs)). reach h t x | _ \<Rightarrow> {}) | _ \<Rightarrow> {})"
| "reach h (TMap t) v = (case v of
     VRef a \<Rightarrow> insert a (case h_mem h a of
         Some (OMap kvs) \<Rightarrow> \<Union>p\<in>set kvs. reach h t (snd p) | _ \<Rightarrow> {}) | _ \<Rightarrow> {})"
| "reach h (TStruct fs) v = (case v of VStruct f \<Rightarrow> reach_fields h fs f | _ \<Rightarrow> {})"
| "reach h (TExt n t) v = reach h t v"
| "reach_fields h [] f = {}"
| "reach_fields h ((n, t) # fs) f =
     (case f n of None \<Rightarrow> {} | Some x \<Rightarrow> reach h t x) \<union> reach_fields h fs f"

section \<open>Statements\<close>

definition reserve :: "(heap, nat) state" where
  "reserve = State (\<lambda>h. (h_next h, h\<lparr>h_next := Suc (h_next h)\<rparr>))"

definition store :: "nat \<Rightarrow> gobj \<Rightarrow> (heap, unit) state" where
  "store a ob = State (\<lambda>h. ((), h\<lparr>h_mem := (h_mem h)(a \<mapsto> ob)\<rparr>))"

definition load :: "nat \<Rightarrow> (heap, gobj option) state" where
  "load a = State (\<lambda>h. (h_mem h a, h))"

type_synonym copier = "gval \<Rightarrow> (heap, gval) state"

text \<open>
  The copy of a pointer, a slice and a map. Each is guarded by a comparison with \<^verbatim>\<open>nil\<close>, takes
  a new object (\<^verbatim>\<open>new\<close> or \<^verbatim>\<open>make\<close>) and fills it with copies of the contents.
\<close>

definition new_ptr :: "copier \<Rightarrow> copier" where
  "new_ptr c v = (case v of
     VRef a \<Rightarrow> do {
       ob \<leftarrow> load a;
       (case ob of Some (OVal x) \<Rightarrow> do {
            out \<leftarrow> reserve;
            y \<leftarrow> c x;
            _ \<leftarrow> store out (OVal y);
            ret (VRef out) }
        | _ \<Rightarrow> ret v) }
   | _ \<Rightarrow> ret v)"

fun copy_each :: "copier \<Rightarrow> gval list \<Rightarrow> (heap, gval list) state" where
  "copy_each c [] = ret []"
| "copy_each c (x # xs) = do { y \<leftarrow> c x; ys \<leftarrow> copy_each c xs; ret (y # ys) }"

definition new_slice :: "copier \<Rightarrow> copier" where
  "new_slice c v = (case v of
     VSlice a off len \<Rightarrow> do {
       ob \<leftarrow> load a;
       (case ob of Some (OArray xs) \<Rightarrow> do {
            out \<leftarrow> reserve;
            ys \<leftarrow> copy_each c (take len (drop off xs));
            _ \<leftarrow> store out (OArray ys);
            ret (VSlice out 0 len) }
        | _ \<Rightarrow> ret v) }
   | _ \<Rightarrow> ret v)"

text \<open>The order in which a loop enumerates a map is an argument.\<close>

fun copy_entries :: "copier \<Rightarrow> (string \<times> gval) list \<Rightarrow> (string \<times> gval) list \<Rightarrow> (heap, (string \<times> gval) list) state" where
  "copy_entries c [] out = ret out"
| "copy_entries c ((key, val) # kvs) out = do { v \<leftarrow> c val; copy_entries c kvs (AList.update key v out) }"

definition new_map :: "((string \<times> gval) list \<Rightarrow> (string \<times> gval) list) \<Rightarrow> copier \<Rightarrow> copier" where
  "new_map range_order c v = (case v of
     VRef a \<Rightarrow> do {
       ob \<leftarrow> load a;
       (case ob of Some (OMap kvs) \<Rightarrow> do {
            out \<leftarrow> reserve;
            es \<leftarrow> copy_entries c (range_order kvs) [];
            _ \<leftarrow> store out (OMap es);
            ret (VRef out) }
        | _ \<Rightarrow> ret v) }
   | _ \<Rightarrow> ret v)"

text \<open>One field of a struct is replaced by its copy.\<close>

definition copy_field :: "string \<Rightarrow> copier \<Rightarrow> copier" where
  "copy_field n c v = (case v of
     VStruct f \<Rightarrow> (case f n of None \<Rightarrow> ret v
       | Some x \<Rightarrow> do { y \<leftarrow> c x; ret (VStruct (f(n \<mapsto> y))) })
   | _ \<Rightarrow> ret v)"

section \<open>Heaps that agree\<close>

text \<open>What a typed value denotes depends only on the objects it reaches.\<close>

lemma reach_dom:
  "has_type h t v \<Longrightarrow> reach h t v \<subseteq> dom (h_mem h)"
  "has_fields h fs f \<Longrightarrow> reach_fields h fs f \<subseteq> dom (h_mem h)"
  by (induction h t v and h fs f rule: has_type_has_fields.induct)
    (fastforce split: gval.splits option.splits gobj.splits)+

lemma agree_on_reach:
  "has_type h t v \<Longrightarrow> (\<forall>a\<in>reach h t v. h_mem h' a = h_mem h a) \<Longrightarrow>
     has_type h' t v \<and> view h' t v = view h t v \<and> reach h' t v = reach h t v"
  "has_fields h fs f \<Longrightarrow> (\<forall>a\<in>reach_fields h fs f. h_mem h' a = h_mem h a) \<Longrightarrow>
     has_fields h' fs f \<and> view_fields h' fs f = view_fields h fs f \<and> reach_fields h' fs f = reach_fields h fs f"
proof (induction h t v and h fs f rule: has_type_has_fields.induct)
  case (4 h t v)
  then show ?case by (auto split: gval.splits option.splits gobj.splits)
next
  case (5 h t v)
  show ?case
  proof (cases v)
    case (VSlice a off len)
    with 5 obtain xs where xs: "h_mem h a = Some (OArray xs)" by (auto split: option.splits gobj.splits)
    with 5 VSlice have "\<forall>x\<in>set (take len (drop off xs)).
        has_type h' t x \<and> view h' t x = view h t x \<and> reach h' t x = reach h t x" by fastforce
    with 5 VSlice xs show ?thesis by auto
  qed (use 5 in auto)
next
  case (6 h t v)
  show ?case
  proof (cases v)
    case (VRef a)
    with 6 obtain kvs where kvs: "h_mem h a = Some (OMap kvs)" by (auto split: option.splits gobj.splits)
    with 6 VRef have "\<forall>p\<in>set kvs.
        has_type h' t (snd p) \<and> view h' t (snd p) = view h t (snd p) \<and> reach h' t (snd p) = reach h t (snd p)" by fastforce
    moreover from this have "map_of (map (\<lambda>p. (fst p, view h' t (snd p))) kvs) = map_of (map (\<lambda>p. (fst p, view h t (snd p))) kvs)"
      by (intro arg_cong [where f = map_of]) simp
    ultimately show ?thesis using 6 VRef kvs by simp
  qed (use 6 in auto)
qed (auto split: gval.splits option.splits)

text \<open>A heap in which the free addresses hold nothing, and its extensions.\<close>

definition wf_heap :: "heap \<Rightarrow> bool" where
  "wf_heap h \<longleftrightarrow> (\<forall>a. h_next h \<le> a \<longrightarrow> h_mem h a = None)"

definition extends :: "heap \<Rightarrow> heap \<Rightarrow> bool" where
  "extends h h' \<longleftrightarrow> h_next h \<le> h_next h' \<and> h_mem h \<subseteq>\<^sub>m h_mem h'"

lemma extends_refl [simp]: "extends h h"
  by (simp add: extends_def)

lemma extends_trans: "extends h h' \<Longrightarrow> extends h' h'' \<Longrightarrow> extends h h''"
  by (auto simp: extends_def intro: map_le_trans)

lemma extends_stable:
  assumes "extends h h'"
  shows "has_type h t v \<Longrightarrow> has_type h' t v \<and> view h' t v = view h t v \<and> reach h' t v = reach h t v"
    and "has_fields h fs f \<Longrightarrow>
      has_fields h' fs f \<and> view_fields h' fs f = view_fields h fs f \<and> reach_fields h' fs f = reach_fields h fs f"
proof -
  have same: "a \<in> dom (h_mem h) \<Longrightarrow> h_mem h' a = h_mem h a" for a
    using assms by (auto simp: extends_def map_le_def)
  show "has_type h t v \<Longrightarrow> has_type h' t v \<and> view h' t v = view h t v \<and> reach h' t v = reach h t v"
    using agree_on_reach(1) [of h t v h'] reach_dom(1) [of h t v] same by blast
  show "has_fields h fs f \<Longrightarrow>
      has_fields h' fs f \<and> view_fields h' fs f = view_fields h fs f \<and> reach_fields h' fs f = reach_fields h fs f"
    using agree_on_reach(2) [of h fs f h'] reach_dom(2) [of h fs f] same by blast
qed

lemma fields_cong:
  assumes "\<And>n. n \<in> fst ` set fs \<Longrightarrow> g n = f n"
  shows "has_fields h fs g = has_fields h fs f \<and> view_fields h fs g = view_fields h fs f \<and>
    reach_fields h fs g = reach_fields h fs f"
  using assms by (induction fs) auto

section \<open>Deep copies\<close>

text \<open>
  A deep copy of a value: of the same type and with the same view, made of new objects only,
  while every object that existed before is as it was.
\<close>

definition deep_copy :: "gtype \<Rightarrow> heap \<Rightarrow> gval \<Rightarrow> gval \<Rightarrow> heap \<Rightarrow> bool" where
  "deep_copy t h v r h' \<longleftrightarrow> has_type h' t r \<and> view h' t r = view h t v \<and>
     reach h' t r \<subseteq> {h_next h..<h_next h'} \<and> extends h h' \<and> wf_heap h'"

definition fields_copied :: "(string \<times> gtype) list \<Rightarrow> heap \<Rightarrow> (string \<Rightarrow> gval option) \<Rightarrow> gval \<Rightarrow> heap \<Rightarrow> bool" where
  "fields_copied fs h f r h' \<longleftrightarrow> (\<exists>g. r = VStruct g \<and> (\<forall>n. n \<notin> fst ` set fs \<longrightarrow> g n = f n) \<and>
     has_fields h' fs g \<and> view_fields h' fs g = view_fields h fs f \<and>
     reach_fields h' fs g \<subseteq> {h_next h..<h_next h'} \<and> extends h h' \<and> wf_heap h')"

text \<open>An object that was reserved before its contents were copied is filled in last.\<close>

lemma commit:
  assumes "wf_heap h" "extends (h\<lparr>h_next := Suc (h_next h)\<rparr>) h2" "wf_heap h2"
    and "h' = h2\<lparr>h_mem := (h_mem h2)(h_next h \<mapsto> ob)\<rparr>"
  shows "extends h h'" "wf_heap h'" "h_next h < h_next h'" "h_next h' = h_next h2" "h_mem h' (h_next h) = Some ob"
    and "has_type h2 t y \<Longrightarrow> reach h2 t y \<subseteq> {Suc (h_next h)..<h_next h2} \<Longrightarrow>
      has_type h' t y \<and> view h' t y = view h2 t y \<and> reach h' t y = reach h2 t y"
proof -
  show n: "h_next h < h_next h'" "h_next h' = h_next h2" "h_mem h' (h_next h) = Some ob"
    using assms(2,4) by (simp_all add: extends_def)
  show "wf_heap h'" using assms(3,4) n by (auto simp: wf_heap_def)
  have "h_mem h (h_next h) = None" using assms(1) by (simp add: wf_heap_def)
  then show "extends h h'"
    using assms(2,4) n by (auto simp: extends_def map_le_def)
  show "has_type h' t y \<and> view h' t y = view h2 t y \<and> reach h' t y = reach h2 t y"
    if "has_type h2 t y" "reach h2 t y \<subseteq> {Suc (h_next h)..<h_next h2}"
    by (rule agree_on_reach(1) [OF that(1)]) (use that(2) assms(4) in auto)
qed

lemma reserved:
  assumes "wf_heap h"
  shows "wf_heap (h\<lparr>h_next := Suc (h_next h)\<rparr>)" "extends h (h\<lparr>h_next := Suc (h_next h)\<rparr>)"
  using assms by (simp_all add: wf_heap_def extends_def)

lemma run_statements [simp]:
  "run_state reserve h = (h_next h, h\<lparr>h_next := Suc (h_next h)\<rparr>)"
  "run_state (store a ob) h = ((), h\<lparr>h_mem := (h_mem h)(a \<mapsto> ob)\<rparr>)"
  "run_state (load a) h = (h_mem h a, h)"
  by (simp_all add: reserve_def store_def load_def)

text \<open>With distinct keys the loop over the entries of a map is a loop over its values.\<close>

lemma update_append: "key \<notin> fst ` set out \<Longrightarrow> AList.update key v out = out @ [(key, v)]"
  by (induction out) auto

lemma copy_entries_values:
  assumes "distinct (map fst (out @ kvs))"
  shows "run_state (copy_entries c kvs out) h =
    (let (vs, h') = run_state (copy_each c (map snd kvs)) h in (out @ zip (map fst kvs) vs, h'))"
  using assms
proof (induction c kvs out arbitrary: h rule: copy_entries.induct)
  case (2 c key val kvs out)
  then show ?case by (auto simp: update_append split: prod.splits)
qed simp

lemma copied_entries_view:
  assumes "length vs = length kvs" "map g vs = map f (map snd kvs)"
  shows "map (\<lambda>p. (fst p, g (snd p))) (zip (map fst kvs) vs) = map (\<lambda>p. (fst p, f (snd p))) kvs"
  using assms by (induction vs kvs rule: list_induct2) auto

lemma map_of_reordered:
  assumes "mset kvs' = mset kvs" "distinct (map fst kvs)"
  shows "map_of (map (\<lambda>p. (fst p, f (snd p))) kvs') = map_of (map (\<lambda>p. (fst p, f (snd p))) kvs)"
proof -
  have "distinct (map fst kvs')" using assms by (metis mset_eq_imp_distinct_iff mset_map)
  moreover have "map fst (map (\<lambda>p. (fst p, f (snd p))) xs) = map fst xs" for xs :: "('a \<times> 'b) list" by simp
  ultimately show ?thesis
    using assms(2) mset_eq_setD [OF assms(1)] by (subst map_of_inject_set) (simp_all add: comp_def)
qed

locale deep_copier =
  fixes t :: gtype and c :: copier
  assumes copies: "wf_heap h \<Longrightarrow> has_type h t v \<Longrightarrow> run_state (c v) h = (r, h') \<Longrightarrow> deep_copy t h v r h'"
begin

text \<open>The loop over the elements of a slice or the entries of a map.\<close>

lemma copy_each_copies:
  "wf_heap h \<Longrightarrow> \<forall>x\<in>set xs. has_type h t x \<Longrightarrow> run_state (copy_each c xs) h = (ys, h') \<Longrightarrow>
   length ys = length xs \<and> (\<forall>y\<in>set ys. has_type h' t y \<and> reach h' t y \<subseteq> {h_next h..<h_next h'}) \<and>
   map (view h' t) ys = map (view h t) xs \<and> extends h h' \<and> wf_heap h'"
proof (induction xs arbitrary: h ys h')
  case Nil
  then show ?case by simp
next
  case (Cons x xs)
  obtain y h1 where y: "run_state (c x) h = (y, h1)" by fastforce
  obtain zs h2 where zs: "run_state (copy_each c xs) h1 = (zs, h2)" by fastforce
  have res: "ys = y # zs" "h' = h2" using Cons.prems(3) y zs by simp_all
  have cy: "deep_copy t h x y h1" using copies Cons.prems y by simp
  then have ext: "extends h h1" "wf_heap h1" by (simp_all add: deep_copy_def)
  have st: "\<forall>z\<in>set xs. has_type h1 t z \<and> view h1 t z = view h t z"
    using Cons.prems(2) extends_stable(1) [OF ext(1)] by auto
  then have *: "length zs = length xs" "\<forall>z\<in>set zs. has_type h2 t z \<and> reach h2 t z \<subseteq> {h_next h1..<h_next h2}"
    "map (view h2 t) zs = map (view h1 t) xs" "extends h1 h2" "wf_heap h2"
    using Cons.IH [OF ext(2) _ zs] by blast+
  have "map (view h1 t) xs = map (view h t) xs" using st by simp
  moreover have "has_type h2 t y \<and> view h2 t y = view h1 t y \<and> reach h2 t y = reach h1 t y"
    using extends_stable(1) [OF *(4)] cy by (simp add: deep_copy_def)
  moreover have "h_next h \<le> h_next h1" "h_next h1 \<le> h_next h2"
    using ext(1) *(4) by (simp_all add: extends_def)
  ultimately show ?case
    using cy * extends_trans [OF ext(1) *(4)] unfolding res by (fastforce simp: deep_copy_def)
qed

text \<open>Pointers to copied values, slices and maps of them.\<close>

lemma new_ptr_copies: "deep_copier (TPtr t) (new_ptr c)"
proof
  fix h v r h'
  assume h: "wf_heap h" "has_type h (TPtr t) v" "run_state (new_ptr c v) h = (r, h')"
  show "deep_copy (TPtr t) h v r h'"
  proof (cases v)
    case (VRef a)
    with h obtain x where x: "h_mem h a = Some (OVal x)" "has_type h t x" by (auto split: option.splits gobj.splits)
    let ?h1 = "h\<lparr>h_next := Suc (h_next h)\<rparr>"
    obtain y h2 where y: "run_state (c x) ?h1 = (y, h2)" by fastforce
    have st: "has_type ?h1 t x \<and> view ?h1 t x = view h t x" using extends_stable(1) [OF reserved(2) [OF h(1)] x(2)] by simp
    then have cy: "deep_copy t ?h1 x y h2" using copies reserved(1) [OF h(1)] y by simp
    have res: "r = VRef (h_next h)" "h' = h2\<lparr>h_mem := (h_mem h2)(h_next h \<mapsto> OVal y)\<rparr>"
      using h(3) VRef x y by (simp_all add: new_ptr_def)
    note c = commit [OF h(1) _ _ res(2)]
    have "has_type h' t y \<and> view h' t y = view h2 t y \<and> reach h' t y = reach h2 t y"
      using c(6) [of t y] cy by (simp add: deep_copy_def)
    then show ?thesis
      using c(1-5) cy st VRef x by (auto simp: deep_copy_def res(1))
  qed (use h in \<open>auto simp: new_ptr_def deep_copy_def\<close>)
qed

lemma new_slice_copies: "deep_copier (TSlice t) (new_slice c)"
proof
  fix h v r h'
  assume h: "wf_heap h" "has_type h (TSlice t) v" "run_state (new_slice c v) h = (r, h')"
  show "deep_copy (TSlice t) h v r h'"
  proof (cases v)
    case (VSlice a off len)
    with h obtain xs where xs: "h_mem h a = Some (OArray xs)" "off + len \<le> length xs"
      "\<forall>x\<in>set (take len (drop off xs)). has_type h t x" by (auto split: option.splits gobj.splits)
    let ?h1 = "h\<lparr>h_next := Suc (h_next h)\<rparr>" and ?xs = "take len (drop off xs)"
    obtain ys h2 where ys: "run_state (copy_each c ?xs) ?h1 = (ys, h2)" by fastforce
    have st: "\<forall>x\<in>set ?xs. has_type ?h1 t x \<and> view ?h1 t x = view h t x"
      using extends_stable(1) [OF reserved(2) [OF h(1)]] xs(3) by blast
    then have cy: "length ys = length ?xs" "map (view h2 t) ys = map (view h t) ?xs" "extends ?h1 h2" "wf_heap h2"
      "\<forall>y\<in>set ys. has_type h2 t y \<and> reach h2 t y \<subseteq> {Suc (h_next h)..<h_next h2}"
      using copy_each_copies [OF reserved(1) [OF h(1)] _ ys] by auto
    have res: "r = VSlice (h_next h) 0 len" "h' = h2\<lparr>h_mem := (h_mem h2)(h_next h \<mapsto> OArray ys)\<rparr>"
      using h(3) VSlice xs ys by (simp_all add: new_slice_def)
    note c = commit [OF h(1) cy(3,4) res(2)]
    have ok: "\<forall>y\<in>set ys. has_type h' t y \<and> view h' t y = view h2 t y \<and> reach h' t y \<subseteq> {Suc (h_next h)..<h_next h'}"
      using c(4) c(6) cy(5) by metis
    then have "map (view h' t) ys = map (view h t) ?xs" using cy(2) by (metis map_eq_conv)
    moreover have "length ys = len" using cy(1) xs(2) by simp
    ultimately show ?thesis
      using c(1-5) ok VSlice xs(1) by (fastforce simp: deep_copy_def res(1))
  qed (use h in \<open>auto simp: new_slice_def deep_copy_def\<close>)
qed

lemma new_map_copies:
  assumes "\<And>kvs. mset (range_order kvs) = mset kvs"
  shows "deep_copier (TMap t) (new_map range_order c)"
proof
  fix h v r h'
  assume h: "wf_heap h" "has_type h (TMap t) v" "run_state (new_map range_order c v) h = (r, h')"
  show "deep_copy (TMap t) h v r h'"
  proof (cases v)
    case (VRef a)
    with h obtain kvs where kvs: "h_mem h a = Some (OMap kvs)" "distinct (map fst kvs)"
      "\<forall>p\<in>set kvs. has_type h t (snd p)" by (auto split: option.splits gobj.splits)
    let ?h1 = "h\<lparr>h_next := Suc (h_next h)\<rparr>" and ?es = "range_order kvs"
    have es: "set ?es = set kvs" "distinct (map fst ?es)"
      using assms [of kvs] kvs(2) by (metis mset_eq_setD) (metis assms kvs(2) mset_eq_imp_distinct_iff mset_map)
    obtain ys h2 where ys: "run_state (copy_each c (map snd ?es)) ?h1 = (ys, h2)" by fastforce
    have st: "\<forall>x\<in>set (map snd ?es). has_type ?h1 t x \<and> view ?h1 t x = view h t x"
      using extends_stable(1) [OF reserved(2) [OF h(1)]] kvs(3) es(1) by auto
    then have cy: "length ys = length ?es" "map (view h2 t) ys = map (view h t) (map snd ?es)" "extends ?h1 h2" "wf_heap h2"
      "\<forall>y\<in>set ys. has_type h2 t y \<and> reach h2 t y \<subseteq> {Suc (h_next h)..<h_next h2}"
      using copy_each_copies [OF reserved(1) [OF h(1)] _ ys] by auto
    let ?out = "zip (map fst ?es) ys"
    have res: "r = VRef (h_next h)" "h' = h2\<lparr>h_mem := (h_mem h2)(h_next h \<mapsto> OMap ?out)\<rparr>"
      using h(3) VRef kvs ys es by (simp_all add: new_map_def copy_entries_values)
    note c = commit [OF h(1) cy(3,4) res(2)]
    have ok: "\<forall>y\<in>set ys. has_type h' t y \<and> view h' t y = view h2 t y \<and> reach h' t y \<subseteq> {Suc (h_next h)..<h_next h'}"
      using c(4) c(6) cy(5) by metis
    then have "map (view h' t) ys = map (view h2 t) ys" by simp
    then have views: "map (view h' t) ys = map (view h t) (map snd ?es)" by (rule trans [OF _ cy(2)])
    have "map_of (map (\<lambda>p. (fst p, view h' t (snd p))) ?out) = map_of (map (\<lambda>p. (fst p, view h t (snd p))) ?es)"
      by (rule arg_cong [OF copied_entries_view [OF cy(1) views]])
    also have "\<dots> = map_of (map (\<lambda>p. (fst p, view h t (snd p))) kvs)"
      by (rule map_of_reordered [OF assms kvs(2)])
    finally have "map_of (map (\<lambda>p. (fst p, view h' t (snd p))) ?out) = map_of (map (\<lambda>p. (fst p, view h t (snd p))) kvs)" .
    moreover have "distinct (map fst ?out)" using es(2) cy(1) by simp
    moreover have "snd p \<in> set ys" if "p \<in> set ?out" for p using that by (metis in_set_zipE prod.collapse)
    ultimately show ?thesis
      using c(1-5) ok VRef kvs(1) by (fastforce simp: deep_copy_def res(1))
  qed (use h in \<open>auto simp: new_map_def deep_copy_def\<close>)
qed

text \<open>The assignment to a field.\<close>

lemma copy_field_copies:
  assumes "wf_heap h" "f n = Some x" "has_type h t x" "run_state (copy_field n c (VStruct f)) h = (r, h')"
  obtains y where "r = VStruct (f(n \<mapsto> y))" "deep_copy t h x y h'"
proof -
  obtain y h1 where y: "run_state (c x) h = (y, h1)" by fastforce
  with assms have "r = VStruct (f(n \<mapsto> y))" "h' = h1" by (simp_all add: copy_field_def)
  with copies [OF assms(1,3) y] that show thesis by blast
qed

end

text \<open>A value without references is its own deep copy.\<close>

fun flat :: "gtype \<Rightarrow> bool" and flat_fields :: "(string \<times> gtype) list \<Rightarrow> bool" where
  "flat TString = True"
| "flat (TInt w) = True"
| "flat TBool = True"
| "flat (TStruct fs) = flat_fields fs"
| "flat t = False"
| "flat_fields [] = True"
| "flat_fields ((n, t) # fs) = (flat t \<and> flat_fields fs)"

lemma flat_reach:
  "flat t \<Longrightarrow> reach h t v = {}"
  "flat_fields fs \<Longrightarrow> reach_fields h fs f = {}"
  by (induction t and fs arbitrary: v and f rule: flat_flat_fields.induct) (auto split: gval.splits option.splits)

lemma flat_copies: "flat t \<Longrightarrow> deep_copier t ret"
  by unfold_locales (simp add: deep_copy_def flat_reach)

lemma deep_copier_named:
  assumes "deep_copier t c"
  shows "deep_copier (TExt n t) c"
proof
  fix h v r h'
  assume h: "wf_heap h" "has_type h (TExt n t) v" "run_state (c v) h = (r, h')"
  from h(2) have "has_type h t v" by simp
  from deep_copier.copies [OF assms h(1) this h(3)] show "deep_copy (TExt n t) h v r h'"
    by (simp add: deep_copy_def)
qed

section \<open>The type-directed copy\<close>

text \<open>
  The types of other packages: their layout and their own copy functions, and the order in which
  a map is enumerated.
\<close>

record externals =
  x_layout :: "string \<Rightarrow> gtype"
  x_copy :: "string \<Rightarrow> copier"
  x_range :: "(string \<times> gval) list \<Rightarrow> (string \<times> gval) list"

text \<open>
  The reference for generated code: follow the type and copy whatever has references, the
  values of other packages by their own functions.
\<close>

fun copy_value :: "externals \<Rightarrow> gtype \<Rightarrow> copier"
  and copy_fields :: "externals \<Rightarrow> (string \<times> gtype) list \<Rightarrow> copier" where
  "copy_value E (TPtr t) = new_ptr (copy_value E t)"
| "copy_value E (TSlice t) = new_slice (copy_value E t)"
| "copy_value E (TMap t) = new_map (x_range E) (copy_value E t)"
| "copy_value E (TStruct fs) = copy_fields E fs"
| "copy_value E (TExt n t) = x_copy E n"
| "copy_value E TString = ret"
| "copy_value E (TInt w) = ret"
| "copy_value E TBool = ret"
| "copy_fields E [] = ret"
| "copy_fields E ((n, t) # fs) = (\<lambda>v. do { out \<leftarrow> copy_field n (copy_value E t) v; copy_fields E fs out })"

text \<open>The named types of other packages have the layout they have there.\<close>

fun laid_out :: "externals \<Rightarrow> gtype \<Rightarrow> bool"
  and laid_out_fields :: "externals \<Rightarrow> (string \<times> gtype) list \<Rightarrow> bool" where
  "laid_out E (TPtr t) = laid_out E t"
| "laid_out E (TSlice t) = laid_out E t"
| "laid_out E (TMap t) = laid_out E t"
| "laid_out E (TStruct fs) = laid_out_fields E fs"
| "laid_out E (TExt n t) = (t = x_layout E n)"
| "laid_out E t = True"
| "laid_out_fields E [] = True"
| "laid_out_fields E ((n, t) # fs) = (laid_out E t \<and> laid_out_fields E fs)"

lemma copy_fields_step:
  assumes "deep_copier t c"
    and rest: "\<And>h f r h'. wf_heap h \<Longrightarrow> distinct (map fst fs) \<Longrightarrow> has_fields h fs f \<Longrightarrow>
      run_state (cs (VStruct f)) h = (r, h') \<Longrightarrow> fields_copied fs h f r h'"
    and h: "wf_heap h" "distinct (map fst ((n, t) # fs))" "has_fields h ((n, t) # fs) f"
    and run: "run_state (do { out \<leftarrow> copy_field n c (VStruct f); cs out }) h = (r, h')"
  shows "fields_copied ((n, t) # fs) h f r h'"
proof -
  obtain x where x: "f n = Some x" "has_type h t x" "has_fields h fs f" using h(3) by (auto split: option.splits)
  obtain out h1 where out: "run_state (copy_field n c (VStruct f)) h = (out, h1)" by fastforce
  obtain y where y: "out = VStruct (f(n \<mapsto> y))" "deep_copy t h x y h1"
    using deep_copier.copy_field_copies [OF assms(1) h(1) x(1,2) out] .
  let ?f = "f(n \<mapsto> y)"
  have e1: "extends h h1" "wf_heap h1" using y(2) by (simp_all add: deep_copy_def)
  have same: "has_fields h1 fs ?f \<and> view_fields h1 fs ?f = view_fields h fs f"
  proof -
    have "has_fields h1 fs ?f = has_fields h1 fs f \<and> view_fields h1 fs ?f = view_fields h1 fs f \<and>
        reach_fields h1 fs ?f = reach_fields h1 fs f"
      by (rule fields_cong) (use h(2) in auto)
    with extends_stable(2) [OF e1(1) x(3)] show ?thesis by simp
  qed
  have "run_state (cs (VStruct ?f)) h1 = (r, h')" using run out y(1) by simp
  with same h(2) have "fields_copied fs h1 ?f r h'" by (intro rest [OF e1(2)]) auto
  then obtain g where g: "r = VStruct g" "\<forall>m. m \<notin> fst ` set fs \<longrightarrow> g m = ?f m" "has_fields h' fs g"
    "view_fields h' fs g = view_fields h1 fs ?f" "reach_fields h' fs g \<subseteq> {h_next h1..<h_next h'}" "extends h1 h'" "wf_heap h'"
    by (auto simp: fields_copied_def)
  have gn: "g n = Some y" using g(2) h(2) by auto
  have yt: "has_type h' t y \<and> view h' t y = view h1 t y \<and> reach h' t y = reach h1 t y"
    using extends_stable(1) [OF g(6)] y(2) by (simp add: deep_copy_def)
  have le: "h_next h \<le> h_next h1" "h_next h1 \<le> h_next h'" using e1(1) g(6) by (simp_all add: extends_def)
  have "reach_fields h' ((n, t) # fs) g \<subseteq> {h_next h..<h_next h'}"
    using yt gn y(2) g(5) le by (fastforce simp: deep_copy_def)
  moreover have "view_fields h' ((n, t) # fs) g = view_fields h ((n, t) # fs) f"
    using yt gn y(2) g(4) same x(1) by (simp add: deep_copy_def)
  ultimately show ?thesis
    unfolding fields_copied_def
    using g(1-3,7) gn yt extends_trans [OF e1(1) g(6)] by (intro exI [of _ g]) auto
qed

text \<open>
  What the operator relies on: the copy functions of the other packages are deep copiers, for the
  layouts that are given with them. A type that its package documents as an immutable value, such
  as \<^verbatim>\<open>metav1.Time\<close>, whose copies share a pointer to a time zone, has an opaque layout: a
  basic value, whose copy is an assignment.
\<close>

locale external_copiers =
  fixes E :: externals
  assumes external_copies: "deep_copier (x_layout E n) (x_copy E n)"
    and range_permutes: "mset (x_range E kvs) = mset kvs"

lemma copy_value_copies:
  "external_copiers E \<Longrightarrow> laid_out E t \<Longrightarrow> deep_copier t (copy_value E t)"
  "external_copiers E \<Longrightarrow> laid_out_fields E fs \<Longrightarrow> wf_heap h \<Longrightarrow> distinct (map fst fs) \<Longrightarrow> has_fields h fs f \<Longrightarrow>
     run_state (copy_fields E fs (VStruct f)) h = (r, h') \<Longrightarrow> fields_copied fs h f r h'"
proof (induction E t and E fs arbitrary: and h f r h' rule: copy_value_copy_fields.induct)
  case (1 E t)
  then show ?case by (simp add: deep_copier.new_ptr_copies)
next
  case (2 E t)
  then show ?case by (simp add: deep_copier.new_slice_copies)
next
  case (3 E t)
  then show ?case by (simp add: deep_copier.new_map_copies external_copiers.range_permutes)
next
  case (4 E fs)
  show ?case
  proof
    fix h v r h'
    assume h: "wf_heap h" "has_type h (TStruct fs) v" "run_state (copy_value E (TStruct fs) v) h = (r, h')"
    then obtain f where f: "v = VStruct f" "distinct (map fst fs)" "has_fields h fs f" by (auto split: gval.splits)
    with 4 h have "fields_copied fs h f r h'" by simp
    with f show "deep_copy (TStruct fs) h v r h'" by (auto simp: fields_copied_def deep_copy_def)
  qed
next
  case (5 E n t)
  then show ?case by (simp add: external_copiers.external_copies deep_copier_named)
next
  case (9 E)
  then show ?case by (auto simp: fields_copied_def)
next
  case (10 E n t fs)
  show ?case
    by (rule copy_fields_step [where c = "copy_value E t" and cs = "copy_fields E fs"]) (use 10 in simp_all)
qed (simp_all add: flat_copies)

section \<open>Isolation\<close>

text \<open>Writing to objects of the heap, one after the other.\<close>

definition write_all :: "(nat \<times> gobj) list \<Rightarrow> heap \<Rightarrow> heap" where
  "write_all ws h = fold (\<lambda>w h. h\<lparr>h_mem := (h_mem h)(fst w \<mapsto> snd w)\<rparr>) ws h"

lemma write_all_elsewhere: "a \<notin> fst ` set ws \<Longrightarrow> h_mem (write_all ws h) a = h_mem h a"
  unfolding write_all_def by (induction ws arbitrary: h) auto

lemma view_isolated:
  assumes "has_type h t v" "fst ` set ws \<inter> reach h t v = {}"
  shows "has_type (write_all ws h) t v" "view (write_all ws h) t v = view h t v"
  using agree_on_reach(1) [OF assms(1), of "write_all ws h"] assms(2) write_all_elsewhere by blast+

lemma old_reach: "wf_heap h \<Longrightarrow> has_type h t v \<Longrightarrow> reach h t v \<subseteq> {..<h_next h}"
  using reach_dom(1) [of h t v] by (fastforce simp: wf_heap_def not_le [symmetric])

text \<open>
  After a deep copy, writes to the objects of the copy do not show in the original and writes
  to objects that existed before do not show in the copy.
\<close>

lemma deep_copy_isolates:
  assumes "wf_heap h" "has_type h t v" "deep_copy t h v r h'"
  shows "fst ` set ws \<subseteq> reach h' t r \<Longrightarrow> view (write_all ws h') t v = view h t v"
    and "fst ` set ws \<subseteq> {..<h_next h} \<Longrightarrow> view (write_all ws h') t r = view h t v"
proof -
  have r: "has_type h' t r" "view h' t r = view h t v" "reach h' t r \<subseteq> {h_next h..<h_next h'}" "extends h h'"
    using assms(3) unfolding deep_copy_def by blast+
  have old: "has_type h' t v" "view h' t v = view h t v" "reach h' t v = reach h t v"
    using extends_stable(1) [OF r(4) assms(2)] by blast+
  have disj: "reach h' t r \<inter> {..<h_next h} = {}" using r(3) by fastforce
  show "view (write_all ws h') t v = view h t v" if "fst ` set ws \<subseteq> reach h' t r"
  proof -
    have "fst ` set ws \<inter> reach h' t v = {}" using that disj old(3) old_reach [OF assms(1,2)] by blast
    from view_isolated(2) [OF old(1) this] old(2) show ?thesis by (rule trans)
  qed
  show "view (write_all ws h') t r = view h t v" if "fst ` set ws \<subseteq> {..<h_next h}"
  proof -
    have "fst ` set ws \<inter> reach h' t r = {}" using that disj by blast
    from view_isolated(2) [OF r(1) this] r(2) show ?thesis by (rule trans)
  qed
qed

end
