(* ===== verification/DeepCopy.thy ===== *)
theory DeepCopy
  imports GoHeap
begin

text \<open>
  The generated file \<^verbatim>\<open>api/v1alpha1/zz_generated.deepcopy.go\<close>, function by function, on the
  memory model of \<open>GoHeap\<close>. Beside it stands the layout of every API struct as its type
  declaration has it, with the fields in order. The equations show that no function leaves out a
  field with references; the theorems at the end are what the reconcilers rely on when they
  take \<^verbatim>\<open>base := obj.DeepCopy()\<close> before they change \<^verbatim>\<open>obj\<close> in place and patch the
  difference: the copy equals the original and the two share no memory.
\<close>

section \<open>Layout of the API types\<close>

text \<open>
  A type of another package (\<^verbatim>\<open>metav1.ObjectMeta\<close>, \<^verbatim>\<open>metav1.Condition\<close>,
  \<^verbatim>\<open>resource.Quantity\<close> and others) has the layout its package gives it, an argument. The
  named string and integer types of other packages are strings and integers, and
  \<^verbatim>\<open>metav1.TypeMeta\<close> is two strings.
\<close>

abbreviation ext_type :: "externals \<Rightarrow> string \<Rightarrow> gtype" where
  "ext_type E n \<equiv> TExt n (x_layout E n)"

definition TypeMeta_type :: gtype where
  "TypeMeta_type = TStruct [(''Kind'', TString), (''APIVersion'', TString)]"

definition CellEntrypointSpec_type :: "externals \<Rightarrow> gtype" where
  "CellEntrypointSpec_type E = TStruct [(''ServiceName'', TString), (''Port'', TInt 32), (''TargetPort'', TPtr (TInt 32)),
     (''Protocol'', TString), (''Type'', TString)]"

definition CellResourceQuotaSpec_type :: "externals \<Rightarrow> gtype" where
  "CellResourceQuotaSpec_type E = TStruct [(''Hard'', TMap (ext_type E ''Quantity''))]"

definition CellLimitRangeSpec_type :: "externals \<Rightarrow> gtype" where
  "CellLimitRangeSpec_type E = TStruct [(''Default'', TMap (ext_type E ''Quantity'')),
     (''DefaultRequest'', TMap (ext_type E ''Quantity'')), (''Max'', TMap (ext_type E ''Quantity'')),
     (''Min'', TMap (ext_type E ''Quantity''))]"

definition CellNetworkPolicySpec_type :: "externals \<Rightarrow> gtype" where
  "CellNetworkPolicySpec_type E = TStruct [(''Enabled'', TBool), (''AllowedNamespaceLabels'', TMap TString)]"

definition CellPoliciesSpec_type :: "externals \<Rightarrow> gtype" where
  "CellPoliciesSpec_type E = TStruct [(''ResourceQuota'', TPtr (CellResourceQuotaSpec_type E)),
     (''LimitRange'', TPtr (CellLimitRangeSpec_type E)),
     (''NetworkPolicy'', TPtr (CellNetworkPolicySpec_type E))]"

definition CellSpec_type :: "externals \<Rightarrow> gtype" where
  "CellSpec_type E = TStruct [(''Namespace'', TString), (''Entrypoint'', CellEntrypointSpec_type E),
     (''WorkloadSelector'', TMap TString), (''State'', TString), (''NamespaceLabels'', TMap TString),
     (''NamespaceAnnotations'', TMap TString), (''ServiceLabels'', TMap TString),
     (''ServiceAnnotations'', TMap TString), (''TearDownOnDelete'', TBool),
     (''Policies'', TPtr (CellPoliciesSpec_type E))]"

definition CellStatus_type :: "externals \<Rightarrow> gtype" where
  "CellStatus_type E = TStruct [(''ObservedGeneration'', TInt 64), (''Namespace'', TString), (''EntrypointService'', TString),
     (''OperationalState'', TString), (''AvailableEndpoints'', TInt 32),
     (''Conditions'', TSlice (ext_type E ''Condition''))]"

definition Cell_type :: "externals \<Rightarrow> gtype" where
  "Cell_type E = TStruct [(''TypeMeta'', TypeMeta_type), (''ObjectMeta'', ext_type E ''ObjectMeta''),
     (''Spec'', CellSpec_type E), (''Status'', CellStatus_type E)]"

definition CellList_type :: "externals \<Rightarrow> gtype" where
  "CellList_type E = TStruct [(''TypeMeta'', TypeMeta_type), (''ListMeta'', ext_type E ''ListMeta''),
     (''Items'', TSlice (Cell_type E))]"

definition CellGatewayListener_type :: "externals \<Rightarrow> gtype" where
  "CellGatewayListener_type E = TStruct [(''Name'', TString), (''Port'', TInt 32), (''Protocol'', TString), (''Hostname'', TPtr TString),
     (''TLS'', TPtr (ext_type E ''ListenerTLSConfig''))]"

definition CellGatewaySpec_type :: "externals \<Rightarrow> gtype" where
  "CellGatewaySpec_type E = TStruct [(''Name'', TString), (''Namespace'', TString), (''GatewayClassName'', TString),
     (''Labels'', TMap TString), (''Annotations'', TMap TString),
     (''Listeners'', TSlice (CellGatewayListener_type E))]"

definition HTTPPathMatch_type :: "externals \<Rightarrow> gtype" where
  "HTTPPathMatch_type E = TStruct [(''Type'', TPtr TString), (''Value'', TString)]"

definition HTTPHeaderMatch_type :: "externals \<Rightarrow> gtype" where
  "HTTPHeaderMatch_type E = TStruct [(''Name'', TString), (''Value'', TString), (''Type'', TPtr TString)]"

definition HTTPQueryParamMatch_type :: "externals \<Rightarrow> gtype" where
  "HTTPQueryParamMatch_type E = TStruct [(''Name'', TString), (''Value'', TString), (''Type'', TPtr TString)]"

definition CellRouteBackendRef_type :: "externals \<Rightarrow> gtype" where
  "CellRouteBackendRef_type E = TStruct [(''CellRef'', TString), (''Weight'', TPtr (TInt 32))]"

definition CellRouteSpec_type :: "externals \<Rightarrow> gtype" where
  "CellRouteSpec_type E = TStruct [(''Name'', TString), (''CellRef'', TString), (''ListenerNames'', TSlice TString),
     (''Hostnames'', TSlice TString), (''PathMatch'', TPtr (HTTPPathMatch_type E)),
     (''HeaderMatches'', TSlice (HTTPHeaderMatch_type E)),
     (''QueryParamMatches'', TSlice (HTTPQueryParamMatch_type E)), (''Weight'', TPtr (TInt 32)),
     (''AdditionalBackends'', TSlice (CellRouteBackendRef_type E)),
     (''FallbackBackend'', TPtr (CellRouteBackendRef_type E))]"

definition CellRouterSpec_type :: "externals \<Rightarrow> gtype" where
  "CellRouterSpec_type E = TStruct [(''Gateway'', CellGatewaySpec_type E), (''Routes'', TSlice (CellRouteSpec_type E))]"

definition ManagedRouteStatus_type :: "externals \<Rightarrow> gtype" where
  "ManagedRouteStatus_type E = TStruct [(''Name'', TString), (''ListenerNames'', TSlice TString), (''CellRef'', TString),
     (''BackendRefs'', TSlice TString), (''PlacementRef'', TString), (''Reason'', TString),
     (''LastTransitionTime'', TPtr (ext_type E ''Time''))]"

definition CellRouterStatus_type :: "externals \<Rightarrow> gtype" where
  "CellRouterStatus_type E = TStruct [(''ObservedGeneration'', TInt 64), (''ManagedGatewayRef'', TString),
     (''ManagedRoutes'', TSlice (ManagedRouteStatus_type E)),
     (''Conditions'', TSlice (ext_type E ''Condition''))]"

definition CellRouter_type :: "externals \<Rightarrow> gtype" where
  "CellRouter_type E = TStruct [(''TypeMeta'', TypeMeta_type), (''ObjectMeta'', ext_type E ''ObjectMeta''),
     (''Spec'', CellRouterSpec_type E), (''Status'', CellRouterStatus_type E)]"

definition CellRouterList_type :: "externals \<Rightarrow> gtype" where
  "CellRouterList_type E = TStruct [(''TypeMeta'', TypeMeta_type), (''ListMeta'', ext_type E ''ListMeta''),
     (''Items'', TSlice (CellRouter_type E))]"

definition CellPlacementSelectorSource_type :: "externals \<Rightarrow> gtype" where
  "CellPlacementSelectorSource_type E = TStruct [(''Type'', TString), (''Name'', TString), (''PathRegex'', TString)]"

definition CellPlacementNumericRange_type :: "externals \<Rightarrow> gtype" where
  "CellPlacementNumericRange_type E = TStruct [(''Start'', TString), (''End'', TString)]"

definition CellPlacementSelector_type :: "externals \<Rightarrow> gtype" where
  "CellPlacementSelector_type E = TStruct [(''Source'', CellPlacementSelectorSource_type E), (''Operator'', TString), (''Value'', TString),
     (''Range'', TPtr (CellPlacementNumericRange_type E))]"

definition CellPlacementSpec_type :: "externals \<Rightarrow> gtype" where
  "CellPlacementSpec_type E = TStruct [(''RouterRef'', TString), (''ListenerNames'', TSlice TString), (''Hostnames'', TSlice TString),
     (''Selectors'', TSlice (CellPlacementSelector_type E)),
     (''Destinations'', TSlice (CellRouteBackendRef_type E))]"

definition CellPlacementStatus_type :: "externals \<Rightarrow> gtype" where
  "CellPlacementStatus_type E = TStruct [(''ObservedGeneration'', TInt 64), (''ResolvedBackends'', TSlice TString),
     (''Conditions'', TSlice (ext_type E ''Condition''))]"

definition CellPlacement_type :: "externals \<Rightarrow> gtype" where
  "CellPlacement_type E = TStruct [(''TypeMeta'', TypeMeta_type), (''ObjectMeta'', ext_type E ''ObjectMeta''),
     (''Spec'', CellPlacementSpec_type E), (''Status'', CellPlacementStatus_type E)]"

definition CellPlacementList_type :: "externals \<Rightarrow> gtype" where
  "CellPlacementList_type E = TStruct [(''TypeMeta'', TypeMeta_type), (''ListMeta'', ext_type E ''ListMeta''),
     (''Items'', TSlice (CellPlacement_type E))]"

lemmas layout_defs =
  CellEntrypointSpec_type_def CellResourceQuotaSpec_type_def CellLimitRangeSpec_type_def CellNetworkPolicySpec_type_def
  CellPoliciesSpec_type_def CellSpec_type_def CellStatus_type_def Cell_type_def
  CellList_type_def CellGatewayListener_type_def CellGatewaySpec_type_def HTTPPathMatch_type_def
  HTTPHeaderMatch_type_def HTTPQueryParamMatch_type_def CellRouteBackendRef_type_def CellRouteSpec_type_def
  CellRouterSpec_type_def ManagedRouteStatus_type_def CellRouterStatus_type_def CellRouter_type_def
  CellRouterList_type_def CellPlacementSelectorSource_type_def CellPlacementNumericRange_type_def CellPlacementSelector_type_def
  CellPlacementSpec_type_def CellPlacementStatus_type_def CellPlacement_type_def CellPlacementList_type_def

section \<open>The generated functions\<close>

text \<open>
  \<^verbatim>\<open>DeepCopyInto\<close> starts from \<^verbatim>\<open>*out = *in\<close> and replaces the fields one by one;
  \<^verbatim>\<open>DeepCopy\<close> returns \<^verbatim>\<open>nil\<close> for \<^verbatim>\<open>nil\<close> and otherwise fills a new object;
  \<^verbatim>\<open>DeepCopyObject\<close> returns an interface value, which is \<^verbatim>\<open>nil\<close> or carries the dynamic type
  of the pointer.
\<close>

datatype runtime_object = NilObject | Object string gval

definition CellEntrypointSpec_DeepCopyInto :: "externals \<Rightarrow> copier" where
  "CellEntrypointSpec_DeepCopyInto E inp = do {
     out \<leftarrow> copy_field ''TargetPort'' (new_ptr ret) inp;
     ret out }"

definition CellEntrypointSpec_DeepCopy :: "externals \<Rightarrow> copier" where
  "CellEntrypointSpec_DeepCopy E = new_ptr (CellEntrypointSpec_DeepCopyInto E)"

definition CellResourceQuotaSpec_DeepCopyInto :: "externals \<Rightarrow> copier" where
  "CellResourceQuotaSpec_DeepCopyInto E inp = do {
     out \<leftarrow> copy_field ''Hard'' (new_map (x_range E) (x_copy E ''Quantity'')) inp;
     ret out }"

definition CellResourceQuotaSpec_DeepCopy :: "externals \<Rightarrow> copier" where
  "CellResourceQuotaSpec_DeepCopy E = new_ptr (CellResourceQuotaSpec_DeepCopyInto E)"

definition CellLimitRangeSpec_DeepCopyInto :: "externals \<Rightarrow> copier" where
  "CellLimitRangeSpec_DeepCopyInto E inp = do {
     out \<leftarrow> copy_field ''Default'' (new_map (x_range E) (x_copy E ''Quantity'')) inp;
     out \<leftarrow> copy_field ''DefaultRequest'' (new_map (x_range E) (x_copy E ''Quantity'')) out;
     out \<leftarrow> copy_field ''Max'' (new_map (x_range E) (x_copy E ''Quantity'')) out;
     out \<leftarrow> copy_field ''Min'' (new_map (x_range E) (x_copy E ''Quantity'')) out;
     ret out }"

definition CellLimitRangeSpec_DeepCopy :: "externals \<Rightarrow> copier" where
  "CellLimitRangeSpec_DeepCopy E = new_ptr (CellLimitRangeSpec_DeepCopyInto E)"

definition CellNetworkPolicySpec_DeepCopyInto :: "externals \<Rightarrow> copier" where
  "CellNetworkPolicySpec_DeepCopyInto E inp = do {
     out \<leftarrow> copy_field ''AllowedNamespaceLabels'' (new_map (x_range E) ret) inp;
     ret out }"

definition CellNetworkPolicySpec_DeepCopy :: "externals \<Rightarrow> copier" where
  "CellNetworkPolicySpec_DeepCopy E = new_ptr (CellNetworkPolicySpec_DeepCopyInto E)"

definition CellPoliciesSpec_DeepCopyInto :: "externals \<Rightarrow> copier" where
  "CellPoliciesSpec_DeepCopyInto E inp = do {
     out \<leftarrow> copy_field ''ResourceQuota'' (new_ptr (CellResourceQuotaSpec_DeepCopyInto E)) inp;
     out \<leftarrow> copy_field ''LimitRange'' (new_ptr (CellLimitRangeSpec_DeepCopyInto E)) out;
     out \<leftarrow> copy_field ''NetworkPolicy'' (new_ptr (CellNetworkPolicySpec_DeepCopyInto E)) out;
     ret out }"

definition CellPoliciesSpec_DeepCopy :: "externals \<Rightarrow> copier" where
  "CellPoliciesSpec_DeepCopy E = new_ptr (CellPoliciesSpec_DeepCopyInto E)"

definition CellSpec_DeepCopyInto :: "externals \<Rightarrow> copier" where
  "CellSpec_DeepCopyInto E inp = do {
     out \<leftarrow> copy_field ''Entrypoint'' (CellEntrypointSpec_DeepCopyInto E) inp;
     out \<leftarrow> copy_field ''WorkloadSelector'' (new_map (x_range E) ret) out;
     out \<leftarrow> copy_field ''NamespaceLabels'' (new_map (x_range E) ret) out;
     out \<leftarrow> copy_field ''NamespaceAnnotations'' (new_map (x_range E) ret) out;
     out \<leftarrow> copy_field ''ServiceLabels'' (new_map (x_range E) ret) out;
     out \<leftarrow> copy_field ''ServiceAnnotations'' (new_map (x_range E) ret) out;
     out \<leftarrow> copy_field ''Policies'' (new_ptr (CellPoliciesSpec_DeepCopyInto E)) out;
     ret out }"

definition CellSpec_DeepCopy :: "externals \<Rightarrow> copier" where
  "CellSpec_DeepCopy E = new_ptr (CellSpec_DeepCopyInto E)"

definition CellStatus_DeepCopyInto :: "externals \<Rightarrow> copier" where
  "CellStatus_DeepCopyInto E inp = do {
     out \<leftarrow> copy_field ''Conditions'' (new_slice (x_copy E ''Condition'')) inp;
     ret out }"

definition CellStatus_DeepCopy :: "externals \<Rightarrow> copier" where
  "CellStatus_DeepCopy E = new_ptr (CellStatus_DeepCopyInto E)"

definition Cell_DeepCopyInto :: "externals \<Rightarrow> copier" where
  "Cell_DeepCopyInto E inp = do {
     out \<leftarrow> copy_field ''TypeMeta'' ret inp;
     out \<leftarrow> copy_field ''ObjectMeta'' (x_copy E ''ObjectMeta'') out;
     out \<leftarrow> copy_field ''Spec'' (CellSpec_DeepCopyInto E) out;
     out \<leftarrow> copy_field ''Status'' (CellStatus_DeepCopyInto E) out;
     ret out }"

definition Cell_DeepCopy :: "externals \<Rightarrow> copier" where
  "Cell_DeepCopy E = new_ptr (Cell_DeepCopyInto E)"

definition CellList_DeepCopyInto :: "externals \<Rightarrow> copier" where
  "CellList_DeepCopyInto E inp = do {
     out \<leftarrow> copy_field ''TypeMeta'' ret inp;
     out \<leftarrow> copy_field ''ListMeta'' (x_copy E ''ListMeta'') out;
     out \<leftarrow> copy_field ''Items'' (new_slice (Cell_DeepCopyInto E)) out;
     ret out }"

definition CellList_DeepCopy :: "externals \<Rightarrow> copier" where
  "CellList_DeepCopy E = new_ptr (CellList_DeepCopyInto E)"

definition CellGatewayListener_DeepCopyInto :: "externals \<Rightarrow> copier" where
  "CellGatewayListener_DeepCopyInto E inp = do {
     out \<leftarrow> copy_field ''Hostname'' (new_ptr ret) inp;
     out \<leftarrow> copy_field ''TLS'' (new_ptr (x_copy E ''ListenerTLSConfig'')) out;
     ret out }"

definition CellGatewayListener_DeepCopy :: "externals \<Rightarrow> copier" where
  "CellGatewayListener_DeepCopy E = new_ptr (CellGatewayListener_DeepCopyInto E)"

definition CellGatewaySpec_DeepCopyInto :: "externals \<Rightarrow> copier" where
  "CellGatewaySpec_DeepCopyInto E inp = do {
     out \<leftarrow> copy_field ''Labels'' (new_map (x_range E) ret) inp;
     out \<leftarrow> copy_field ''Annotations'' (new_map (x_range E) ret) out;
     out \<leftarrow> copy_field ''Listeners'' (new_slice (CellGatewayListener_DeepCopyInto E)) out;
     ret out }"

definition CellGatewaySpec_DeepCopy :: "externals \<Rightarrow> copier" where
  "CellGatewaySpec_DeepCopy E = new_ptr (CellGatewaySpec_DeepCopyInto E)"

definition HTTPPathMatch_DeepCopyInto :: "externals \<Rightarrow> copier" where
  "HTTPPathMatch_DeepCopyInto E inp = do {
     out \<leftarrow> copy_field ''Type'' (new_ptr ret) inp;
     ret out }"

definition HTTPPathMatch_DeepCopy :: "externals \<Rightarrow> copier" where
  "HTTPPathMatch_DeepCopy E = new_ptr (HTTPPathMatch_DeepCopyInto E)"

definition HTTPHeaderMatch_DeepCopyInto :: "externals \<Rightarrow> copier" where
  "HTTPHeaderMatch_DeepCopyInto E inp = do {
     out \<leftarrow> copy_field ''Type'' (new_ptr ret) inp;
     ret out }"

definition HTTPHeaderMatch_DeepCopy :: "externals \<Rightarrow> copier" where
  "HTTPHeaderMatch_DeepCopy E = new_ptr (HTTPHeaderMatch_DeepCopyInto E)"

definition HTTPQueryParamMatch_DeepCopyInto :: "externals \<Rightarrow> copier" where
  "HTTPQueryParamMatch_DeepCopyInto E inp = do {
     out \<leftarrow> copy_field ''Type'' (new_ptr ret) inp;
     ret out }"

definition HTTPQueryParamMatch_DeepCopy :: "externals \<Rightarrow> copier" where
  "HTTPQueryParamMatch_DeepCopy E = new_ptr (HTTPQueryParamMatch_DeepCopyInto E)"

definition CellRouteBackendRef_DeepCopyInto :: "externals \<Rightarrow> copier" where
  "CellRouteBackendRef_DeepCopyInto E inp = do {
     out \<leftarrow> copy_field ''Weight'' (new_ptr ret) inp;
     ret out }"

definition CellRouteBackendRef_DeepCopy :: "externals \<Rightarrow> copier" where
  "CellRouteBackendRef_DeepCopy E = new_ptr (CellRouteBackendRef_DeepCopyInto E)"

definition CellRouteSpec_DeepCopyInto :: "externals \<Rightarrow> copier" where
  "CellRouteSpec_DeepCopyInto E inp = do {
     out \<leftarrow> copy_field ''ListenerNames'' (new_slice ret) inp;
     out \<leftarrow> copy_field ''Hostnames'' (new_slice ret) out;
     out \<leftarrow> copy_field ''PathMatch'' (new_ptr (HTTPPathMatch_DeepCopyInto E)) out;
     out \<leftarrow> copy_field ''HeaderMatches'' (new_slice (HTTPHeaderMatch_DeepCopyInto E)) out;
     out \<leftarrow> copy_field ''QueryParamMatches'' (new_slice (HTTPQueryParamMatch_DeepCopyInto E)) out;
     out \<leftarrow> copy_field ''Weight'' (new_ptr ret) out;
     out \<leftarrow> copy_field ''AdditionalBackends'' (new_slice (CellRouteBackendRef_DeepCopyInto E)) out;
     out \<leftarrow> copy_field ''FallbackBackend'' (new_ptr (CellRouteBackendRef_DeepCopyInto E)) out;
     ret out }"

definition CellRouteSpec_DeepCopy :: "externals \<Rightarrow> copier" where
  "CellRouteSpec_DeepCopy E = new_ptr (CellRouteSpec_DeepCopyInto E)"

definition CellRouterSpec_DeepCopyInto :: "externals \<Rightarrow> copier" where
  "CellRouterSpec_DeepCopyInto E inp = do {
     out \<leftarrow> copy_field ''Gateway'' (CellGatewaySpec_DeepCopyInto E) inp;
     out \<leftarrow> copy_field ''Routes'' (new_slice (CellRouteSpec_DeepCopyInto E)) out;
     ret out }"

definition CellRouterSpec_DeepCopy :: "externals \<Rightarrow> copier" where
  "CellRouterSpec_DeepCopy E = new_ptr (CellRouterSpec_DeepCopyInto E)"

definition ManagedRouteStatus_DeepCopyInto :: "externals \<Rightarrow> copier" where
  "ManagedRouteStatus_DeepCopyInto E inp = do {
     out \<leftarrow> copy_field ''ListenerNames'' (new_slice ret) inp;
     out \<leftarrow> copy_field ''BackendRefs'' (new_slice ret) out;
     out \<leftarrow> copy_field ''LastTransitionTime'' (new_ptr (x_copy E ''Time'')) out;
     ret out }"

definition ManagedRouteStatus_DeepCopy :: "externals \<Rightarrow> copier" where
  "ManagedRouteStatus_DeepCopy E = new_ptr (ManagedRouteStatus_DeepCopyInto E)"

definition CellRouterStatus_DeepCopyInto :: "externals \<Rightarrow> copier" where
  "CellRouterStatus_DeepCopyInto E inp = do {
     out \<leftarrow> copy_field ''ManagedRoutes'' (new_slice (ManagedRouteStatus_DeepCopyInto E)) inp;
     out \<leftarrow> copy_field ''Conditions'' (new_slice (x_copy E ''Condition'')) out;
     ret out }"

definition CellRouterStatus_DeepCopy :: "externals \<Rightarrow> copier" where
  "CellRouterStatus_DeepCopy E = new_ptr (CellRouterStatus_DeepCopyInto E)"

definition CellRouter_DeepCopyInto :: "externals \<Rightarrow> copier" where
  "CellRouter_DeepCopyInto E inp = do {
     out \<leftarrow> copy_field ''TypeMeta'' ret inp;
     out \<leftarrow> copy_field ''ObjectMeta'' (x_copy E ''ObjectMeta'') out;
     out \<leftarrow> copy_field ''Spec'' (CellRouterSpec_DeepCopyInto E) out;
     out \<leftarrow> copy_field ''Status'' (CellRouterStatus_DeepCopyInto E) out;
     ret out }"

definition CellRouter_DeepCopy :: "externals \<Rightarrow> copier" where
  "CellRouter_DeepCopy E = new_ptr (CellRouter_DeepCopyInto E)"

definition CellRouterList_DeepCopyInto :: "externals \<Rightarrow> copier" where
  "CellRouterList_DeepCopyInto E inp = do {
     out \<leftarrow> copy_field ''TypeMeta'' ret inp;
     out \<leftarrow> copy_field ''ListMeta'' (x_copy E ''ListMeta'') out;
     out \<leftarrow> copy_field ''Items'' (new_slice (CellRouter_DeepCopyInto E)) out;
     ret out }"

definition CellRouterList_DeepCopy :: "externals \<Rightarrow> copier" where
  "CellRouterList_DeepCopy E = new_ptr (CellRouterList_DeepCopyInto E)"

definition CellPlacementSelectorSource_DeepCopyInto :: "externals \<Rightarrow> copier" where
  "CellPlacementSelectorSource_DeepCopyInto E inp = ret inp"

definition CellPlacementSelectorSource_DeepCopy :: "externals \<Rightarrow> copier" where
  "CellPlacementSelectorSource_DeepCopy E = new_ptr (CellPlacementSelectorSource_DeepCopyInto E)"

definition CellPlacementNumericRange_DeepCopyInto :: "externals \<Rightarrow> copier" where
  "CellPlacementNumericRange_DeepCopyInto E inp = ret inp"

definition CellPlacementNumericRange_DeepCopy :: "externals \<Rightarrow> copier" where
  "CellPlacementNumericRange_DeepCopy E = new_ptr (CellPlacementNumericRange_DeepCopyInto E)"

definition CellPlacementSelector_DeepCopyInto :: "externals \<Rightarrow> copier" where
  "CellPlacementSelector_DeepCopyInto E inp = do {
     out \<leftarrow> copy_field ''Source'' ret inp;
     out \<leftarrow> copy_field ''Range'' (new_ptr ret) out;
     ret out }"

definition CellPlacementSelector_DeepCopy :: "externals \<Rightarrow> copier" where
  "CellPlacementSelector_DeepCopy E = new_ptr (CellPlacementSelector_DeepCopyInto E)"

definition CellPlacementSpec_DeepCopyInto :: "externals \<Rightarrow> copier" where
  "CellPlacementSpec_DeepCopyInto E inp = do {
     out \<leftarrow> copy_field ''ListenerNames'' (new_slice ret) inp;
     out \<leftarrow> copy_field ''Hostnames'' (new_slice ret) out;
     out \<leftarrow> copy_field ''Selectors'' (new_slice (CellPlacementSelector_DeepCopyInto E)) out;
     out \<leftarrow> copy_field ''Destinations'' (new_slice (CellRouteBackendRef_DeepCopyInto E)) out;
     ret out }"

definition CellPlacementSpec_DeepCopy :: "externals \<Rightarrow> copier" where
  "CellPlacementSpec_DeepCopy E = new_ptr (CellPlacementSpec_DeepCopyInto E)"

definition CellPlacementStatus_DeepCopyInto :: "externals \<Rightarrow> copier" where
  "CellPlacementStatus_DeepCopyInto E inp = do {
     out \<leftarrow> copy_field ''ResolvedBackends'' (new_slice ret) inp;
     out \<leftarrow> copy_field ''Conditions'' (new_slice (x_copy E ''Condition'')) out;
     ret out }"

definition CellPlacementStatus_DeepCopy :: "externals \<Rightarrow> copier" where
  "CellPlacementStatus_DeepCopy E = new_ptr (CellPlacementStatus_DeepCopyInto E)"

definition CellPlacement_DeepCopyInto :: "externals \<Rightarrow> copier" where
  "CellPlacement_DeepCopyInto E inp = do {
     out \<leftarrow> copy_field ''TypeMeta'' ret inp;
     out \<leftarrow> copy_field ''ObjectMeta'' (x_copy E ''ObjectMeta'') out;
     out \<leftarrow> copy_field ''Spec'' (CellPlacementSpec_DeepCopyInto E) out;
     out \<leftarrow> copy_field ''Status'' (CellPlacementStatus_DeepCopyInto E) out;
     ret out }"

definition CellPlacement_DeepCopy :: "externals \<Rightarrow> copier" where
  "CellPlacement_DeepCopy E = new_ptr (CellPlacement_DeepCopyInto E)"

definition CellPlacementList_DeepCopyInto :: "externals \<Rightarrow> copier" where
  "CellPlacementList_DeepCopyInto E inp = do {
     out \<leftarrow> copy_field ''TypeMeta'' ret inp;
     out \<leftarrow> copy_field ''ListMeta'' (x_copy E ''ListMeta'') out;
     out \<leftarrow> copy_field ''Items'' (new_slice (CellPlacement_DeepCopyInto E)) out;
     ret out }"

definition CellPlacementList_DeepCopy :: "externals \<Rightarrow> copier" where
  "CellPlacementList_DeepCopy E = new_ptr (CellPlacementList_DeepCopyInto E)"

definition Cell_DeepCopyObject :: "externals \<Rightarrow> gval \<Rightarrow> (heap, runtime_object) state" where
  "Cell_DeepCopyObject E p = do {
     c \<leftarrow> Cell_DeepCopy E p;
     ret (if c \<noteq> VNil then Object ''Cell'' c else NilObject) }"

definition CellList_DeepCopyObject :: "externals \<Rightarrow> gval \<Rightarrow> (heap, runtime_object) state" where
  "CellList_DeepCopyObject E p = do {
     c \<leftarrow> CellList_DeepCopy E p;
     ret (if c \<noteq> VNil then Object ''CellList'' c else NilObject) }"

definition CellPlacement_DeepCopyObject :: "externals \<Rightarrow> gval \<Rightarrow> (heap, runtime_object) state" where
  "CellPlacement_DeepCopyObject E p = do {
     c \<leftarrow> CellPlacement_DeepCopy E p;
     ret (if c \<noteq> VNil then Object ''CellPlacement'' c else NilObject) }"

definition CellPlacementList_DeepCopyObject :: "externals \<Rightarrow> gval \<Rightarrow> (heap, runtime_object) state" where
  "CellPlacementList_DeepCopyObject E p = do {
     c \<leftarrow> CellPlacementList_DeepCopy E p;
     ret (if c \<noteq> VNil then Object ''CellPlacementList'' c else NilObject) }"

definition CellRouter_DeepCopyObject :: "externals \<Rightarrow> gval \<Rightarrow> (heap, runtime_object) state" where
  "CellRouter_DeepCopyObject E p = do {
     c \<leftarrow> CellRouter_DeepCopy E p;
     ret (if c \<noteq> VNil then Object ''CellRouter'' c else NilObject) }"

definition CellRouterList_DeepCopyObject :: "externals \<Rightarrow> gval \<Rightarrow> (heap, runtime_object) state" where
  "CellRouterList_DeepCopyObject E p = do {
     c \<leftarrow> CellRouterList_DeepCopy E p;
     ret (if c \<noteq> VNil then Object ''CellRouterList'' c else NilObject) }"

section \<open>No field is forgotten\<close>

named_theorems deepcopy_eqs \<open>generated functions as type-directed copies\<close>

lemma copy_field_ret [simp]: "copy_field n ret v = ret v"
  by (auto simp: copy_field_def map_upd_triv split: gval.splits option.splits)

lemma flat_copy_value:
  "flat t \<Longrightarrow> copy_value E t = ret"
  "flat_fields fs \<Longrightarrow> copy_fields E fs = ret"
  by (induction t and fs rule: flat_flat_fields.induct) simp_all

lemma TypeMeta_copy [deepcopy_eqs]: "copy_value E TypeMeta_type = ret"
  by (rule flat_copy_value) (simp add: TypeMeta_type_def)

lemma flat_api_copy [deepcopy_eqs]:
  "copy_value E (CellPlacementSelectorSource_type E) = ret"
  "copy_value E (CellPlacementNumericRange_type E) = ret"
  by (rule flat_copy_value, simp add: layout_defs)+

lemma CellEntrypointSpec_DeepCopyInto_eq [deepcopy_eqs]: "CellEntrypointSpec_DeepCopyInto E = copy_value E (CellEntrypointSpec_type E)"
  by (simp add: fun_eq_iff CellEntrypointSpec_DeepCopyInto_def CellEntrypointSpec_type_def deepcopy_eqs)

lemma CellResourceQuotaSpec_DeepCopyInto_eq [deepcopy_eqs]: "CellResourceQuotaSpec_DeepCopyInto E = copy_value E (CellResourceQuotaSpec_type E)"
  by (simp add: fun_eq_iff CellResourceQuotaSpec_DeepCopyInto_def CellResourceQuotaSpec_type_def deepcopy_eqs)

lemma CellLimitRangeSpec_DeepCopyInto_eq [deepcopy_eqs]: "CellLimitRangeSpec_DeepCopyInto E = copy_value E (CellLimitRangeSpec_type E)"
  by (simp add: fun_eq_iff CellLimitRangeSpec_DeepCopyInto_def CellLimitRangeSpec_type_def deepcopy_eqs)

lemma CellNetworkPolicySpec_DeepCopyInto_eq [deepcopy_eqs]: "CellNetworkPolicySpec_DeepCopyInto E = copy_value E (CellNetworkPolicySpec_type E)"
  by (simp add: fun_eq_iff CellNetworkPolicySpec_DeepCopyInto_def CellNetworkPolicySpec_type_def deepcopy_eqs)

lemma CellPoliciesSpec_DeepCopyInto_eq [deepcopy_eqs]: "CellPoliciesSpec_DeepCopyInto E = copy_value E (CellPoliciesSpec_type E)"
  by (simp add: fun_eq_iff CellPoliciesSpec_DeepCopyInto_def CellPoliciesSpec_type_def deepcopy_eqs)

lemma CellSpec_DeepCopyInto_eq [deepcopy_eqs]: "CellSpec_DeepCopyInto E = copy_value E (CellSpec_type E)"
  by (simp add: fun_eq_iff CellSpec_DeepCopyInto_def CellSpec_type_def deepcopy_eqs)

lemma CellStatus_DeepCopyInto_eq [deepcopy_eqs]: "CellStatus_DeepCopyInto E = copy_value E (CellStatus_type E)"
  by (simp add: fun_eq_iff CellStatus_DeepCopyInto_def CellStatus_type_def deepcopy_eqs)

lemma Cell_DeepCopyInto_eq [deepcopy_eqs]: "Cell_DeepCopyInto E = copy_value E (Cell_type E)"
  by (simp add: fun_eq_iff Cell_DeepCopyInto_def Cell_type_def deepcopy_eqs)

lemma CellList_DeepCopyInto_eq [deepcopy_eqs]: "CellList_DeepCopyInto E = copy_value E (CellList_type E)"
  by (simp add: fun_eq_iff CellList_DeepCopyInto_def CellList_type_def deepcopy_eqs)

lemma CellGatewayListener_DeepCopyInto_eq [deepcopy_eqs]: "CellGatewayListener_DeepCopyInto E = copy_value E (CellGatewayListener_type E)"
  by (simp add: fun_eq_iff CellGatewayListener_DeepCopyInto_def CellGatewayListener_type_def deepcopy_eqs)

lemma CellGatewaySpec_DeepCopyInto_eq [deepcopy_eqs]: "CellGatewaySpec_DeepCopyInto E = copy_value E (CellGatewaySpec_type E)"
  by (simp add: fun_eq_iff CellGatewaySpec_DeepCopyInto_def CellGatewaySpec_type_def deepcopy_eqs)

lemma HTTPPathMatch_DeepCopyInto_eq [deepcopy_eqs]: "HTTPPathMatch_DeepCopyInto E = copy_value E (HTTPPathMatch_type E)"
  by (simp add: fun_eq_iff HTTPPathMatch_DeepCopyInto_def HTTPPathMatch_type_def deepcopy_eqs)

lemma HTTPHeaderMatch_DeepCopyInto_eq [deepcopy_eqs]: "HTTPHeaderMatch_DeepCopyInto E = copy_value E (HTTPHeaderMatch_type E)"
  by (simp add: fun_eq_iff HTTPHeaderMatch_DeepCopyInto_def HTTPHeaderMatch_type_def deepcopy_eqs)

lemma HTTPQueryParamMatch_DeepCopyInto_eq [deepcopy_eqs]: "HTTPQueryParamMatch_DeepCopyInto E = copy_value E (HTTPQueryParamMatch_type E)"
  by (simp add: fun_eq_iff HTTPQueryParamMatch_DeepCopyInto_def HTTPQueryParamMatch_type_def deepcopy_eqs)

lemma CellRouteBackendRef_DeepCopyInto_eq [deepcopy_eqs]: "CellRouteBackendRef_DeepCopyInto E = copy_value E (CellRouteBackendRef_type E)"
  by (simp add: fun_eq_iff CellRouteBackendRef_DeepCopyInto_def CellRouteBackendRef_type_def deepcopy_eqs)

lemma CellRouteSpec_DeepCopyInto_eq [deepcopy_eqs]: "CellRouteSpec_DeepCopyInto E = copy_value E (CellRouteSpec_type E)"
  by (simp add: fun_eq_iff CellRouteSpec_DeepCopyInto_def CellRouteSpec_type_def deepcopy_eqs)

lemma CellRouterSpec_DeepCopyInto_eq [deepcopy_eqs]: "CellRouterSpec_DeepCopyInto E = copy_value E (CellRouterSpec_type E)"
  by (simp add: fun_eq_iff CellRouterSpec_DeepCopyInto_def CellRouterSpec_type_def deepcopy_eqs)

lemma ManagedRouteStatus_DeepCopyInto_eq [deepcopy_eqs]: "ManagedRouteStatus_DeepCopyInto E = copy_value E (ManagedRouteStatus_type E)"
  by (simp add: fun_eq_iff ManagedRouteStatus_DeepCopyInto_def ManagedRouteStatus_type_def deepcopy_eqs)

lemma CellRouterStatus_DeepCopyInto_eq [deepcopy_eqs]: "CellRouterStatus_DeepCopyInto E = copy_value E (CellRouterStatus_type E)"
  by (simp add: fun_eq_iff CellRouterStatus_DeepCopyInto_def CellRouterStatus_type_def deepcopy_eqs)

lemma CellRouter_DeepCopyInto_eq [deepcopy_eqs]: "CellRouter_DeepCopyInto E = copy_value E (CellRouter_type E)"
  by (simp add: fun_eq_iff CellRouter_DeepCopyInto_def CellRouter_type_def deepcopy_eqs)

lemma CellRouterList_DeepCopyInto_eq [deepcopy_eqs]: "CellRouterList_DeepCopyInto E = copy_value E (CellRouterList_type E)"
  by (simp add: fun_eq_iff CellRouterList_DeepCopyInto_def CellRouterList_type_def deepcopy_eqs)

lemma CellPlacementSelectorSource_DeepCopyInto_eq [deepcopy_eqs]: "CellPlacementSelectorSource_DeepCopyInto E = copy_value E (CellPlacementSelectorSource_type E)"
  by (simp add: fun_eq_iff CellPlacementSelectorSource_DeepCopyInto_def CellPlacementSelectorSource_type_def deepcopy_eqs)

lemma CellPlacementNumericRange_DeepCopyInto_eq [deepcopy_eqs]: "CellPlacementNumericRange_DeepCopyInto E = copy_value E (CellPlacementNumericRange_type E)"
  by (simp add: fun_eq_iff CellPlacementNumericRange_DeepCopyInto_def CellPlacementNumericRange_type_def deepcopy_eqs)

lemma CellPlacementSelector_DeepCopyInto_eq [deepcopy_eqs]: "CellPlacementSelector_DeepCopyInto E = copy_value E (CellPlacementSelector_type E)"
  by (simp add: fun_eq_iff CellPlacementSelector_DeepCopyInto_def CellPlacementSelector_type_def deepcopy_eqs)

lemma CellPlacementSpec_DeepCopyInto_eq [deepcopy_eqs]: "CellPlacementSpec_DeepCopyInto E = copy_value E (CellPlacementSpec_type E)"
  by (simp add: fun_eq_iff CellPlacementSpec_DeepCopyInto_def CellPlacementSpec_type_def deepcopy_eqs)

lemma CellPlacementStatus_DeepCopyInto_eq [deepcopy_eqs]: "CellPlacementStatus_DeepCopyInto E = copy_value E (CellPlacementStatus_type E)"
  by (simp add: fun_eq_iff CellPlacementStatus_DeepCopyInto_def CellPlacementStatus_type_def deepcopy_eqs)

lemma CellPlacement_DeepCopyInto_eq [deepcopy_eqs]: "CellPlacement_DeepCopyInto E = copy_value E (CellPlacement_type E)"
  by (simp add: fun_eq_iff CellPlacement_DeepCopyInto_def CellPlacement_type_def deepcopy_eqs)

lemma CellPlacementList_DeepCopyInto_eq [deepcopy_eqs]: "CellPlacementList_DeepCopyInto E = copy_value E (CellPlacementList_type E)"
  by (simp add: fun_eq_iff CellPlacementList_DeepCopyInto_def CellPlacementList_type_def deepcopy_eqs)

section \<open>What the copies guarantee\<close>

text \<open>The kinds of the API group with their layouts and their copy functions.\<close>

record api_kind =
  ak_name :: string
  ak_type :: gtype
  ak_DeepCopy :: copier
  ak_DeepCopyObject :: "gval \<Rightarrow> (heap, runtime_object) state"

definition api_kinds :: "externals \<Rightarrow> api_kind list" where
  "api_kinds E =
     [\<lparr>ak_name = ''Cell'', ak_type = Cell_type E, ak_DeepCopy = Cell_DeepCopy E,
       ak_DeepCopyObject = Cell_DeepCopyObject E\<rparr>,
      \<lparr>ak_name = ''CellList'', ak_type = CellList_type E, ak_DeepCopy = CellList_DeepCopy E,
       ak_DeepCopyObject = CellList_DeepCopyObject E\<rparr>,
      \<lparr>ak_name = ''CellRouter'', ak_type = CellRouter_type E, ak_DeepCopy = CellRouter_DeepCopy E,
       ak_DeepCopyObject = CellRouter_DeepCopyObject E\<rparr>,
      \<lparr>ak_name = ''CellRouterList'', ak_type = CellRouterList_type E, ak_DeepCopy = CellRouterList_DeepCopy E,
       ak_DeepCopyObject = CellRouterList_DeepCopyObject E\<rparr>,
      \<lparr>ak_name = ''CellPlacement'', ak_type = CellPlacement_type E, ak_DeepCopy = CellPlacement_DeepCopy E,
       ak_DeepCopyObject = CellPlacement_DeepCopyObject E\<rparr>,
      \<lparr>ak_name = ''CellPlacementList'', ak_type = CellPlacementList_type E, ak_DeepCopy = CellPlacementList_DeepCopy E,
       ak_DeepCopyObject = CellPlacementList_DeepCopyObject E\<rparr>]"

lemmas deepcopy_object_defs = Cell_DeepCopyObject_def CellList_DeepCopyObject_def CellRouter_DeepCopyObject_def
  CellRouterList_DeepCopyObject_def CellPlacement_DeepCopyObject_def CellPlacementList_DeepCopyObject_def

lemmas deepcopy_defs = Cell_DeepCopy_def CellList_DeepCopy_def CellRouter_DeepCopy_def CellRouterList_DeepCopy_def
  CellPlacement_DeepCopy_def CellPlacementList_DeepCopy_def

lemma api_laid_out:
  "laid_out E (Cell_type E)" "laid_out E (CellList_type E)" "laid_out E (CellRouter_type E)"
  "laid_out E (CellRouterList_type E)" "laid_out E (CellPlacement_type E)" "laid_out E (CellPlacementList_type E)"
  by (simp_all add: layout_defs TypeMeta_type_def)

sublocale external_copiers \<subseteq> cell: deep_copier "Cell_type E" "Cell_DeepCopyInto E"
  unfolding Cell_DeepCopyInto_eq by (rule copy_value_copies(1) [OF external_copiers_axioms api_laid_out(1)])

sublocale external_copiers \<subseteq> cells: deep_copier "CellList_type E" "CellList_DeepCopyInto E"
  unfolding CellList_DeepCopyInto_eq by (rule copy_value_copies(1) [OF external_copiers_axioms api_laid_out(2)])

sublocale external_copiers \<subseteq> router: deep_copier "CellRouter_type E" "CellRouter_DeepCopyInto E"
  unfolding CellRouter_DeepCopyInto_eq by (rule copy_value_copies(1) [OF external_copiers_axioms api_laid_out(3)])

sublocale external_copiers \<subseteq> routers: deep_copier "CellRouterList_type E" "CellRouterList_DeepCopyInto E"
  unfolding CellRouterList_DeepCopyInto_eq by (rule copy_value_copies(1) [OF external_copiers_axioms api_laid_out(4)])

sublocale external_copiers \<subseteq> placement: deep_copier "CellPlacement_type E" "CellPlacement_DeepCopyInto E"
  unfolding CellPlacement_DeepCopyInto_eq by (rule copy_value_copies(1) [OF external_copiers_axioms api_laid_out(5)])

sublocale external_copiers \<subseteq> placements: deep_copier "CellPlacementList_type E" "CellPlacementList_DeepCopyInto E"
  unfolding CellPlacementList_DeepCopyInto_eq by (rule copy_value_copies(1) [OF external_copiers_axioms api_laid_out(6)])

context external_copiers
begin

lemma api_kind_copies:
  assumes "k \<in> set (api_kinds E)"
  shows "deep_copier (TPtr (ak_type k)) (ak_DeepCopy k)"
  using assms cell.new_ptr_copies cells.new_ptr_copies router.new_ptr_copies routers.new_ptr_copies
    placement.new_ptr_copies placements.new_ptr_copies
  by (auto simp: api_kinds_def deepcopy_defs)

end

text \<open>
  C16: the generated copy functions are complete. For every kind of the API group the function
  is the copy that follows the declared type of the struct and copies every pointer, slice and
  map in it, so that no field with references is shared by a forgotten assignment.
\<close>

theorem deepcopy_complete:
  "k \<in> set (api_kinds E) \<Longrightarrow> ak_DeepCopy k = copy_value E (TPtr (ak_type k))"
  by (auto simp: api_kinds_def deepcopy_defs deepcopy_eqs)

text \<open>
  C17: a deep copy has the type of the original and the same contents when all references are
  followed, it shares no object with the original, and no object that existed is changed. What
  an external type holds is told by its layout; one of immutable values, such as
  \<^verbatim>\<open>metav1.Time\<close>, counts as a basic value.
\<close>

theorem deepcopy_faithful:
  assumes "external_copiers E" "k \<in> set (api_kinds E)" "wf_heap h" "has_type h (TPtr (ak_type k)) p"
    and "run_state (ak_DeepCopy k p) h = (r, h')"
  shows "has_type h' (TPtr (ak_type k)) r \<and> view h' (TPtr (ak_type k)) r = view h (TPtr (ak_type k)) p \<and>
    reach h' (TPtr (ak_type k)) r \<inter> reach h' (TPtr (ak_type k)) p = {} \<and> h_mem h \<subseteq>\<^sub>m h_mem h'"
proof -
  let ?t = "TPtr (ak_type k)"
  have "deep_copy ?t h p r h'"
    by (rule deep_copier.copies [OF external_copiers.api_kind_copies [OF assms(1,2)] assms(3-5)])
  then have r: "has_type h' ?t r" "view h' ?t r = view h ?t p" "reach h' ?t r \<subseteq> {h_next h..<h_next h'}" "extends h h'"
    unfolding deep_copy_def by blast+
  have "reach h' ?t p = reach h ?t p" using extends_stable(1) [OF r(4) assms(4)] by blast
  with r(3) old_reach [OF assms(3,4)] have "reach h' ?t r \<inter> reach h' ?t p = {}" by fastforce
  moreover have "h_mem h \<subseteq>\<^sub>m h_mem h'" using r(4) unfolding extends_def by blast
  ultimately show ?thesis using r(1,2) by blast
qed

text \<open>
  C18: a deep copy and its original are isolated. Whatever is written through the copy, the
  original keeps its contents; whatever is written to objects that existed before, the copy
  keeps the contents the original had, as the base of a merge patch must.
\<close>

theorem deepcopy_isolated:
  assumes "external_copiers E" "k \<in> set (api_kinds E)" "wf_heap h" "has_type h (TPtr (ak_type k)) p"
    and "run_state (ak_DeepCopy k p) h = (r, h')"
  shows "(fst ` set ws \<subseteq> reach h' (TPtr (ak_type k)) r \<longrightarrow>
      view (write_all ws h') (TPtr (ak_type k)) p = view h (TPtr (ak_type k)) p) \<and>
    (fst ` set ws \<subseteq> {..<h_next h} \<longrightarrow>
      view (write_all ws h') (TPtr (ak_type k)) r = view h (TPtr (ak_type k)) p)"
proof -
  have "deep_copy (TPtr (ak_type k)) h p r h'"
    by (rule deep_copier.copies [OF external_copiers.api_kind_copies [OF assms(1,2)] assms(3-5)])
  from deep_copy_isolates [OF assms(3,4) this] show ?thesis by blast
qed

text \<open>
  \<^verbatim>\<open>DeepCopyObject\<close> returns a nil interface exactly for a nil receiver, never an interface
  that holds a nil pointer; otherwise it returns the copy under the receiver's kind.
\<close>

theorem deepcopy_object_kind:
  assumes "k \<in> set (api_kinds E)" "has_type h (TPtr (ak_type k)) p"
  shows "fst (run_state (ak_DeepCopyObject k p) h) =
    (if p = VNil then NilObject else Object (ak_name k) (fst (run_state (ak_DeepCopy k p) h))) \<and>
    (fst (run_state (ak_DeepCopy k p) h) = VNil \<longleftrightarrow> p = VNil)"
proof -
  have ptr: "fst (run_state (new_ptr c p) h) = VNil \<longleftrightarrow> p = VNil" for c
    using assms(2) by (auto simp: new_ptr_def split: gval.splits option.splits gobj.splits prod.splits)
  have "\<exists>c. ak_DeepCopy k = new_ptr c" using assms(1) by (auto simp: api_kinds_def deepcopy_defs)
  then obtain c where c: "ak_DeepCopy k = new_ptr c" ..
  have "run_state (ak_DeepCopyObject k p) h = (let (c, h') = run_state (ak_DeepCopy k p) h in
      (if c \<noteq> VNil then Object (ak_name k) c else NilObject, h'))"
    using assms(1) by (auto simp: api_kinds_def deepcopy_object_defs split: prod.splits)
  then show ?thesis using ptr [of c] by (auto simp: c split: prod.splits)
qed

section \<open>A cell in memory\<close>

text \<open>
  Packages whose types have some of the fields of the real ones, copied by their types; maps are
  enumerated from the end.
\<close>

definition flat_externals :: externals where
  "flat_externals = \<lparr>x_layout = (\<lambda>_. TString), x_copy = (\<lambda>_. ret), x_range = rev\<rparr>"

definition package_layout :: "string \<Rightarrow> gtype" where
  "package_layout n =
     (if n = ''ObjectMeta'' then TStruct [(''Name'', TString), (''Labels'', TMap TString), (''Finalizers'', TSlice TString)]
      else if n = ''Condition'' then TStruct [(''Type'', TString), (''Status'', TString)]
      else if n = ''Quantity'' then TStruct [(''i'', TInt 64)]
      else TString)"

definition package_externals :: externals where
  "package_externals = \<lparr>x_layout = package_layout, x_copy = (\<lambda>n. copy_value flat_externals (package_layout n)),
     x_range = rev\<rparr>"

interpretation flat_packages: external_copiers flat_externals
  by (rule external_copiers.intro) (simp_all add: flat_externals_def flat_copies)

interpretation packages: external_copiers package_externals
proof (rule external_copiers.intro)
  fix n
  have "laid_out flat_externals (package_layout n)" by (simp add: package_layout_def)
  from copy_value_copies(1) [OF flat_packages.external_copiers_axioms this]
  show "deep_copier (x_layout package_externals n) (x_copy package_externals n)"
    by (simp add: package_externals_def)
qed (simp add: package_externals_def)

abbreviation struct :: "(string \<times> gval) list \<Rightarrow> gval" where
  "struct fs \<equiv> VStruct (map_of fs)"

text \<open>The cell is at address 0; its labels and its workload selector are one map.\<close>

definition example_heap :: heap where
  "example_heap = \<lparr>h_next = 5, h_mem = [
     0 \<mapsto> OVal (struct [
       (''TypeMeta'', struct [(''Kind'', VString ''Cell''), (''APIVersion'', VString ''v1alpha1'')]),
       (''ObjectMeta'', struct [(''Name'', VString ''payments''), (''Labels'', VRef 1), (''Finalizers'', VNil)]),
       (''Spec'', struct [
          (''Namespace'', VString ''ns''),
          (''Entrypoint'', struct [(''ServiceName'', VString ''svc''), (''Port'', VInt 80), (''TargetPort'', VRef 2),
             (''Protocol'', VString ''TCP''), (''Type'', VString [])]),
          (''WorkloadSelector'', VRef 1), (''State'', VString []), (''NamespaceLabels'', VNil),
          (''NamespaceAnnotations'', VNil), (''ServiceLabels'', VNil), (''ServiceAnnotations'', VNil),
          (''TearDownOnDelete'', VBool True), (''Policies'', VRef 4)]),
       (''Status'', struct [
          (''ObservedGeneration'', VInt 1), (''Namespace'', VString []), (''EntrypointService'', VString []),
          (''OperationalState'', VString []), (''AvailableEndpoints'', VInt 0), (''Conditions'', VSlice 3 1 1)])]),
     1 \<mapsto> OMap [(''app'', VString ''pay''), (''tier'', VString ''a'')],
     2 \<mapsto> OVal (VInt 8080),
     3 \<mapsto> OArray [VNil, struct [(''Type'', VString ''Ready''), (''Status'', VString ''True'')]],
     4 \<mapsto> OVal (struct [(''ResourceQuota'', VNil), (''LimitRange'', VNil), (''NetworkPolicy'', VNil)])]\<rparr>"

definition cell_kind :: api_kind where
  "cell_kind = \<lparr>ak_name = ''Cell'', ak_type = Cell_type package_externals, ak_DeepCopy = Cell_DeepCopy package_externals,
     ak_DeepCopyObject = Cell_DeepCopyObject package_externals\<rparr>"

lemma example_typed:
  "cell_kind \<in> set (api_kinds package_externals)" "wf_heap example_heap"
  "has_type example_heap (TPtr (ak_type cell_kind)) (VRef 0)"
proof -
  show "cell_kind \<in> set (api_kinds package_externals)" by (simp add: cell_kind_def api_kinds_def)
  show "wf_heap example_heap" by (simp add: wf_heap_def example_heap_def)
  show "has_type example_heap (TPtr (ak_type cell_kind)) (VRef 0)"
    by (simp add: cell_kind_def layout_defs TypeMeta_type_def package_externals_def package_layout_def example_heap_def)
qed

theorem deepcopy_complete_witness:
  "cell_kind \<in> set (api_kinds package_externals) \<and>
   Cell_DeepCopy package_externals = copy_value package_externals (TPtr (Cell_type package_externals))"
  using deepcopy_complete [OF example_typed(1)] example_typed(1) by (simp add: cell_kind_def)

text \<open>The copy starts at the first free address; a write to the copied labels stays there.\<close>

lemma example_copy: "fst (run_state (Cell_DeepCopy package_externals (VRef 0)) example_heap) = VRef 5"
  by (auto simp: Cell_DeepCopy_def new_ptr_def example_heap_def split: prod.splits)

theorem deepcopy_faithful_witness:
  "let h' = snd (run_state (Cell_DeepCopy package_externals (VRef 0)) example_heap); t = TPtr (Cell_type package_externals) in
   has_type h' t (VRef 5) \<and> view h' t (VRef 5) = view example_heap t (VRef 0) \<and> reach h' t (VRef 5) \<inter> reach h' t (VRef 0) = {}"
proof -
  have "run_state (ak_DeepCopy cell_kind (VRef 0)) example_heap =
      (VRef 5, snd (run_state (Cell_DeepCopy package_externals (VRef 0)) example_heap))"
    by (simp add: cell_kind_def prod_eq_iff example_copy)
  from deepcopy_faithful [OF packages.external_copiers_axioms example_typed this] show ?thesis
    by (simp add: Let_def cell_kind_def)
qed

theorem deepcopy_isolated_witness:
  "let h' = snd (run_state (Cell_DeepCopy package_externals (VRef 0)) example_heap); t = TPtr (Cell_type package_externals) in
   view (write_all [(1, OMap [(''app'', VString ''other'')]), (2, OVal (VInt 1))] h') t (VRef 5) = view example_heap t (VRef 0)"
proof -
  have "run_state (ak_DeepCopy cell_kind (VRef 0)) example_heap =
      (VRef 5, snd (run_state (Cell_DeepCopy package_externals (VRef 0)) example_heap))"
    by (simp add: cell_kind_def prod_eq_iff example_copy)
  note copy = deepcopy_isolated [OF packages.external_copiers_axioms example_typed this,
      of "[(1, OMap [(''app'', VString ''other'')]), (2, OVal (VInt 1))]"]
  have "h_next example_heap = 5" by (simp add: example_heap_def)
  with conjunct2 [OF copy] show ?thesis by (simp add: Let_def cell_kind_def)
qed

theorem deepcopy_object_kind_witness:
  "fst (run_state (Cell_DeepCopyObject package_externals (VRef 0)) example_heap) = Object ''Cell'' (VRef 5)"
  using deepcopy_object_kind [OF example_typed(1,3)] by (simp add: cell_kind_def example_copy)

end
