(* ===== verification/Flags.thy ===== *)
theory Flags
  imports Prelude
begin

text \<open>
  The command line of the operator: the flags \<^verbatim>\<open>cmd/main.go\<close> declares, with their defaults,
  and the loop of \<^verbatim>\<open>flag.Parse\<close> of the Go standard library that fills them in. The libraries
  the operator links (the logger and the client configuration) declare further flags on the
  same command line; they are an argument.
\<close>

section \<open>The flags\<close>

record flags =
  metricsAddr :: string
  metricsCertPath :: string
  metricsCertName :: string
  metricsCertKey :: string
  webhookCertPath :: string
  webhookCertName :: string
  webhookCertKey :: string
  enableLeaderElection :: bool
  probeAddr :: string
  secureMetrics :: bool
  enableHTTP2 :: bool
  libraryFlags :: "(string \<times> string) list"

definition default_flags :: flags where
  "default_flags =
     \<lparr>metricsAddr = ''0'', metricsCertPath = [], metricsCertName = ''tls.crt'', metricsCertKey = ''tls.key'',
      webhookCertPath = [], webhookCertName = ''tls.crt'', webhookCertKey = ''tls.key'',
      enableLeaderElection = False, probeAddr = '':8081'', secureMetrics = True, enableHTTP2 = False,
      libraryFlags = []\<rparr>"

text \<open>
  A flag is a variable of type string or boolean; of a library flag it is known whether it is
  boolean and which values it accepts.
\<close>

datatype flag = StringVar "string \<Rightarrow> flags \<Rightarrow> flags" | BoolVar "bool \<Rightarrow> flags \<Rightarrow> flags" | LibraryVar bool "string \<Rightarrow> bool"

definition own_flags :: "(string \<times> flag) list" where
  "own_flags =
     [(''metrics-bind-address'', StringVar (\<lambda>v f. f\<lparr>metricsAddr := v\<rparr>)),
      (''health-probe-bind-address'', StringVar (\<lambda>v f. f\<lparr>probeAddr := v\<rparr>)),
      (''leader-elect'', BoolVar (\<lambda>v f. f\<lparr>enableLeaderElection := v\<rparr>)),
      (''metrics-secure'', BoolVar (\<lambda>v f. f\<lparr>secureMetrics := v\<rparr>)),
      (''webhook-cert-path'', StringVar (\<lambda>v f. f\<lparr>webhookCertPath := v\<rparr>)),
      (''webhook-cert-name'', StringVar (\<lambda>v f. f\<lparr>webhookCertName := v\<rparr>)),
      (''webhook-cert-key'', StringVar (\<lambda>v f. f\<lparr>webhookCertKey := v\<rparr>)),
      (''metrics-cert-path'', StringVar (\<lambda>v f. f\<lparr>metricsCertPath := v\<rparr>)),
      (''metrics-cert-name'', StringVar (\<lambda>v f. f\<lparr>metricsCertName := v\<rparr>)),
      (''metrics-cert-key'', StringVar (\<lambda>v f. f\<lparr>metricsCertKey := v\<rparr>)),
      (''enable-http2'', BoolVar (\<lambda>v f. f\<lparr>enableHTTP2 := v\<rparr>))]"

type_synonym library_flags = "string \<Rightarrow> (bool \<times> (string \<Rightarrow> bool)) option"

definition formal :: "library_flags \<Rightarrow> string \<Rightarrow> flag option" where
  "formal library name =
     (case map_of own_flags name of Some fl \<Rightarrow> Some fl
      | None \<Rightarrow> map_option (\<lambda>(is_bool, accepts). LibraryVar is_bool accepts) (library name))"

fun is_bool_flag :: "flag \<Rightarrow> bool" where
  "is_bool_flag (StringVar s) = False"
| "is_bool_flag (BoolVar s) = True"
| "is_bool_flag (LibraryVar b ok) = b"

section \<open>Package flag\<close>

text \<open>\<^verbatim>\<open>strconv.ParseBool\<close>.\<close>

definition ParseBool :: "string \<Rightarrow> bool option" where
  "ParseBool s =
     (if s \<in> {''1'', ''t'', ''T'', ''true'', ''TRUE'', ''True''} then Some True
      else if s \<in> {''0'', ''f'', ''F'', ''false'', ''FALSE'', ''False''} then Some False
      else None)"

fun set_flag :: "string \<Rightarrow> flag \<Rightarrow> string \<Rightarrow> flags \<Rightarrow> flags option" where
  "set_flag name (StringVar s) v f = Some (s v f)"
| "set_flag name (BoolVar s) v f = (case ParseBool v of None \<Rightarrow> None | Some b \<Rightarrow> Some (s b f))"
| "set_flag name (LibraryVar b ok) v f = (if ok v then Some (f\<lparr>libraryFlags := libraryFlags f @ [(name, v)]\<rparr>) else None)"

datatype flag_error = ErrHelp | BadSyntax string | NotDefined string | NeedsArgument string | InvalidValue string string

text \<open>A name may carry its value behind an equals sign, which is not its first character.\<close>

definition split_value :: "string \<Rightarrow> string \<times> string option" where
  "split_value name =
     (case name of [] \<Rightarrow> ([], None)
      | c # cs \<Rightarrow> (c # takeWhile (\<lambda>x. x \<noteq> CHR ''='') cs,
          case dropWhile (\<lambda>x. x \<noteq> CHR ''='') cs of [] \<Rightarrow> None | _ # v \<Rightarrow> Some v))"

definition apply_flag :: "string \<Rightarrow> flag \<Rightarrow> string \<Rightarrow> string list \<Rightarrow> flags \<Rightarrow> flag_error + bool \<times> string list \<times> flags" where
  "apply_flag name fl v args f =
     (case set_flag name fl v f of None \<Rightarrow> Inl (InvalidValue name v) | Some f' \<Rightarrow> Inr (True, args, f'))"

text \<open>
  \<^verbatim>\<open>parseOne\<close>: whether a flag was seen, what is left of the arguments, and the flags.
\<close>

definition parseOne :: "library_flags \<Rightarrow> string list \<Rightarrow> flags \<Rightarrow> flag_error + bool \<times> string list \<times> flags" where
  "parseOne library args f =
     (case args of [] \<Rightarrow> Inr (False, args, f)
      | s # rest \<Rightarrow>
          if length s < 2 \<or> s ! 0 \<noteq> CHR ''-'' then Inr (False, args, f)
          else if s = ''--'' then Inr (False, rest, f)
          else
            let name = drop (if s ! 1 = CHR ''-'' then 2 else 1) s in
            if name = [] \<or> name ! 0 = CHR ''-'' \<or> name ! 0 = CHR ''='' then Inl (BadSyntax s)
            else
              let (n, value) = split_value name in
              (case formal library n of
                 None \<Rightarrow> if n = ''help'' \<or> n = ''h'' then Inl ErrHelp else Inl (NotDefined n)
               | Some fl \<Rightarrow>
                   if is_bool_flag fl
                   then apply_flag n fl (case value of None \<Rightarrow> ''true'' | Some v \<Rightarrow> v) rest f
                   else (case value of Some v \<Rightarrow> apply_flag n fl v rest f
                     | None \<Rightarrow> (case rest of [] \<Rightarrow> Inl (NeedsArgument n)
                         | v # rest' \<Rightarrow> apply_flag n fl v rest' f))))"

text \<open>
  \<^verbatim>\<open>Parse\<close> of Go's package \<^verbatim>\<open>flag\<close>, which \<^verbatim>\<open>main\<close> calls: the loop around
  \<^verbatim>\<open>parseOne\<close>, which goes on while flags are seen. Not returning is the value \<open>None\<close>.
\<close>

partial_function (option) flag_Parse ::
    "library_flags \<Rightarrow> string list \<Rightarrow> flags \<Rightarrow> (flag_error + string list \<times> flags) option" where
  "flag_Parse library args f =
     (case parseOne library args f of
        Inl err \<Rightarrow> Some (Inl err)
      | Inr (seen, args', f') \<Rightarrow> if seen then flag_Parse library args' f' else Some (Inr (args', f')))"

section \<open>Properties\<close>

lemma parseOne_consumes:
  assumes "parseOne library args f = Inr (True, args', f')"
  shows "length args' < length args"
proof -
  have "apply_flag n fl v as g = Inr (True, args', f') \<Longrightarrow> args' = as" for n fl v as g
    by (simp add: apply_flag_def split: option.splits)
  with assms show ?thesis
    by (fastforce simp: parseOne_def Let_def split: list.splits if_splits prod.splits option.splits)
qed

lemma parseOne_suffix:
  assumes "parseOne library args f = Inr (seen, args', f')"
  shows "suffix args' args"
proof -
  have "apply_flag n fl v as g = Inr (seen, args', f') \<Longrightarrow> args' = as" for n fl v as g
    by (simp add: apply_flag_def split: option.splits)
  with assms show ?thesis
    by (fastforce simp: parseOne_def Let_def suffix_def split: list.splits if_splits prod.splits option.splits)
qed

text \<open>The loop ends: it returns an error, or the flags and an end of the arguments that was not read.\<close>

lemma flag_Parse_returns:
  "\<exists>r. flag_Parse library args f = Some r \<and> (\<forall>rest f'. r = Inr (rest, f') \<longrightarrow> suffix rest args)"
proof (induction args arbitrary: f rule: length_induct)
  case (1 args)
  show ?case
  proof (cases "parseOne library args f")
    case (Inl err)
    then show ?thesis by (simp add: flag_Parse.simps [of library args f])
  next
    case (Inr t)
    then obtain seen args' f' where t: "parseOne library args f = Inr (seen, args', f')" by (cases t) auto
    note suf = parseOne_suffix [OF t]
    show ?thesis
    proof (cases seen)
      case True
      with 1 parseOne_consumes [of library args f args' f'] t obtain r where
        "flag_Parse library args' f' = Some r" "\<forall>rest f''. r = Inr (rest, f'') \<longrightarrow> suffix rest args'" by metis
      with t True suf show ?thesis
        by (auto simp: flag_Parse.simps [of library args f] intro: suffix_order.trans)
    qed (use t suf in \<open>simp add: flag_Parse.simps [of library args f]\<close>)
  qed
qed

text \<open>Writing the flags as arguments, each with its value behind an equals sign.\<close>

definition show_bool :: "bool \<Rightarrow> string" where
  "show_bool b = (if b then ''true'' else ''false'')"

definition flag_args :: "flags \<Rightarrow> string list" where
  "flag_args f =
     [''--metrics-bind-address='' @ metricsAddr f,
      ''--health-probe-bind-address='' @ probeAddr f,
      ''--leader-elect='' @ show_bool (enableLeaderElection f),
      ''--metrics-secure='' @ show_bool (secureMetrics f),
      ''--webhook-cert-path='' @ webhookCertPath f,
      ''--webhook-cert-name='' @ webhookCertName f,
      ''--webhook-cert-key='' @ webhookCertKey f,
      ''--metrics-cert-path='' @ metricsCertPath f,
      ''--metrics-cert-name='' @ metricsCertName f,
      ''--metrics-cert-key='' @ metricsCertKey f,
      ''--enable-http2='' @ show_bool (enableHTTP2 f)]"

lemma parse_bool_show [simp]: "ParseBool (show_bool b) = Some b"
  by (simp add: ParseBool_def show_bool_def)

text \<open>An argument that names an own flag and its value sets this flag.\<close>

lemma parse_setting:
  assumes "name \<noteq> []" "name ! 0 \<noteq> CHR ''-''" "name ! 0 \<noteq> CHR ''=''" "CHR ''='' \<notin> set name"
    and "map_of own_flags name = Some fl" "set_flag name fl v f = Some f'"
  shows "flag_Parse library ((''--'' @ name @ CHR ''='' # v) # args) f = flag_Parse library args f'"
proof -
  have "split_value (name @ CHR ''='' # v) = (name, Some v)"
    using assms(1,4) by (cases name) (auto simp: split_value_def takeWhile_tail dropWhile_append)
  then have "parseOne library ((''--'' @ name @ CHR ''='' # v) # args) f = Inr (True, args, f')"
    using assms by (cases name) (auto simp: parseOne_def formal_def apply_flag_def)
  then show ?thesis by (subst flag_Parse.simps) simp
qed

lemma parse_settings:
  "flag_Parse library ((''--metrics-bind-address='' @ v) # args) f = flag_Parse library args (f\<lparr>metricsAddr := v\<rparr>)"
  "flag_Parse library ((''--health-probe-bind-address='' @ v) # args) f = flag_Parse library args (f\<lparr>probeAddr := v\<rparr>)"
  "flag_Parse library ((''--webhook-cert-path='' @ v) # args) f = flag_Parse library args (f\<lparr>webhookCertPath := v\<rparr>)"
  "flag_Parse library ((''--webhook-cert-name='' @ v) # args) f = flag_Parse library args (f\<lparr>webhookCertName := v\<rparr>)"
  "flag_Parse library ((''--webhook-cert-key='' @ v) # args) f = flag_Parse library args (f\<lparr>webhookCertKey := v\<rparr>)"
  "flag_Parse library ((''--metrics-cert-path='' @ v) # args) f = flag_Parse library args (f\<lparr>metricsCertPath := v\<rparr>)"
  "flag_Parse library ((''--metrics-cert-name='' @ v) # args) f = flag_Parse library args (f\<lparr>metricsCertName := v\<rparr>)"
  "flag_Parse library ((''--metrics-cert-key='' @ v) # args) f = flag_Parse library args (f\<lparr>metricsCertKey := v\<rparr>)"
  "flag_Parse library ((''--leader-elect='' @ show_bool b) # args) f = flag_Parse library args (f\<lparr>enableLeaderElection := b\<rparr>)"
  "flag_Parse library ((''--metrics-secure='' @ show_bool b) # args) f = flag_Parse library args (f\<lparr>secureMetrics := b\<rparr>)"
  "flag_Parse library ((''--enable-http2='' @ show_bool b) # args) f = flag_Parse library args (f\<lparr>enableHTTP2 := b\<rparr>)"
  subgoal using parse_setting [of "''metrics-bind-address''" _ v f _ library args] by (simp add: own_flags_def)
  subgoal using parse_setting [of "''health-probe-bind-address''" _ v f _ library args] by (simp add: own_flags_def)
  subgoal using parse_setting [of "''webhook-cert-path''" _ v f _ library args] by (simp add: own_flags_def)
  subgoal using parse_setting [of "''webhook-cert-name''" _ v f _ library args] by (simp add: own_flags_def)
  subgoal using parse_setting [of "''webhook-cert-key''" _ v f _ library args] by (simp add: own_flags_def)
  subgoal using parse_setting [of "''metrics-cert-path''" _ v f _ library args] by (simp add: own_flags_def)
  subgoal using parse_setting [of "''metrics-cert-name''" _ v f _ library args] by (simp add: own_flags_def)
  subgoal using parse_setting [of "''metrics-cert-key''" _ v f _ library args] by (simp add: own_flags_def)
  subgoal using parse_setting [of "''leader-elect''" _ "show_bool b" f _ library args] by (simp add: own_flags_def)
  subgoal using parse_setting [of "''metrics-secure''" _ "show_bool b" f _ library args] by (simp add: own_flags_def)
  subgoal using parse_setting [of "''enable-http2''" _ "show_bool b" f _ library args] by (simp add: own_flags_def)
  done

text \<open>
  C34: the flags survive the command line: whatever values they have, written as arguments they
  are read back as they were, no argument is left, and the values they had before do not matter.
\<close>

theorem flags_roundtrip:
  "flag_Parse library (flag_args f) g = Some (Inr ([], f\<lparr>libraryFlags := libraryFlags g\<rparr>))"
proof -
  have "flag_Parse library [] h = Some (Inr ([], h))" for h
    by (subst flag_Parse.simps) (simp add: parseOne_def)
  then show ?thesis
    unfolding flag_args_def by (simp only: parse_settings) simp
qed

section \<open>Flags that are not named keep their defaults\<close>

text \<open>An argument that names a flag, with one or two dashes and with or without a value.\<close>

definition mentions :: "string \<Rightarrow> string \<Rightarrow> bool" where
  "mentions n a \<longleftrightarrow> (\<exists>dash\<in>{''-'', ''--''}. a = dash @ n \<or> (\<exists>v. a = dash @ n @ CHR ''='' # v))"

lemma split_value_name:
  assumes "split_value name = (n, val)"
  shows "name = n \<or> (\<exists>v. name = n @ CHR ''='' # v)"
proof (cases name)
  case (Cons c cs)
  with assms have n: "n = c # takeWhile (\<lambda>x. x \<noteq> CHR ''='') cs" by (simp add: split_value_def)
  have "cs = takeWhile (\<lambda>x. x \<noteq> CHR ''='') cs @ dropWhile (\<lambda>x. x \<noteq> CHR ''='') cs" by simp
  moreover have "dropWhile (\<lambda>x. x \<noteq> CHR ''='') cs = [] \<or> (\<exists>v. dropWhile (\<lambda>x. x \<noteq> CHR ''='') cs = CHR ''='' # v)"
    by (induction cs) auto
  ultimately show ?thesis using n Cons by (metis append_Cons append_Nil2)
qed (use assms in \<open>simp add: split_value_def\<close>)

lemma dashed:
  assumes "\<not> length s < 2" "s ! 0 = CHR ''-''"
  shows "s = (if s ! 1 = CHR ''-'' then ''--'' else ''-'') @ drop (if s ! 1 = CHR ''-'' then 2 else 1) s"
  using assms by (cases s; cases "tl s") auto

text \<open>A flag that is seen is named by the first argument, and only its variable changes.\<close>

lemma parseOne_seen:
  assumes "parseOne library args f = Inr (True, args', f')"
  obtains n fl v where "mentions n (hd args)" "args \<noteq> []" "set args' \<subseteq> set args" "formal library n = Some fl" "set_flag n fl v f = Some f'"
proof -
  from assms obtain s rest where args: "args = s # rest" by (cases args) (simp_all add: parseOne_def)
  let ?name = "drop (if s ! 1 = CHR ''-'' then 2 else 1) s"
  obtain n val where nv: "split_value ?name = (n, val)" by fastforce
  note unfolded = assms [unfolded parseOne_def args list.case Let_def nv]
  from unfolded have s: "\<not> length s < 2" "s ! 0 = CHR ''-''" by (auto split: if_splits)
  define dash where "dash = (if s ! 1 = CHR ''-'' then ''--'' else ''-'')"
  have dash: "dash \<in> {''-'', ''--''}" "s = dash @ ?name" unfolding dash_def using dashed [OF s] by auto
  have "s = dash @ n \<or> (\<exists>v. s = dash @ n @ CHR ''='' # v)"
    using split_value_name [OF nv] dash(2) by (metis append_assoc)
  with dash(1) have "mentions n s" unfolding mentions_def by blast
  moreover obtain fl where fl: "formal library n = Some fl"
    using unfolded by (auto split: if_splits option.splits)
  moreover obtain v where "set_flag n fl v f = Some f'" "set args' \<subseteq> set rest"
    using unfolded fl by (auto simp: apply_flag_def split: if_splits option.splits list.splits)
  ultimately show thesis by (intro that [of n fl v]) (auto simp: args)
qed

lemma set_flag_other:
  assumes "formal library n = Some fl" "set_flag n fl v f = Some f'"
  shows "n \<noteq> ''enable-http2'' \<Longrightarrow> enableHTTP2 f' = enableHTTP2 f"
    and "n \<noteq> ''metrics-secure'' \<Longrightarrow> secureMetrics f' = secureMetrics f"
    and "n \<noteq> ''leader-elect'' \<Longrightarrow> enableLeaderElection f' = enableLeaderElection f"
  using assms by (auto simp: formal_def own_flags_def split: if_splits option.splits)

lemma flag_Parse_other:
  assumes "\<And>n fl v f f'. formal library n = Some fl \<Longrightarrow> set_flag n fl v f = Some f' \<Longrightarrow> n \<noteq> m \<Longrightarrow> get f' = get f"
    and "flag_Parse library args f = Some (Inr (rest, f'))" "\<forall>a\<in>set args. \<not> mentions m a"
  shows "get f' = get f"
  using assms(2,3)
proof (induction args arbitrary: f rule: length_induct)
  case (1 args)
  note parse = 1(2) [unfolded flag_Parse.simps [of library args f]]
  show ?case
  proof (cases "parseOne library args f")
    case (Inr t)
    then obtain seen args1 f1 where t: "parseOne library args f = Inr (seen, args1, f1)" by (cases t) auto
    show ?thesis
    proof (cases seen)
      case True
      with t obtain n fl v where n: "mentions n (hd args)" "args \<noteq> []" "set args1 \<subseteq> set args" "formal library n = Some fl" "set_flag n fl v f = Some f1"
        using parseOne_seen [of library args f args1 f1] by metis
      have "n \<noteq> m" using n(1,2) 1(3) by auto
      then have "get f1 = get f" by (rule assms(1) [OF n(4,5)])
      moreover have "get f' = get f1"
        using 1(1,3) parse t True n(3) parseOne_consumes [of library args f args1 f1] by auto
      ultimately show ?thesis by simp
    next
      case False
      then have "f1 = f" using t by (auto simp: parseOne_def apply_flag_def Let_def split: list.splits if_splits option.splits prod.splits)
      with parse t False show ?thesis by simp
    qed
  qed (use parse in simp)
qed

end
