(* ===== verification/Wiring.thy ===== *)
theory Wiring
  imports RouterStatus ObjectStore
begin

text \<open>
  How the two controllers are wired to the cluster: the kinds of the API, the chains of
  \<^verbatim>\<open>For\<close>, \<^verbatim>\<open>Owns\<close> and \<^verbatim>\<open>Watches\<close> in the two \<^verbatim>\<open>SetupWithManager\<close> methods, and which
  requests an event of an object leads to. The workqueues and the informers belong to the
  manager library; what they do with an owned object, the requests for its controller, is an
  argument.
\<close>

section \<open>Kinds\<close>

record gvk =
  gvk_Group :: string
  gvk_Version :: string
  gvk_Kind :: string

abbreviation GVK :: "string \<Rightarrow> string \<Rightarrow> string \<Rightarrow> gvk" where
  "GVK g v k \<equiv> \<lparr>gvk_Group = g, gvk_Version = v, gvk_Kind = k\<rparr>"

record group_version =
  gv_Group :: string
  gv_Version :: string

definition GroupVersion :: group_version where
  "GroupVersion = \<lparr>gv_Group = ''cell.cellrouter.io'', gv_Version = ''v1alpha1''\<rparr>"

definition api_gvk :: "string \<Rightarrow> gvk" where
  "api_gvk kind = GVK (gv_Group GroupVersion) (gv_Version GroupVersion) kind"

text \<open>\<^verbatim>\<open>client.Object\<close>: a pointer to one of the types, which the map functions inspect.\<close>

datatype client_object =
    CellObj Cell | RouterObj CellRouter | PlacementObj CellPlacement
  | NamespaceObj Namespace | ServiceObj Service | QuotaObj ResourceQuota | LimitsObj LimitRange
  | PolicyObj NetworkPolicy | SliceObj EndpointSlice
  | GatewayObj Gateway | RouteObj HTTPRoute | GrantObj ReferenceGrant

fun object_gvk :: "client_object \<Rightarrow> gvk" where
  "object_gvk (CellObj x) = api_gvk ''Cell''"
| "object_gvk (RouterObj x) = api_gvk ''CellRouter''"
| "object_gvk (PlacementObj x) = api_gvk ''CellPlacement''"
| "object_gvk (NamespaceObj x) = GVK [] ''v1'' ''Namespace''"
| "object_gvk (ServiceObj x) = GVK [] ''v1'' ''Service''"
| "object_gvk (QuotaObj x) = GVK [] ''v1'' ''ResourceQuota''"
| "object_gvk (LimitsObj x) = GVK [] ''v1'' ''LimitRange''"
| "object_gvk (PolicyObj x) = GVK ''networking.k8s.io'' ''v1'' ''NetworkPolicy''"
| "object_gvk (SliceObj x) = GVK ''discovery.k8s.io'' ''v1'' ''EndpointSlice''"
| "object_gvk (GatewayObj x) = GVK ''gateway.networking.k8s.io'' ''v1'' ''Gateway''"
| "object_gvk (RouteObj x) = GVK ''gateway.networking.k8s.io'' ''v1'' ''HTTPRoute''"
| "object_gvk (GrantObj x) = GVK ''gateway.networking.k8s.io'' ''v1beta1'' ''ReferenceGrant''"

fun object_meta :: "client_object \<Rightarrow> ObjectMeta" where
  "object_meta (CellObj x) = cell_Meta x"
| "object_meta (RouterObj x) = router_Meta x"
| "object_meta (PlacementObj x) = placement_Meta x"
| "object_meta (NamespaceObj x) = ns_Meta x"
| "object_meta (ServiceObj x) = svc_Meta x"
| "object_meta (QuotaObj x) = quota_Meta x"
| "object_meta (LimitsObj x) = limits_Meta x"
| "object_meta (PolicyObj x) = netpol_Meta x"
| "object_meta (SliceObj x) = slice_Meta x"
| "object_meta (GatewayObj x) = gw_Meta x"
| "object_meta (RouteObj x) = route_Meta x"
| "object_meta (GrantObj x) = grant_Meta x"

text \<open>The type assertions of the map functions.\<close>

definition as_slice :: "client_object \<Rightarrow> EndpointSlice option" where
  "as_slice obj = (case obj of SliceObj s \<Rightarrow> Some s | _ \<Rightarrow> None)"

definition as_placement :: "client_object \<Rightarrow> CellPlacement option" where
  "as_placement obj = (case obj of PlacementObj p \<Rightarrow> Some p | _ \<Rightarrow> None)"

section \<open>The controllers\<close>

type_synonym request = "string \<times> string"

record 'w controller =
  ct_Name :: string
  ct_For :: gvk
  ct_Owns :: "gvk list"
  ct_Watches :: "(gvk \<times> (client_object \<Rightarrow> ('w, request list) state)) list"

definition cell_controller :: "'w kube \<Rightarrow> 'w controller" where
  "cell_controller K =
     \<lparr>ct_Name = ''cell'', ct_For = api_gvk ''Cell'',
      ct_Owns = [GVK [] ''v1'' ''Service'', GVK [] ''v1'' ''ResourceQuota'', GVK [] ''v1'' ''LimitRange'',
        GVK ''networking.k8s.io'' ''v1'' ''NetworkPolicy''],
      ct_Watches = [(GVK ''discovery.k8s.io'' ''v1'' ''EndpointSlice'',
        \<lambda>obj. requestsForEndpointSlice K (as_slice obj))]\<rparr>"

definition router_controller :: "'w kube \<Rightarrow> 'w controller" where
  "router_controller K =
     \<lparr>ct_Name = ''cellrouter'', ct_For = api_gvk ''CellRouter'',
      ct_Owns = [GVK ''gateway.networking.k8s.io'' ''v1'' ''Gateway'',
        GVK ''gateway.networking.k8s.io'' ''v1'' ''HTTPRoute'',
        GVK ''gateway.networking.k8s.io'' ''v1beta1'' ''ReferenceGrant''],
      ct_Watches = [(api_gvk ''Cell'', \<lambda>obj. requestsForCell K),
        (api_gvk ''CellPlacement'', \<lambda>obj. ret (requestsForPlacement (as_placement obj)))]\<rparr>"

text \<open>The kinds a controller asks the manager for.\<close>

definition watched_kinds :: "'w controller \<Rightarrow> gvk list" where
  "watched_kinds c = ct_For c # ct_Owns c @ map fst (ct_Watches c)"

section \<open>Requests of an event\<close>

text \<open>
  The key of the object itself, the requests for the controller of an owned object
  (\<open>owner_requests\<close>), and those of the map functions.
\<close>

fun watch_requests :: "client_object \<Rightarrow> (gvk \<times> (client_object \<Rightarrow> ('w, request list) state)) list \<Rightarrow> ('w, request list) state" where
  "watch_requests obj [] = ret []"
| "watch_requests obj ((kind, f) # ws) =
     (if kind = object_gvk obj
      then do { rs \<leftarrow> f obj; rest \<leftarrow> watch_requests obj ws; ret (rs @ rest) }
      else watch_requests obj ws)"

definition event_requests :: "(gvk \<Rightarrow> ObjectMeta \<Rightarrow> request list) \<Rightarrow> 'w controller \<Rightarrow> client_object \<Rightarrow> ('w, request list) state" where
  "event_requests owner_requests c obj = do {
     rs \<leftarrow> watch_requests obj (ct_Watches c);
     ret ((if object_gvk obj = ct_For c then [meta_key (object_meta obj)] else []) @
       (if object_gvk obj \<in> set (ct_Owns c) then owner_requests (ct_For c) (object_meta obj) else []) @ rs) }"

definition wakes :: "(gvk \<Rightarrow> ObjectMeta \<Rightarrow> request list) \<Rightarrow> 'w controller \<Rightarrow> 'w \<Rightarrow> client_object \<Rightarrow> request \<Rightarrow> bool" where
  "wakes owner_requests c w obj req \<longleftrightarrow> req \<in> set (fst (run_state (event_requests owner_requests c obj) w))"

text \<open>
  What the library documents of owned objects: the owner references that
  \<^verbatim>\<open>SetControllerReference\<close> wrote for an owner, a cluster-scoped object, lead to a request for
  this owner, whatever else the object holds when an event of it is delivered.
\<close>

definition owners_found :: "'w kube \<Rightarrow> (gvk \<Rightarrow> ObjectMeta \<Rightarrow> request list) \<Rightarrow> bool" where
  "owners_found K owner_requests \<longleftrightarrow>
     (\<forall>kind own m m' m''. k_SetControllerReference K (gvk_Kind kind) own m = Inr m' \<longrightarrow>
        om_OwnerReferences m'' = om_OwnerReferences m' \<longrightarrow> ([], om_Name own) \<in> set (owner_requests kind m''))"

lemma event_requests_run:
  "set (fst (run_state (event_requests Q c obj) w)) =
     (if object_gvk obj = ct_For c then {meta_key (object_meta obj)} else {}) \<union>
     (if object_gvk obj \<in> set (ct_Owns c) then set (Q (ct_For c) (object_meta obj)) else {}) \<union>
     set (fst (run_state (watch_requests obj (ct_Watches c)) w))"
  by (simp add: event_requests_def split: prod.splits)

text \<open>
  Neither controller watches namespaces: both write them, the deletion of a cell reads them, and no
  event of a namespace wakes a pass.
\<close>

lemma namespaces_not_watched:
  "\<not> wakes Q (cell_controller K) w (NamespaceObj ns) req" "\<not> wakes Q (router_controller K) w (NamespaceObj ns) req"
  by (simp_all add: wakes_def event_requests_run cell_controller_def router_controller_def api_gvk_def GroupVersion_def)

text \<open>
  The two library functions as they are documented: a controller reference is identified by
  kind and name, the first one of another object refuses, and the handler reads it back.
\<close>

definition upsert_controller :: "string \<Rightarrow> ObjectMeta \<Rightarrow> ObjectMeta \<Rightarrow> error + ObjectMeta" where
  "upsert_controller kind owner m =
     (let new = \<lparr>or_Kind = kind, or_Name = om_Name owner, or_UID = om_UID owner, or_Controller = Some True\<rparr>;
          same = (\<lambda>r. or_Kind r = kind \<and> or_Name r = om_Name owner) in
      if list_ex (\<lambda>r. or_Controller r = Some True \<and> \<not> same r) (om_OwnerReferences m)
      then Inl (ApiErr ''already owned by another controller'')
      else Inr (m\<lparr>om_OwnerReferences := filter (\<lambda>r. \<not> same r) (om_OwnerReferences m) @ [new]\<rparr>))"

definition controller_requests :: "gvk \<Rightarrow> ObjectMeta \<Rightarrow> request list" where
  "controller_requests kind m =
     map (\<lambda>r. ([], or_Name r)) (filter (\<lambda>r. or_Controller r = Some True \<and> or_Kind r = gvk_Kind kind) (om_OwnerReferences m))"

abbreviation owning_kube :: "cluster kube" where
  "owning_kube \<equiv> mem_kube\<lparr>k_SetControllerReference := upsert_controller\<rparr>"

lemma owning_kube_found: "owners_found owning_kube controller_requests"
proof -
  have "([], om_Name own) \<in> set (controller_requests kind m'')"
    if "upsert_controller (gvk_Kind kind) own m = Inr m'" "om_OwnerReferences m'' = om_OwnerReferences m'" for kind own m m' m''
  proof -
    have "\<lparr>or_Kind = gvk_Kind kind, or_Name = om_Name own, or_UID = om_UID own, or_Controller = Some True\<rparr>
        \<in> set (om_OwnerReferences m'')"
      using that by (auto simp: upsert_controller_def Let_def split: if_splits)
    then show ?thesis by (force simp: controller_requests_def)
  qed
  then show ?thesis by (auto simp: owners_found_def)
qed

text \<open>
  C20: a change of the objects a pass takes its decisions from leads back to it. A change of an
  endpoint slice wakes every listed cell whose service it belongs to, a change of a placement
  wakes the router whose pass reads it, a change of any cell wakes every listed router, and a
  change of a cell or router itself wakes its own pass. Namespaces, which a deletion reads, are
  not watched.
\<close>

theorem read_objects_wake:
  assumes "run_state (rc_List (k_cells K) None []) w = (Inr cells, w1)"
    and "run_state (rc_List (k_routers K) None []) w = (Inr routers, w2)"
    and "\<forall>c\<in>set cells. om_Namespace (cell_Meta c) = []" "\<forall>r\<in>set routers. om_Namespace (router_Meta r) = []"
  shows "(\<forall>c\<in>set cells. wakes Q (cell_controller K) w (CellObj c) ([], cell_Name c) \<and>
      (\<forall>s. om_Namespace (slice_Meta s) = effectiveNamespace c \<and> ep_ServiceName (cs_Entrypoint (cell_Spec c)) \<noteq> [] \<and>
         gomap_lookup (om_Labels (slice_Meta s)) LabelServiceName = Some (ep_ServiceName (cs_Entrypoint (cell_Spec c))) \<longrightarrow>
         wakes Q (cell_controller K) w (SliceObj s) ([], cell_Name c))) \<and>
    (\<forall>r\<in>set routers. wakes Q (router_controller K) w (RouterObj r) ([], router_Name r) \<and>
      (\<forall>c. wakes Q (router_controller K) w (CellObj c) ([], router_Name r)) \<and>
      (\<forall>ps. \<forall>p\<in>set (router_placements r ps). router_Name r \<noteq> [] \<longrightarrow>
         wakes Q (router_controller K) w (PlacementObj p) ([], router_Name r)))"
proof (intro conjI ballI allI impI)
  fix c and s :: EndpointSlice
  assume "c \<in> set cells" "om_Namespace (slice_Meta s) = effectiveNamespace c \<and> ep_ServiceName (cs_Entrypoint (cell_Spec c)) \<noteq> [] \<and>
         gomap_lookup (om_Labels (slice_Meta s)) LabelServiceName = Some (ep_ServiceName (cs_Entrypoint (cell_Spec c)))"
  then show "wakes Q (cell_controller K) w (SliceObj s) ([], cell_Name c)"
    using assms(1) by (auto simp: wakes_def event_requests_run cell_controller_def api_gvk_def as_slice_def requestsForEndpointSlice_def gomap_index_def)
qed (use assms in \<open>auto simp: wakes_def event_requests_run cell_controller_def router_controller_def api_gvk_def GroupVersion_def
    as_placement_def requestsForPlacement_def requestsForCell_def router_placements_def\<close>)

definition watched_cluster :: cluster where
  "watched_cluster = example_cluster\<lparr>db_routers := [routed_router]\<rparr>"

theorem read_objects_wake_witness:
  "wakes controller_requests (cell_controller mem_kube) watched_cluster (SliceObj example_slice) ([], ''alpha'') \<and>
   wakes controller_requests (router_controller mem_kube) watched_cluster (CellObj example_cell) ([], router_Name routed_router)"
proof -
  have lists: "run_state (rc_List (k_cells mem_kube) None []) watched_cluster = (Inr [example_cell], watched_cluster)"
    "run_state (rc_List (k_routers mem_kube) None []) watched_cluster = (Inr [routed_router], watched_cluster)"
    by (simp_all add: mem_kube_def mem_client_def has_labels_def watched_cluster_def example_cluster_def)
  have "\<forall>c\<in>set [example_cell]. om_Namespace (cell_Meta c) = []" "\<forall>r\<in>set [routed_router]. om_Namespace (router_Meta r) = []"
    by (simp_all add: example_cell_def routed_router_def example_router_def NewMeta_def)
  from read_objects_wake [OF lists this, of controller_requests] show ?thesis
    by (auto simp: example_cell_def example_slice_def effectiveNamespace_def NewMeta_def)
qed

end
