(* ===== verification/Startup.thy ===== *)
theory Startup
  imports Flags Wiring
begin

text \<open>
  The process: the registration of the API types with the scheme
  (\<^verbatim>\<open>api/v1alpha1/groupversion_info.go\<close> and the \<^verbatim>\<open>init\<close> functions beside the types), and
  \<^verbatim>\<open>cmd/main.go\<close>, which reads the flags, builds the options of the two servers and of the
  manager, sets up the two controllers and the probes, and starts the manager. The manager
  library, the packages that register their own types and the logger are arguments; a process
  ends with an exit code.
\<close>

section \<open>The scheme\<close>

type_synonym scheme = "gvk list"

text \<open>The \<^verbatim>\<open>init\<close> functions of the package, in the order of the files.\<close>

definition init_cell_types :: "string list \<Rightarrow> string list" where
  "init_cell_types registered = registered @ [''Cell'', ''CellList'']"

definition init_cellplacement_types :: "string list \<Rightarrow> string list" where
  "init_cellplacement_types registered = registered @ [''CellPlacement'', ''CellPlacementList'']"

definition init_cellrouter_types :: "string list \<Rightarrow> string list" where
  "init_cellrouter_types registered = registered @ [''CellRouter'', ''CellRouterList'']"

definition SchemeBuilder :: "string list" where
  "SchemeBuilder = init_cellrouter_types (init_cellplacement_types (init_cell_types []))"

text \<open>
  The packages that add types to a scheme: the scheme builder of the library for a group version
  and a list of types, and the \<^verbatim>\<open>AddToScheme\<close> functions of client-go and of Gateway API.
\<close>

record scheme_packages =
  sp_Builder_AddToScheme :: "group_version \<Rightarrow> string list \<Rightarrow> scheme \<Rightarrow> error + scheme"
  sp_clientgoscheme :: "scheme \<Rightarrow> error + scheme"
  sp_gatewayv1 :: "scheme \<Rightarrow> error + scheme"
  sp_gatewayv1beta1 :: "scheme \<Rightarrow> error + scheme"

definition AddToScheme :: "scheme_packages \<Rightarrow> scheme \<Rightarrow> error + scheme" where
  "AddToScheme P s = sp_Builder_AddToScheme P GroupVersion SchemeBuilder s"

text \<open>\<^verbatim>\<open>init\<close> of \<^verbatim>\<open>cmd/main.go\<close>; the error of a registration is a panic (\<^verbatim>\<open>utilruntime.Must\<close>).\<close>

definition init_scheme :: "scheme_packages \<Rightarrow> error + scheme" where
  "init_scheme P =
     (case sp_clientgoscheme P [] of Inl err \<Rightarrow> Inl err
      | Inr s1 \<Rightarrow> (case AddToScheme P s1 of Inl err \<Rightarrow> Inl err
      | Inr s2 \<Rightarrow> (case sp_gatewayv1 P s2 of Inl err \<Rightarrow> Inl err
      | Inr s3 \<Rightarrow> sp_gatewayv1beta1 P s3)))"

section \<open>Options of the servers\<close>

text \<open>The part of \<^verbatim>\<open>tls.Config\<close> that is set.\<close>

record tls_config =
  NextProtos :: "string list"

definition disableHTTP2 :: "tls_config \<Rightarrow> tls_config" where
  "disableHTTP2 c = c\<lparr>NextProtos := [''http/1.1'']\<rparr>"

definition tlsOpts :: "flags \<Rightarrow> (tls_config \<Rightarrow> tls_config) list" where
  "tlsOpts f = (if \<not> enableHTTP2 f then [] @ [disableHTTP2] else [])"

record webhook_options =
  wo_TLSOpts :: "(tls_config \<Rightarrow> tls_config) list"
  wo_CertDir :: string
  wo_CertName :: string
  wo_KeyName :: string

definition webhookServerOptions :: "flags \<Rightarrow> webhook_options" where
  "webhookServerOptions f =
     (let opts = \<lparr>wo_TLSOpts = tlsOpts f, wo_CertDir = [], wo_CertName = [], wo_KeyName = []\<rparr> in
      if length (webhookCertPath f) > 0
      then opts\<lparr>wo_CertDir := webhookCertPath f, wo_CertName := webhookCertName f, wo_KeyName := webhookCertKey f\<rparr>
      else opts)"

datatype filter_provider = WithAuthenticationAndAuthorization

record metrics_options =
  mo_BindAddress :: string
  mo_SecureServing :: bool
  mo_TLSOpts :: "(tls_config \<Rightarrow> tls_config) list"
  mo_FilterProvider :: "filter_provider option"
  mo_CertDir :: string
  mo_CertName :: string
  mo_KeyName :: string

definition metricsServerOptions :: "flags \<Rightarrow> metrics_options" where
  "metricsServerOptions f =
     (let opts = \<lparr>mo_BindAddress = metricsAddr f, mo_SecureServing = secureMetrics f, mo_TLSOpts = tlsOpts f,
            mo_FilterProvider = None, mo_CertDir = [], mo_CertName = [], mo_KeyName = []\<rparr>;
          opts = (if secureMetrics f then opts\<lparr>mo_FilterProvider := Some WithAuthenticationAndAuthorization\<rparr> else opts) in
      if length (metricsCertPath f) > 0
      then opts\<lparr>mo_CertDir := metricsCertPath f, mo_CertName := metricsCertName f, mo_KeyName := metricsCertKey f\<rparr>
      else opts)"

record manager_options =
  mg_Scheme :: scheme
  mg_Metrics :: metrics_options
  mg_WebhookServer :: webhook_options
  mg_HealthProbeBindAddress :: string
  mg_LeaderElection :: bool
  mg_LeaderElectionID :: string

definition manager_options_of :: "scheme \<Rightarrow> flags \<Rightarrow> manager_options" where
  "manager_options_of s f =
     \<lparr>mg_Scheme = s, mg_Metrics = metricsServerOptions f, mg_WebhookServer = webhookServerOptions f,
      mg_HealthProbeBindAddress = probeAddr f, mg_LeaderElection = enableLeaderElection f,
      mg_LeaderElectionID = ''32ca8905.cellrouter.io''\<rparr>"

section \<open>main\<close>

record 'w manager_api =
  ma_GetConfigOrDie :: "('w, error option) state"
  ma_NewManager :: "manager_options \<Rightarrow> ('w, error option) state"
  ma_GetEventRecorderFor :: "string \<Rightarrow> string \<Rightarrow> string \<Rightarrow> string \<Rightarrow> ('w, unit) state"
  ma_Complete :: "'w controller \<Rightarrow> ('w, error option) state"
  ma_AddHealthzCheck :: "string \<Rightarrow> ('w, error option) state"
  ma_AddReadyzCheck :: "string \<Rightarrow> ('w, error option) state"
  ma_Start :: "('w, error option) state"

definition Cell_SetupWithManager :: "'w manager_api \<Rightarrow> 'w kube \<Rightarrow> ('w, error option) state" where
  "Cell_SetupWithManager M K = ma_Complete M (cell_controller K)"

definition Router_SetupWithManager :: "'w manager_api \<Rightarrow> 'w kube \<Rightarrow> ('w, error option) state" where
  "Router_SetupWithManager M K = ma_Complete M (router_controller K)"

text \<open>The step every error ends: the process exits with code 1.\<close>

definition or_exit :: "('w, error option) state \<Rightarrow> ('w, nat) state \<Rightarrow> ('w, nat) state" where
  "or_exit m rest = do { err \<leftarrow> m; (case err of Some _ \<Rightarrow> ret 1 | None \<Rightarrow> rest) }"

text \<open>
  \<^verbatim>\<open>main\<close> behind the flags. The two reconcilers share the client and have event recorders of
  their own.
\<close>

definition main :: "scheme \<Rightarrow> 'w manager_api \<Rightarrow> 'w kube \<Rightarrow> flags \<Rightarrow> ('w, nat) state" where
  "main s M K f =
     or_exit (ma_GetConfigOrDie M) (
     or_exit (ma_NewManager M (manager_options_of s f)) (
     or_exit (Cell_SetupWithManager M (K\<lparr>k_Eventf := Some (ma_GetEventRecorderFor M (OperatorName @ ''-cell''))\<rparr>)) (
     or_exit (Router_SetupWithManager M (K\<lparr>k_Eventf := Some (ma_GetEventRecorderFor M (OperatorName @ ''-router''))\<rparr>)) (
     or_exit (ma_AddHealthzCheck M ''healthz'') (
     or_exit (ma_AddReadyzCheck M ''readyz'') (
     or_exit (ma_Start M) (
     ret 0)))))))"

text \<open>
  The whole program: a panic in \<^verbatim>\<open>init\<close> and a bad command line exit with code 2, a request for
  help with code 0. A command line whose reading does not end is \<open>None\<close>.
\<close>

definition program :: "scheme_packages \<Rightarrow> library_flags \<Rightarrow> 'w manager_api \<Rightarrow> 'w kube \<Rightarrow> string list \<Rightarrow> ('w, nat) state option" where
  "program P library M K args =
     (case init_scheme P of Inl err \<Rightarrow> Some (ret 2)
      | Inr s \<Rightarrow> (case flag_Parse library args default_flags of None \<Rightarrow> None
          | Some (Inl ErrHelp) \<Rightarrow> Some (ret 0)
          | Some (Inl err) \<Rightarrow> Some (ret 2)
          | Some (Inr (rest, f)) \<Rightarrow> Some (main s M K f)))"

section \<open>Every watched kind is registered\<close>

text \<open>What the packages document: they add their types and keep the others.\<close>

definition registers :: "(scheme \<Rightarrow> error + scheme) \<Rightarrow> gvk set \<Rightarrow> bool" where
  "registers add kinds \<longleftrightarrow> (\<forall>s s'. add s = Inr s' \<longrightarrow> set s \<union> kinds \<subseteq> set s')"

lemma registers_step:
  assumes "registers add kinds" "add s = Inr s'"
  shows "set s \<subseteq> set s'" "kinds \<subseteq> set s'"
  using assms by (auto simp: registers_def)

definition packages_register :: "scheme_packages \<Rightarrow> bool" where
  "packages_register P \<longleftrightarrow>
     (\<forall>gv kinds. registers (sp_Builder_AddToScheme P gv kinds) {GVK (gv_Group gv) (gv_Version gv) k | k. k \<in> set kinds}) \<and>
     registers (sp_clientgoscheme P) {GVK [] ''v1'' ''Service'', GVK [] ''v1'' ''ResourceQuota'', GVK [] ''v1'' ''LimitRange'',
       GVK ''networking.k8s.io'' ''v1'' ''NetworkPolicy'', GVK ''discovery.k8s.io'' ''v1'' ''EndpointSlice''} \<and>
     registers (sp_gatewayv1 P) {GVK ''gateway.networking.k8s.io'' ''v1'' ''Gateway'', GVK ''gateway.networking.k8s.io'' ''v1'' ''HTTPRoute''} \<and>
     registers (sp_gatewayv1beta1 P) {GVK ''gateway.networking.k8s.io'' ''v1beta1'' ''ReferenceGrant''}"

text \<open>
  C33: the scheme the manager starts with knows every kind that the two controllers reconcile,
  own or watch.
\<close>

theorem watched_kinds_registered:
  assumes "packages_register P" "init_scheme P = Inr s"
  shows "set (watched_kinds (cell_controller K)) \<union> set (watched_kinds (router_controller K)) \<subseteq> set s"
proof -
  from assms(2) obtain s1 s2 s3 where steps: "sp_clientgoscheme P [] = Inr s1" "AddToScheme P s1 = Inr s2"
    "sp_gatewayv1 P s2 = Inr s3" "sp_gatewayv1beta1 P s3 = Inr s"
    by (auto simp: init_scheme_def split: sum.splits)
  note laws = assms(1) [unfolded packages_register_def]
  have own: "registers (AddToScheme P) {GVK (gv_Group GroupVersion) (gv_Version GroupVersion) k | k. k \<in> set SchemeBuilder}"
    unfolding AddToScheme_def [abs_def] using laws by blast
  note own = registers_step [OF own steps(2), folded api_gvk_def]
  note client = registers_step [OF conjunct1 [OF conjunct2 [OF laws]] steps(1)]
  note gateway = registers_step [OF conjunct1 [OF conjunct2 [OF conjunct2 [OF laws]]] steps(3)]
  note grant = registers_step [OF conjunct2 [OF conjunct2 [OF conjunct2 [OF laws]]] steps(4)]
  have "{api_gvk ''Cell'', api_gvk ''CellRouter'', api_gvk ''CellPlacement''} \<subseteq> set s2"
    using own(2) by (auto simp: SchemeBuilder_def init_cell_types_def init_cellplacement_types_def init_cellrouter_types_def)
  then show ?thesis
    using own(1) client(2) gateway grant unfolding watched_kinds_def cell_controller_def router_controller_def by auto
qed

definition listing_packages :: scheme_packages where
  "listing_packages =
     \<lparr>sp_Builder_AddToScheme = (\<lambda>gv kinds s. Inr (s @ map (GVK (gv_Group gv) (gv_Version gv)) kinds)),
      sp_clientgoscheme = (\<lambda>s. Inr (s @ [GVK [] ''v1'' ''Namespace'', GVK [] ''v1'' ''Service'', GVK [] ''v1'' ''ResourceQuota'',
        GVK [] ''v1'' ''LimitRange'', GVK ''networking.k8s.io'' ''v1'' ''NetworkPolicy'', GVK ''discovery.k8s.io'' ''v1'' ''EndpointSlice''])),
      sp_gatewayv1 = (\<lambda>s. Inr (s @ map (GVK ''gateway.networking.k8s.io'' ''v1'') [''Gateway'', ''HTTPRoute''])),
      sp_gatewayv1beta1 = (\<lambda>s. Inr (s @ [GVK ''gateway.networking.k8s.io'' ''v1beta1'' ''ReferenceGrant'']))\<rparr>"

theorem watched_kinds_registered_witness:
  "\<exists>s. init_scheme listing_packages = Inr s \<and>
     set (watched_kinds (cell_controller mem_kube)) \<union> set (watched_kinds (router_controller mem_kube)) \<subseteq> set s"
proof -
  have "packages_register listing_packages"
    by (auto simp: packages_register_def registers_def listing_packages_def)
  moreover obtain s where "init_scheme listing_packages = Inr s"
    by (auto simp: init_scheme_def AddToScheme_def listing_packages_def)
  ultimately show ?thesis using watched_kinds_registered by blast
qed

section \<open>Secure unless asked otherwise\<close>

text \<open>A server applies its options one after the other.\<close>

definition tls_applied :: "(tls_config \<Rightarrow> tls_config) list \<Rightarrow> tls_config \<Rightarrow> tls_config" where
  "tls_applied opts c = fold (\<lambda>opt c. opt c) opts c"

text \<open>
  C22: the servers are hardened by default. Unless an argument names the flag for HTTP/2, both
  the webhook and the metrics server of the manager speak HTTP/1.1 only, whatever their
  configuration was; unless an argument names the flag for it, metrics are served over TLS;
  whenever they are, requests to them are authenticated and authorized; and unless an argument
  asks for it there is no leader election.
\<close>

theorem secure_by_default:
  assumes "flag_Parse library args default_flags = Some (Inr (rest, f))"
  shows "((\<forall>a\<in>set args. \<not> mentions ''enable-http2'' a) \<longrightarrow>
      NextProtos (tls_applied (wo_TLSOpts (mg_WebhookServer (manager_options_of s f))) c) = [''http/1.1''] \<and>
      NextProtos (tls_applied (mo_TLSOpts (mg_Metrics (manager_options_of s f))) c) = [''http/1.1'']) \<and>
    ((\<forall>a\<in>set args. \<not> mentions ''metrics-secure'' a) \<longrightarrow> mo_SecureServing (mg_Metrics (manager_options_of s f))) \<and>
    (mo_FilterProvider (mg_Metrics (manager_options_of s f)) = Some WithAuthenticationAndAuthorization \<longleftrightarrow>
      mo_SecureServing (mg_Metrics (manager_options_of s f))) \<and>
    ((\<forall>a\<in>set args. \<not> mentions ''leader-elect'' a) \<longrightarrow> \<not> mg_LeaderElection (manager_options_of s f))"
proof -
  have "enableHTTP2 f = enableHTTP2 default_flags" if "\<forall>a\<in>set args. \<not> mentions ''enable-http2'' a"
    by (rule flag_Parse_other [OF set_flag_other(1) assms that])
  moreover have "secureMetrics f = secureMetrics default_flags" if "\<forall>a\<in>set args. \<not> mentions ''metrics-secure'' a"
    by (rule flag_Parse_other [OF set_flag_other(2) assms that])
  moreover have "enableLeaderElection f = enableLeaderElection default_flags" if "\<forall>a\<in>set args. \<not> mentions ''leader-elect'' a"
    by (rule flag_Parse_other [OF set_flag_other(3) assms that])
  ultimately show ?thesis
    by (auto simp: manager_options_of_def webhookServerOptions_def metricsServerOptions_def tlsOpts_def tls_applied_def
        disableHTTP2_def default_flags_def Let_def)
qed

theorem secure_by_default_witness:
  "\<exists>f. flag_Parse (\<lambda>_. None) [''--metrics-bind-address='' @ '':8443''] default_flags = Some (Inr ([], f)) \<and>
     mo_BindAddress (mg_Metrics (manager_options_of [] f)) = '':8443'' \<and>
     NextProtos (tls_applied (mo_TLSOpts (mg_Metrics (manager_options_of [] f))) \<lparr>NextProtos = [''h2'']\<rparr>) = [''http/1.1''] \<and>
     mo_FilterProvider (mg_Metrics (manager_options_of [] f)) = Some WithAuthenticationAndAuthorization"
proof -
  let ?f = "default_flags\<lparr>metricsAddr := '':8443''\<rparr>"
  have parse: "flag_Parse (\<lambda>_. None) [''--metrics-bind-address='' @ '':8443''] default_flags = Some (Inr ([], ?f))"
    by (simp only: parse_settings) (subst flag_Parse.simps, simp add: parseOne_def)
  have "\<not> mentions ''enable-http2'' (''--metrics-bind-address='' @ '':8443'')"
    "\<not> mentions ''metrics-secure'' (''--metrics-bind-address='' @ '':8443'')"
    by (simp_all add: mentions_def)
  with secure_by_default [OF parse, of "[]" "\<lparr>NextProtos = [''h2'']\<rparr>"] parse show ?thesis
    by (intro exI [of _ ?f]) (simp add: manager_options_of_def metricsServerOptions_def Let_def)
qed

section \<open>The order of the start-up\<close>

datatype setup_call = GetConfig | NewManager manager_options | Complete string | Healthz string | Readyz string | Start

text \<open>A world that remembers which calls of the library were made.\<close>

definition remembers :: "'w manager_api \<Rightarrow> ('w \<Rightarrow> setup_call list) \<Rightarrow> bool" where
  "remembers M calls \<longleftrightarrow>
     (\<forall>w. calls (snd (run_state (ma_GetConfigOrDie M) w)) = calls w @ [GetConfig]) \<and>
     (\<forall>o' w. calls (snd (run_state (ma_NewManager M o') w)) = calls w @ [NewManager o']) \<and>
     (\<forall>c w. calls (snd (run_state (ma_Complete M c) w)) = calls w @ [Complete (ct_Name c)]) \<and>
     (\<forall>n w. calls (snd (run_state (ma_AddHealthzCheck M n) w)) = calls w @ [Healthz n]) \<and>
     (\<forall>n w. calls (snd (run_state (ma_AddReadyzCheck M n) w)) = calls w @ [Readyz n]) \<and>
     (\<forall>w. calls (snd (run_state (ma_Start M) w)) = calls w @ [Start])"

definition full_setup :: "scheme \<Rightarrow> flags \<Rightarrow> setup_call list" where
  "full_setup s f = [GetConfig, NewManager (manager_options_of s f), Complete ''cell'', Complete ''cellrouter'',
     Healthz ''healthz'', Readyz ''readyz'', Start]"

text \<open>What a sequence of guarded steps does: a prefix of the calls, all of them when it succeeds.\<close>

definition runs_prefix :: "('w \<Rightarrow> setup_call list) \<Rightarrow> ('w, nat) state \<Rightarrow> setup_call list \<Rightarrow> bool" where
  "runs_prefix calls m cs \<longleftrightarrow> (\<forall>w code w'. run_state m w = (code, w') \<longrightarrow> code \<le> 1 \<and>
     (\<exists>n \<le> length cs. calls w' = calls w @ take n cs \<and> (code = 0 \<longrightarrow> n = length cs)))"

lemma runs_prefix_done: "runs_prefix calls (ret 0) []"
  by (simp add: runs_prefix_def)

lemma runs_prefix_step:
  assumes "\<And>w. calls (snd (run_state m w)) = calls w @ [c]" "runs_prefix calls rest cs"
  shows "runs_prefix calls (or_exit m rest) (c # cs)"
  unfolding runs_prefix_def
proof (intro allI impI)
  fix w code w'
  assume run: "run_state (or_exit m rest) w = (code, w')"
  obtain err w1 where m: "run_state m w = (err, w1)" by fastforce
  with assms(1) [of w] have w1: "calls w1 = calls w @ [c]" by simp
  show "code \<le> 1 \<and> (\<exists>n \<le> length (c # cs). calls w' = calls w @ take n (c # cs) \<and> (code = 0 \<longrightarrow> n = length (c # cs)))"
  proof (cases err)
    case None
    with run m have "run_state rest w1 = (code, w')" by (simp add: or_exit_def)
    with assms(2) obtain n where "code \<le> 1" "n \<le> length cs" "calls w' = calls w1 @ take n cs" "code = 0 \<longrightarrow> n = length cs"
      unfolding runs_prefix_def by blast
    with w1 show ?thesis by (intro conjI exI [of _ "Suc n"]) auto
  next
    case (Some e)
    with run m w1 show ?thesis by (intro conjI exI [of _ 1]) (auto simp: or_exit_def)
  qed
qed

lemma main_prefix:
  assumes "remembers M calls"
  shows "runs_prefix calls (main s M K f) (full_setup s f)"
  unfolding main_def full_setup_def
  by (intro runs_prefix_step runs_prefix_done)
    (use assms in \<open>simp_all add: remembers_def Cell_SetupWithManager_def Router_SetupWithManager_def
      cell_controller_def router_controller_def\<close>)

text \<open>
  C21: the program ends with a code, and the manager is started only by a complete start-up. The
  exit code is 2 for a command line that cannot be read, 0 for a request for help, and else 0 or
  1, where the calls made are a prefix of the fixed order (configuration, manager, cell
  controller, router controller, the two probes, start) and code 0 is returned only after all of
  them.
\<close>

theorem startup_order:
  assumes "remembers M calls" "init_scheme P = Inr s"
  shows "\<exists>m. program P library M K args = Some m \<and> (\<forall>w code w'. run_state m w = (code, w') \<longrightarrow>
    (case flag_Parse library args default_flags of
       Some (Inr (rest, f)) \<Rightarrow> code \<le> 1 \<and> (\<exists>n \<le> 7. calls w' = calls w @ take n (full_setup s f) \<and>
         (code = 0 \<or> Start \<in> set (take n (full_setup s f)) \<longrightarrow> n = 7))
     | Some (Inl ErrHelp) \<Rightarrow> code = 0 \<and> w' = w
     | _ \<Rightarrow> code = 2 \<and> w' = w))"
proof -
  obtain r where r: "flag_Parse library args default_flags = Some r"
    using flag_Parse_returns by metis
  show ?thesis
  proof (cases r)
    case (Inl err)
    with r assms(2) show ?thesis by (cases err) (simp_all add: program_def)
  next
    case (Inr t)
    then obtain rest f where t: "r = Inr (rest, f)" by (cases t) auto
    have started: "Start \<in> set (take n (full_setup s f)) \<Longrightarrow> n \<le> 7 \<Longrightarrow> n = 7" for n
      by (auto simp: full_setup_def take_Cons split: nat.splits)
    have len: "length (full_setup s f) = 7" by (simp add: full_setup_def)
    have "code \<le> 1 \<and> (\<exists>n \<le> 7. calls w' = calls w @ take n (full_setup s f) \<and>
         (code = 0 \<or> Start \<in> set (take n (full_setup s f)) \<longrightarrow> n = 7))" if "run_state (main s M K f) w = (code, w')" for w code w'
      using main_prefix [OF assms(1), of s K f] that started len unfolding runs_prefix_def by metis
    with r t assms(2) show ?thesis by (simp add: program_def)
  qed
qed

text \<open>A manager that refuses the readiness probe is not started.\<close>

definition probeless_manager :: "setup_call list manager_api" where
  "probeless_manager =
     (let call = (\<lambda>c err. State (\<lambda>cs. (err, cs @ [c]))) in
      \<lparr>ma_GetConfigOrDie = call GetConfig None, ma_NewManager = (\<lambda>o'. call (NewManager o') None),
       ma_GetEventRecorderFor = (\<lambda>_ _ _ _. ret ()), ma_Complete = (\<lambda>c. call (Complete (ct_Name c)) None),
       ma_AddHealthzCheck = (\<lambda>n. call (Healthz n) None),
       ma_AddReadyzCheck = (\<lambda>n. call (Readyz n) (Some (Errorf ''no probe''))), ma_Start = call Start None\<rparr>)"

theorem startup_order_witness:
  "\<forall>K. \<exists>s m n. init_scheme listing_packages = Inr s \<and>
     program listing_packages (\<lambda>_. None) probeless_manager K [] = Some m \<and> fst (run_state m []) = 1 \<and> n \<le> 7 \<and>
     snd (run_state m []) = take n (full_setup s default_flags) \<and> Start \<notin> set (snd (run_state m []))"
proof
  fix K
  have rem: "remembers probeless_manager (\<lambda>cs. cs)" by (simp add: remembers_def probeless_manager_def)
  obtain s where s: "init_scheme listing_packages = Inr s"
    by (auto simp: init_scheme_def AddToScheme_def listing_packages_def)
  have parse: "flag_Parse (\<lambda>_. None) [] default_flags = Some (Inr ([], default_flags))"
    by (subst flag_Parse.simps) (simp add: parseOne_def)
  from startup_order [OF rem s, of "\<lambda>_. None" K "[]"] obtain m where m: "program listing_packages (\<lambda>_. None) probeless_manager K [] = Some m"
    "\<forall>w code w'. run_state m w = (code, w') \<longrightarrow> code \<le> 1 \<and> (\<exists>n \<le> 7. w' = w @ take n (full_setup s default_flags) \<and>
       (code = 0 \<or> Start \<in> set (take n (full_setup s default_flags)) \<longrightarrow> n = 7))"
    using parse by auto
  have "m = main s probeless_manager K default_flags" using m(1) s parse by (simp add: program_def)
  then have "fst (run_state m []) = 1" "Start \<notin> set (snd (run_state m []))"
    by (simp_all add: main_def or_exit_def probeless_manager_def Cell_SetupWithManager_def Router_SetupWithManager_def)
  moreover obtain n where "n \<le> 7" "snd (run_state m []) = take n (full_setup s default_flags)"
    using m(2) by (metis append_Nil prod.collapse)
  ultimately show "\<exists>s m n. init_scheme listing_packages = Inr s \<and>
     program listing_packages (\<lambda>_. None) probeless_manager K [] = Some m \<and> fst (run_state m []) = 1 \<and> n \<le> 7 \<and>
     snd (run_state m []) = take n (full_setup s default_flags) \<and> Start \<notin> set (snd (run_state m []))"
    using s m(1) by blast
qed

end
