(* ===== verification/Rbac.thy ===== *)
theory Rbac
  imports Operator Wiring
begin

text \<open>
  The permissions of the operator: the rules in the \<^verbatim>\<open>+kubebuilder:rbac\<close> markers of the two
  controllers, from which the role of the manager is generated, and the requests a pass makes.
  Every call of a client is recorded with the verbs it may need, and every record that a pass
  leaves is shown to be granted by the markers of its own controller.
\<close>

section \<open>The rules\<close>

record rule =
  rule_group :: string
  rule_resource :: string
  rule_verbs :: "string list"

abbreviation Rule :: "string \<Rightarrow> string \<Rightarrow> string list \<Rightarrow> rule" where
  "Rule g r vs \<equiv> \<lparr>rule_group = g, rule_resource = r, rule_verbs = vs\<rparr>"

abbreviation all_verbs :: "string list" where
  "all_verbs \<equiv> [''get'', ''list'', ''watch'', ''create'', ''update'', ''patch'', ''delete'']"

definition cell_rules :: "rule list" where
  "cell_rules =
     [Rule ''cell.cellrouter.io'' ''cells'' all_verbs,
      Rule ''cell.cellrouter.io'' ''cells/status'' [''get'', ''update'', ''patch''],
      Rule ''cell.cellrouter.io'' ''cells/finalizers'' [''update''],
      Rule [] ''namespaces'' all_verbs,
      Rule [] ''services'' all_verbs,
      Rule [] ''resourcequotas'' all_verbs,
      Rule [] ''limitranges'' all_verbs,
      Rule ''discovery.k8s.io'' ''endpointslices'' [''get'', ''list'', ''watch''],
      Rule ''networking.k8s.io'' ''networkpolicies'' all_verbs,
      Rule [] ''events'' [''create'', ''patch'']]"

definition router_rules :: "rule list" where
  "router_rules =
     [Rule ''cell.cellrouter.io'' ''cellrouters'' all_verbs,
      Rule ''cell.cellrouter.io'' ''cellrouters/status'' [''get'', ''update'', ''patch''],
      Rule ''cell.cellrouter.io'' ''cellrouters/finalizers'' [''update''],
      Rule ''cell.cellrouter.io'' ''cells'' [''get'', ''list'', ''watch''],
      Rule ''cell.cellrouter.io'' ''cellplacements'' [''get'', ''list'', ''watch''],
      Rule ''cell.cellrouter.io'' ''cellplacements/status'' [''get'', ''update'', ''patch''],
      Rule [] ''namespaces'' [''get'', ''list'', ''watch'', ''create'', ''update'', ''patch''],
      Rule ''gateway.networking.k8s.io'' ''gateways'' all_verbs,
      Rule ''gateway.networking.k8s.io'' ''gateways/status'' [''get''],
      Rule ''gateway.networking.k8s.io'' ''httproutes'' all_verbs,
      Rule ''gateway.networking.k8s.io'' ''httproutes/status'' [''get''],
      Rule ''gateway.networking.k8s.io'' ''referencegrants'' all_verbs,
      Rule [] ''services'' [''get'', ''list'', ''watch''],
      Rule [] ''events'' [''create'', ''patch'']]"

type_synonym api_call = "string \<times> string \<times> string"

definition permitted :: "rule list \<Rightarrow> api_call \<Rightarrow> bool" where
  "permitted rules call \<longleftrightarrow> (case call of (g, r, v) \<Rightarrow>
     list_ex (\<lambda>rule. rule_group rule = g \<and> rule_resource rule = r \<and> v \<in> set (rule_verbs rule)) rules)"

section \<open>Recorded calls\<close>

text \<open>
  A client reads from a cache that lists and watches the kind. A create-or-update reads, and
  then creates or updates; an event is created or patched.
\<close>

definition recorded :: "api_call list \<Rightarrow> ('w, 'a) state \<Rightarrow> ('w \<times> api_call list, 'a) state" where
  "recorded calls m = State (\<lambda>(w, log). let (x, w') = run_state m w in (x, (w', log @ calls)))"

definition reading :: "string \<Rightarrow> string \<Rightarrow> api_call list" where
  "reading g r = [(g, r, ''get''), (g, r, ''list''), (g, r, ''watch'')]"

definition record_client :: "string \<Rightarrow> string \<Rightarrow> ('o, 'w) resource_client \<Rightarrow> ('o, 'w \<times> api_call list) resource_client" where
  "record_client g r rc =
     \<lparr>rc_Get = (\<lambda>ns n. recorded (reading g r) (rc_Get rc ns n)),
      rc_List = (\<lambda>ns ls. recorded (reading g r) (rc_List rc ns ls)),
      rc_CreateOrUpdate = (\<lambda>obj f. recorded (reading g r @ [(g, r, ''create''), (g, r, ''update'')]) (rc_CreateOrUpdate rc obj f)),
      rc_Delete = (\<lambda>obj. recorded [(g, r, ''delete'')] (rc_Delete rc obj)),
      rc_Patch = (\<lambda>obj base. recorded [(g, r, ''patch'')] (rc_Patch rc obj base)),
      rc_StatusPatch = (\<lambda>obj base. recorded [(g, r @ ''/status'', ''patch'')] (rc_StatusPatch rc obj base))\<rparr>"

definition record_kube :: "'w kube \<Rightarrow> ('w \<times> api_call list) kube" where
  "record_kube K =
     \<lparr>k_cells = record_client ''cell.cellrouter.io'' ''cells'' (k_cells K),
      k_routers = record_client ''cell.cellrouter.io'' ''cellrouters'' (k_routers K),
      k_placements = record_client ''cell.cellrouter.io'' ''cellplacements'' (k_placements K),
      k_namespaces = record_client [] ''namespaces'' (k_namespaces K),
      k_services = record_client [] ''services'' (k_services K),
      k_quotas = record_client [] ''resourcequotas'' (k_quotas K),
      k_limits = record_client [] ''limitranges'' (k_limits K),
      k_netpols = record_client ''networking.k8s.io'' ''networkpolicies'' (k_netpols K),
      k_slices = record_client ''discovery.k8s.io'' ''endpointslices'' (k_slices K),
      k_gateways = record_client ''gateway.networking.k8s.io'' ''gateways'' (k_gateways K),
      k_routes = record_client ''gateway.networking.k8s.io'' ''httproutes'' (k_routes K),
      k_grants = record_client ''gateway.networking.k8s.io'' ''referencegrants'' (k_grants K),
      k_SetStatusCondition = (\<lambda>cs c. recorded [] (k_SetStatusCondition K cs c)),
      k_FindStatusCondition = k_FindStatusCondition K,
      k_SetControllerReference = k_SetControllerReference K,
      k_IsControlledBy = k_IsControlledBy K,
      k_ContainsFinalizer = k_ContainsFinalizer K,
      k_AddFinalizer = k_AddFinalizer K,
      k_RemoveFinalizer = k_RemoveFinalizer K,
      k_Eventf = map_option (\<lambda>f obj reason msg. recorded [([], ''events'', ''create''), ([], ''events'', ''patch'')] (f obj reason msg)) (k_Eventf K),
      k_subexpNames = k_subexpNames K,
      k_range = (\<lambda>m. recorded [] (k_range K m))\<rparr>"

definition all_permitted :: "rule list \<Rightarrow> 'w \<times> api_call list \<Rightarrow> bool" where
  "all_permitted rules s \<longleftrightarrow> list_all (permitted rules) (snd s)"

lemma keeps_recorded: "list_all (permitted rules) calls \<Longrightarrow> keeps (all_permitted rules) (recorded calls m)"
  by (auto simp: keeps_def triple_def recorded_def all_permitted_def split: prod.splits)

text \<open>The verbs that the operations of a client need.\<close>

lemma record_client_keeps:
  shows "list_all (permitted rules) (reading g r) \<Longrightarrow> reads_keep (all_permitted rules) (record_client g r rc)"
    and "list_all (permitted rules) (reading g r @ [(g, r, ''create''), (g, r, ''update'')]) \<Longrightarrow>
      applies_keep (all_permitted rules) (record_client g r rc)"
    and "permitted rules (g, r, ''delete'') \<Longrightarrow> deletes_keep (all_permitted rules) (record_client g r rc) P"
    and "permitted rules (g, r, ''patch'') \<Longrightarrow> permitted rules (g, r @ ''/status'', ''patch'') \<Longrightarrow>
      patches_keep (all_permitted rules) (record_client g r rc)"
    and "permitted rules (g, r @ ''/status'', ''patch'') \<Longrightarrow> status_patches_keep (all_permitted rules) (record_client g r rc)"
  by (simp_all add: reads_keep_def applies_keep_def deletes_keep_def patches_keep_def status_patches_keep_def
      record_client_def keeps_recorded)

lemma record_helpers_keep:
  assumes "permitted rules ([], ''events'', ''create'')" "permitted rules ([], ''events'', ''patch'')"
  shows "helpers_keep (all_permitted rules) (record_kube K)"
  using assms by (auto simp: helpers_keep_def record_kube_def intro!: keeps_recorded)

lemmas grants = permitted_def cell_rules_def router_rules_def reading_def

lemma keeps_Router_Reconcile_parts:
  assumes "router_packages_keep I K" "reads_keep I (k_routers K)" "patches_keep I (k_routers K)"
    "reads_keep I (k_gateways K)" "deletes_keep I (k_gateways K) (\<lambda>_. True)"
  shows "keeps I (Router_Reconcile K req)"
proof -
  note parts = assms(1) [unfolded router_packages_keep_def gateway_packages_keep_def route_packages_keep_def grant_packages_keep_def]
  have status: "keeps I (patchRouterStatus K router base)" for router base
    unfolding patchRouterStatus_def using assms(3) by (intro keeps_intros patches_keep_status)
  have failed: "keeps I (router_failed K router base t msg err)" "keeps I (publish_router K router base ref ready requeue managed)"
    for router base t msg err ref ready requeue managed
    unfolding router_failed_def publish_router_def Let_def
    using parts status by (intro keeps_control router_conditions.keeps_set_cond; blast)+
  have normal: "keeps I (Router_reconcileNormal K router)" for router
    unfolding Router_reconcileNormal_def Let_def listPlacements_def
    using failed parts assms(1) [unfolded router_packages_keep_def]
    by (intro keeps_control router_conditions.keeps_set_cond keeps_reconcileGateway keeps_reconcileGatewayNamespace
        keeps_reconcileRoutes keeps_client(2); blast)
  have "keeps I (deleteManagedGateway K router)" "keeps I (deleteManagedHTTPRoutes K router n)" "keeps I (deleteManagedReferenceGrants K router)"
    "keeps I (Router_removeFinalizer K router)" for router n
    unfolding deleteManagedGateway_def deleteManagedHTTPRoutes_def deleteManagedReferenceGrants_def Router_removeFinalizer_def Let_def
    using parts assms(3-5)
    by (intro keeps_control keeps_client keeps_delete_loop_any keeps_delete [where allowed = "\<lambda>_. True"]; blast)+
  then have deletion: "keeps I (Router_reconcileDeletion K router)" for router
    unfolding Router_reconcileDeletion_def by (intro keeps_control)
  show ?thesis
    unfolding Router_Reconcile_def Router_ensureFinalizer_def
    using normal deletion assms(2,3) by (intro keeps_control keeps_client) blast+
qed

section \<open>Every call is granted\<close>

lemma record_client_of:
  "k_cells (record_kube K) = record_client ''cell.cellrouter.io'' ''cells'' (k_cells K)"
  "k_routers (record_kube K) = record_client ''cell.cellrouter.io'' ''cellrouters'' (k_routers K)"
  "k_placements (record_kube K) = record_client ''cell.cellrouter.io'' ''cellplacements'' (k_placements K)"
  "k_namespaces (record_kube K) = record_client [] ''namespaces'' (k_namespaces K)"
  "k_services (record_kube K) = record_client [] ''services'' (k_services K)"
  "k_quotas (record_kube K) = record_client [] ''resourcequotas'' (k_quotas K)"
  "k_limits (record_kube K) = record_client [] ''limitranges'' (k_limits K)"
  "k_netpols (record_kube K) = record_client ''networking.k8s.io'' ''networkpolicies'' (k_netpols K)"
  "k_slices (record_kube K) = record_client ''discovery.k8s.io'' ''endpointslices'' (k_slices K)"
  "k_gateways (record_kube K) = record_client ''gateway.networking.k8s.io'' ''gateways'' (k_gateways K)"
  "k_routes (record_kube K) = record_client ''gateway.networking.k8s.io'' ''httproutes'' (k_routes K)"
  "k_grants (record_kube K) = record_client ''gateway.networking.k8s.io'' ''referencegrants'' (k_grants K)"
  by (simp_all add: record_kube_def)

text \<open>The operations the passes use, each within the rules of its controller.\<close>

lemma cell_grants:
  "reads_keep (all_permitted cell_rules) (k_cells (record_kube K))"
  "reads_keep (all_permitted cell_rules) (k_quotas (record_kube K))"
  "reads_keep (all_permitted cell_rules) (k_limits (record_kube K))"
  "reads_keep (all_permitted cell_rules) (k_netpols (record_kube K))"
  "reads_keep (all_permitted cell_rules) (k_services (record_kube K))"
  "reads_keep (all_permitted cell_rules) (k_namespaces (record_kube K))"
  "reads_keep (all_permitted cell_rules) (k_slices (record_kube K))"
  "patches_keep (all_permitted cell_rules) (k_cells (record_kube K))"
  "applies_keep (all_permitted cell_rules) (k_quotas (record_kube K))"
  "applies_keep (all_permitted cell_rules) (k_limits (record_kube K))"
  "applies_keep (all_permitted cell_rules) (k_netpols (record_kube K))"
  "applies_keep (all_permitted cell_rules) (k_services (record_kube K))"
  "applies_keep (all_permitted cell_rules) (k_namespaces (record_kube K))"
  "deletes_keep (all_permitted cell_rules) (k_quotas (record_kube K)) P1"
  "deletes_keep (all_permitted cell_rules) (k_limits (record_kube K)) P2"
  "deletes_keep (all_permitted cell_rules) (k_netpols (record_kube K)) P3"
  "deletes_keep (all_permitted cell_rules) (k_services (record_kube K)) P4"
  "deletes_keep (all_permitted cell_rules) (k_namespaces (record_kube K)) P5"
  "helpers_keep (all_permitted cell_rules) (record_kube K)"
  unfolding record_client_of by (rule record_client_keeps record_helpers_keep; simp add: grants)+

lemma router_grants:
  "reads_keep (all_permitted router_rules) (k_routers (record_kube K))"
  "reads_keep (all_permitted router_rules) (k_cells (record_kube K))"
  "reads_keep (all_permitted router_rules) (k_placements (record_kube K))"
  "reads_keep (all_permitted router_rules) (k_gateways (record_kube K))"
  "reads_keep (all_permitted router_rules) (k_routes (record_kube K))"
  "reads_keep (all_permitted router_rules) (k_grants (record_kube K))"
  "patches_keep (all_permitted router_rules) (k_routers (record_kube K))"
  "status_patches_keep (all_permitted router_rules) (k_placements (record_kube K))"
  "applies_keep (all_permitted router_rules) (k_namespaces (record_kube K))"
  "applies_keep (all_permitted router_rules) (k_gateways (record_kube K))"
  "applies_keep (all_permitted router_rules) (k_routes (record_kube K))"
  "applies_keep (all_permitted router_rules) (k_grants (record_kube K))"
  "deletes_keep (all_permitted router_rules) (k_gateways (record_kube K)) P6"
  "deletes_keep (all_permitted router_rules) (k_routes (record_kube K)) P7"
  "deletes_keep (all_permitted router_rules) (k_grants (record_kube K)) P8"
  "helpers_keep (all_permitted router_rules) (record_kube K)"
  unfolding record_client_of by (rule record_client_keeps record_helpers_keep; simp add: grants)+

lemma cell_pass_permitted: "keeps (all_permitted cell_rules) (Cell_Reconcile (record_kube K) req)"
  by (intro keeps_Cell_Reconcile_parts) (simp_all add: policy_packages_keep_def cell_grants)

lemma router_pass_permitted: "keeps (all_permitted router_rules) (Router_Reconcile (record_kube K) req)"
  by (intro keeps_Router_Reconcile_parts)
    (simp_all add: router_packages_keep_def gateway_packages_keep_def route_packages_keep_def grant_packages_keep_def router_grants)

lemma slice_events_permitted: "keeps (all_permitted cell_rules) (requestsForEndpointSlice (record_kube K) obj)"
  unfolding requestsForEndpointSlice_def Let_def by (intro keeps_intros cell_grants)

lemma cell_events_permitted: "keeps (all_permitted router_rules) (requestsForCell (record_kube K))"
  unfolding requestsForCell_def by (intro keeps_intros router_grants)

text \<open>The resource under which a kind is served.\<close>

definition resource_of :: "gvk \<Rightarrow> string \<times> string" where
  "resource_of k = (gvk_Group k, the (map_of
     [(''Cell'', ''cells''), (''CellRouter'', ''cellrouters''), (''CellPlacement'', ''cellplacements''), (''Namespace'', ''namespaces''),
      (''Service'', ''services''), (''ResourceQuota'', ''resourcequotas''), (''LimitRange'', ''limitranges''),
      (''NetworkPolicy'', ''networkpolicies''), (''EndpointSlice'', ''endpointslices''), (''Gateway'', ''gateways''),
      (''HTTPRoute'', ''httproutes''), (''ReferenceGrant'', ''referencegrants'')] (gvk_Kind k)))"

definition watchable :: "rule list \<Rightarrow> gvk \<Rightarrow> bool" where
  "watchable rules k \<longleftrightarrow> (case resource_of k of (g, r) \<Rightarrow> permitted rules (g, r, ''list'') \<and> permitted rules (g, r, ''watch''))"

lemma all_permitted_start:
  "keeps (all_permitted rules) m \<Longrightarrow> list_all (permitted rules) (snd (snd (run_state m (w, []))))"
  using keeps_run [of "all_permitted rules" m "(w, [])"] by (simp add: all_permitted_def)

text \<open>
  C15: the declared permissions are enough. Whatever the cluster holds and answers, every request
  of a pass of a cell and of the function that maps endpoint slices to cells is granted by the
  markers of the cell controller, every request of a pass of a router and of its map functions
  by the markers of the router controller, and so are the watches each of them asks for.
\<close>

theorem rbac_sufficient:
  "list_all (permitted cell_rules) (snd (snd (run_state (Cell_Reconcile (record_kube K) req) (w, [])))) \<and>
   list_all (permitted cell_rules) (snd (snd (run_state (requestsForEndpointSlice (record_kube K) obj) (w, [])))) \<and>
   list_all (watchable cell_rules) (watched_kinds (cell_controller K)) \<and>
   list_all (permitted router_rules) (snd (snd (run_state (Router_Reconcile (record_kube K) req) (w, [])))) \<and>
   list_all (permitted router_rules) (snd (snd (run_state (requestsForCell (record_kube K)) (w, [])))) \<and>
   list_all (watchable router_rules) (watched_kinds (router_controller K))"
proof -
  have "list_all (watchable cell_rules) (watched_kinds (cell_controller K))"
    by (simp add: watched_kinds_def cell_controller_def watchable_def resource_of_def api_gvk_def GroupVersion_def grants)
  moreover have "list_all (watchable router_rules) (watched_kinds (router_controller K))"
    by (simp add: watched_kinds_def router_controller_def watchable_def resource_of_def api_gvk_def GroupVersion_def grants)
  ultimately show ?thesis
    by (intro conjI all_permitted_start cell_pass_permitted router_pass_permitted slice_events_permitted cell_events_permitted)
qed

end
