(* ===== verification/Ownership.thy ===== *)
theory Ownership
  imports Operator Wiring
begin

text \<open>
  What a pass writes leads back to the pass. The passes of \<^verbatim>\<open>cell_controller.go\<close> and
  \<^verbatim>\<open>cellrouter_controller.go\<close> run on clients that note every object a create-or-update answers,
  and each of these objects, as long as it keeps its owner references, wakes the cell or the router
  again through \<^verbatim>\<open>SetupWithManager\<close>. Nothing is said of namespaces, which have no owner and
  are not watched (\<open>namespaces_not_watched\<close>).
\<close>

section \<open>Written objects\<close>

definition noting :: "('a \<Rightarrow> client_object list) \<Rightarrow> ('w, 'a) state \<Rightarrow> ('w \<times> client_object list, 'a) state" where
  "noting f m = State (\<lambda>(w, log). let (x, w') = run_state m w in (x, (w', log @ f x)))"

abbreviation silent :: "('w, 'a) state \<Rightarrow> ('w \<times> client_object list, 'a) state" where
  "silent \<equiv> noting (\<lambda>_. [])"

definition note_client :: "('o \<Rightarrow> client_object) \<Rightarrow> ('o, 'w) resource_client \<Rightarrow> ('o, 'w \<times> client_object list) resource_client" where
  "note_client c rc =
     \<lparr>rc_Get = (\<lambda>ns n. silent (rc_Get rc ns n)),
      rc_List = (\<lambda>ns ls. silent (rc_List rc ns ls)),
      rc_CreateOrUpdate = (\<lambda>obj f. noting (\<lambda>r. case r of Inl _ \<Rightarrow> [] | Inr y \<Rightarrow> [c y]) (rc_CreateOrUpdate rc obj f)),
      rc_Delete = (\<lambda>obj. silent (rc_Delete rc obj)),
      rc_Patch = (\<lambda>obj base. silent (rc_Patch rc obj base)),
      rc_StatusPatch = (\<lambda>obj base. silent (rc_StatusPatch rc obj base))\<rparr>"

definition note_kube :: "'w kube \<Rightarrow> ('w \<times> client_object list) kube" where
  "note_kube K =
     \<lparr>k_cells = note_client CellObj (k_cells K), k_routers = note_client RouterObj (k_routers K),
      k_placements = note_client PlacementObj (k_placements K),
      k_namespaces = note_client NamespaceObj (k_namespaces K), k_services = note_client ServiceObj (k_services K),
      k_quotas = note_client QuotaObj (k_quotas K), k_limits = note_client LimitsObj (k_limits K),
      k_netpols = note_client PolicyObj (k_netpols K), k_slices = note_client SliceObj (k_slices K),
      k_gateways = note_client GatewayObj (k_gateways K), k_routes = note_client RouteObj (k_routes K),
      k_grants = note_client GrantObj (k_grants K),
      k_SetStatusCondition = (\<lambda>cs c. silent (k_SetStatusCondition K cs c)),
      k_FindStatusCondition = k_FindStatusCondition K,
      k_SetControllerReference = k_SetControllerReference K,
      k_IsControlledBy = k_IsControlledBy K,
      k_ContainsFinalizer = k_ContainsFinalizer K,
      k_AddFinalizer = k_AddFinalizer K,
      k_RemoveFinalizer = k_RemoveFinalizer K,
      k_Eventf = map_option (\<lambda>f obj reason msg. silent (f obj reason msg)) (k_Eventf K),
      k_subexpNames = k_subexpNames K,
      k_range = (\<lambda>m. silent (k_range K m))\<rparr>"

text \<open>The objects that a computation creates or updates, in order.\<close>

definition written :: "('w \<times> client_object list, 'a) state \<Rightarrow> 'w \<Rightarrow> client_object list" where
  "written m w = snd (snd (run_state m (w, [])))"

text \<open>
  What the server is documented to do: it stores the owner references as they are written, a read
  returns the object that was asked for, and a patch keeps the name. A finalizer does not change it.
\<close>

definition owners_stored :: "('o \<Rightarrow> ObjectMeta) \<Rightarrow> ('o, 'w) resource_client \<Rightarrow> bool" where
  "owners_stored meta rc \<longleftrightarrow> (\<forall>obj f w y w'. run_state (rc_CreateOrUpdate rc obj f) w = (Inr y, w') \<longrightarrow>
     (\<exists>old z. f old = Inr z \<and> om_OwnerReferences (meta y) = om_OwnerReferences (meta z)))"

definition names_kept :: "('o \<Rightarrow> ObjectMeta) \<Rightarrow> ('o, 'w) resource_client \<Rightarrow> bool" where
  "names_kept meta rc \<longleftrightarrow>
     (\<forall>ns n w y w'. run_state (rc_Get rc ns n) w = (Inr y, w') \<longrightarrow> om_Name (meta y) = n) \<and>
     (\<forall>x base w y w'. run_state (rc_Patch rc x base) w = (Inr y, w') \<longrightarrow> om_Name (meta y) = om_Name (meta x))"

definition server_keeps :: "'w kube \<Rightarrow> bool" where
  "server_keeps K \<longleftrightarrow>
     owners_stored svc_Meta (k_services K) \<and> owners_stored quota_Meta (k_quotas K) \<and>
     owners_stored limits_Meta (k_limits K) \<and> owners_stored netpol_Meta (k_netpols K) \<and>
     owners_stored gw_Meta (k_gateways K) \<and> owners_stored route_Meta (k_routes K) \<and> owners_stored grant_Meta (k_grants K) \<and>
     names_kept cell_Meta (k_cells K) \<and> names_kept router_Meta (k_routers K) \<and>
     (\<forall>m f. om_Name (k_AddFinalizer K m f) = om_Name m)"

text \<open>
  An object is tied to a request when every version of it with the same owner references wakes
  the controller for this request, in every world.
\<close>

definition namespace_gvk :: gvk where
  "namespace_gvk = GVK [] ''v1'' ''Namespace''"

definition tied :: "(gvk \<Rightarrow> ObjectMeta \<Rightarrow> request list) \<Rightarrow> 'w controller \<Rightarrow> request \<Rightarrow> client_object \<Rightarrow> bool" where
  "tied Q c req obj \<longleftrightarrow> (\<forall>later w. object_gvk later = object_gvk obj \<longrightarrow>
     om_OwnerReferences (object_meta later) = om_OwnerReferences (object_meta obj) \<longrightarrow> wakes Q c w later req)"

definition all_tied :: "(gvk \<Rightarrow> ObjectMeta \<Rightarrow> request list) \<Rightarrow> 'w controller \<Rightarrow> string \<Rightarrow> 'v \<times> client_object list \<Rightarrow> bool" where
  "all_tied Q c n s \<longleftrightarrow> (\<forall>obj\<in>set (snd s). object_gvk obj \<noteq> namespace_gvk \<longrightarrow> tied Q c ([], n) obj)"

lemma tied_owned:
  assumes "owners_found K Q" "k_SetControllerReference K (gvk_Kind (ct_For c)) own m = Inr m'"
    and "om_OwnerReferences (object_meta obj) = om_OwnerReferences m'" "object_gvk obj \<in> set (ct_Owns c)"
  shows "tied Q c ([], om_Name own) obj"
  unfolding tied_def
proof (intro allI impI)
  fix later w
  assume later: "object_gvk later = object_gvk obj" "om_OwnerReferences (object_meta later) = om_OwnerReferences (object_meta obj)"
  with assms have "([], om_Name own) \<in> set (Q (ct_For c) (object_meta later))" unfolding owners_found_def by metis
  with later(1) assms(4) show "wakes Q c w later ([], om_Name own)" by (simp add: wakes_def event_requests_run)
qed

section \<open>Steps that keep the note\<close>

lemma keeps_silent: "keeps (all_tied Q c n) (silent m)"
  by (auto simp: keeps_def triple_def noting_def all_tied_def split: prod.splits)

lemma note_client_keeps:
  "reads_keep (all_tied Q c n) (note_client k rc)"
  "patches_keep (all_tied Q c n) (note_client k rc)"
  "deletes_keep (all_tied Q c n) (note_client k rc) P"
  by (simp_all add: reads_keep_def patches_keep_def deletes_keep_def note_client_def keeps_silent)

lemma note_helpers_keep: "helpers_keep (all_tied Q c n) (note_kube K)"
  by (auto simp: helpers_keep_def note_kube_def intro!: keeps_silent)

lemma keeps_noted_namespace: "applies_keep (all_tied Q c n) (note_client NamespaceObj rc)"
  by (auto simp: applies_keep_def keeps_def triple_def noting_def note_client_def all_tied_def namespace_gvk_def
      split: prod.splits sum.splits)

lemma note_client_of [simp]:
  "k_cells (note_kube K) = note_client CellObj (k_cells K)" "k_routers (note_kube K) = note_client RouterObj (k_routers K)"
  "k_placements (note_kube K) = note_client PlacementObj (k_placements K)"
  "k_namespaces (note_kube K) = note_client NamespaceObj (k_namespaces K)"
  "k_services (note_kube K) = note_client ServiceObj (k_services K)" "k_quotas (note_kube K) = note_client QuotaObj (k_quotas K)"
  "k_limits (note_kube K) = note_client LimitsObj (k_limits K)" "k_netpols (note_kube K) = note_client PolicyObj (k_netpols K)"
  "k_slices (note_kube K) = note_client SliceObj (k_slices K)" "k_gateways (note_kube K) = note_client GatewayObj (k_gateways K)"
  "k_routes (note_kube K) = note_client RouteObj (k_routes K)" "k_grants (note_kube K) = note_client GrantObj (k_grants K)"
  "k_AddFinalizer (note_kube K) = k_AddFinalizer K"
  by (simp_all add: note_kube_def)

text \<open>The create-or-update of an owned kind: the mutation ends with the controller reference.\<close>

lemma keeps_noted_owned:
  assumes "owners_found K Q" "owners_stored meta rc" "gvk_Kind (ct_For c) = kind"
    and "\<And>m x. meta (put m x) = m" "\<And>x. object_meta (k x) = meta x" "\<And>x. object_gvk (k x) \<in> set (ct_Owns c)"
  shows "keeps (all_tied Q c (om_Name own))
    (rc_CreateOrUpdate (note_client k rc) obj (\<lambda>x. controlled (note_kube K) kind own meta put (g x)))"
proof -
  let ?f = "\<lambda>x. controlled (note_kube K) kind own meta put (g x)"
  have "tied Q c ([], om_Name own) (k y)" if "run_state (rc_CreateOrUpdate rc obj ?f) w = (Inr y, w')" for w y w'
  proof -
    from assms(2) that obtain old z where z: "?f old = Inr z" "om_OwnerReferences (meta y) = om_OwnerReferences (meta z)"
      unfolding owners_stored_def by blast
    from z(1) obtain m where m: "k_SetControllerReference K kind own (meta (g old)) = Inr m" "z = put m (g old)"
      by (auto simp: controlled_def note_kube_def split: sum.splits)
    show ?thesis
      by (rule tied_owned [OF assms(1)]) (use m z(2) assms(3-6) in auto)
  qed
  then show ?thesis
    by (auto simp: keeps_def triple_def noting_def note_client_def all_tied_def split: prod.splits sum.splits)
qed

text \<open>A condition that is set leaves the rest of the object, which the following steps need.\<close>

context status_conditions
begin

lemma keeps_set_cond_bind:
  "helpers_keep I K \<Longrightarrow> (\<And>cs. keeps I (f (put cs x))) \<Longrightarrow> keeps I (bnd (set_cond K x t s r m) f)"
  unfolding set_cond_eq by (auto intro!: keeps_intros)

end

section \<open>The pass of a cell\<close>

abbreviation cell_tied :: "(gvk \<Rightarrow> ObjectMeta \<Rightarrow> request list) \<Rightarrow> 'w kube \<Rightarrow> string \<Rightarrow> 'w \<times> client_object list \<Rightarrow> bool" where
  "cell_tied Q K \<equiv> all_tied Q (cell_controller K)"

lemma cell_parts:
  "helpers_keep (cell_tied Q K n) (note_kube K)" "status_patches_keep (cell_tied Q K n) (k_cells (note_kube K))"
  "applies_keep (cell_tied Q K n) (k_namespaces (note_kube K))"
  by (simp_all add: note_helpers_keep note_client_keeps keeps_noted_namespace)

lemma cell_owns:
  assumes "owners_found K Q" "owners_stored meta rc" "\<And>m x. meta (put m x) = m" "\<And>x. object_meta (k x) = meta x"
    and "\<And>x. object_gvk (k x) \<in> set (ct_Owns (cell_controller K))"
  shows "keeps (cell_tied Q K (cell_Name cell))
    (rc_CreateOrUpdate (note_client k rc) obj (\<lambda>x. controlled (note_kube K) ''Cell'' (cell_Meta cell) meta put (g x)))"
  by (rule keeps_noted_owned [OF assms(1,2) _ assms(3-5)]) (simp_all add: cell_controller_def api_gvk_def)

lemma keeps_cell_writes:
  assumes "owners_found K Q" "server_keeps K" "cell_Name cell = n"
  shows "keeps (cell_tied Q K n) (reconcileService (note_kube K) cell ns)"
    and "keeps (cell_tied Q K n) (reconcilePolicies (note_kube K) cell ns)"
proof -
  note stored = assms(2) [unfolded server_keeps_def]
  note owns = cell_owns [OF assms(1), where cell = cell, unfolded assms(3)]
  show "keeps (cell_tied Q K n) (reconcileService (note_kube K) cell ns)"
    unfolding reconcileService_def note_client_of
    by (intro keeps_control owns keeps_helpers(3) note_helpers_keep) (simp_all add: stored cell_controller_def)
  have "keeps (cell_tied Q K n) (reconcileResourceQuota (note_kube K) cell ns)"
    unfolding reconcileResourceQuota_def deleteManagedResourceQuota_def note_client_of
    by (intro keeps_control owns keeps_client(1) note_client_keeps keeps_delete [OF note_client_keeps(3)])
      (simp_all add: stored cell_controller_def)
  moreover have "keeps (cell_tied Q K n) (reconcileLimitRange (note_kube K) cell ns)"
    unfolding reconcileLimitRange_def deleteManagedLimitRange_def note_client_of
    by (intro keeps_control owns keeps_client(1) note_client_keeps keeps_delete [OF note_client_keeps(3)])
      (simp_all add: stored cell_controller_def)
  moreover have "keeps (cell_tied Q K n) (reconcileNetworkPolicy (note_kube K) cell ns)"
    unfolding reconcileNetworkPolicy_def deleteManagedNetworkPolicy_def note_client_of
    by (intro keeps_control owns keeps_client(1) note_client_keeps keeps_delete [OF note_client_keeps(3)])
      (simp_all add: stored cell_controller_def)
  ultimately show "keeps (cell_tied Q K n) (reconcilePolicies (note_kube K) cell ns)"
    unfolding reconcilePolicies_def by (intro keeps_control)
qed

lemma keeps_cell_normal:
  assumes "owners_found K Q" "server_keeps K" "cell_Name cell = n"
  shows "keeps (cell_tied Q K n) (Cell_reconcileNormal (note_kube K) cell)"
proof -
  have count: "keeps (cell_tied Q K n) (countReadyEndpoints (note_kube K) ns svc)" for ns svc
    unfolding countReadyEndpoints_def by (intro keeps_control keeps_client(2)) (simp add: note_client_keeps)
  show ?thesis
    unfolding Cell_reconcileNormal_def Let_def
    by (intro keeps_control keeps_reconcileNamespace keeps_cell_failed keeps_publish_status cell_parts count
        cell_conditions.keeps_set_cond_bind keeps_cell_writes assms) (simp_all add: assms(3))
qed

lemma keeps_cell_deletion: "keeps (cell_tied Q K n) (Cell_reconcileDeletion (note_kube K) cell)"
  unfolding Cell_reconcileDeletion_def Cell_removeFinalizer_def
  by (intro keeps_control keeps_deleteEntrypointService_any keeps_deleteNamespaceIfManaged_any keeps_client(4))
    (simp_all add: note_client_keeps)

lemma noted_names:
  assumes "names_kept meta rc"
  shows "triple I (rc_Get (note_client k rc) ns n) (\<lambda>r w. (\<forall>y. r = Inr y \<longrightarrow> om_Name (meta y) = n) \<and> True)"
    and "triple I (rc_Patch (note_client k rc) x base) (\<lambda>r w. (\<forall>y. r = Inr y \<longrightarrow> om_Name (meta y) = om_Name (meta x)) \<and> True)"
  using assms unfolding names_kept_def
  by (auto simp: triple_def noting_def note_client_def split: prod.splits) blast+

lemma cell_pass_tied:
  assumes "owners_found K Q" "server_keeps K"
  shows "keeps (cell_tied Q K (snd req)) (Cell_Reconcile (note_kube K) req)"
proof -
  let ?I = "cell_tied Q K (snd req)"
  have names: "names_kept cell_Meta (k_cells K)" "\<And>m f. om_Name (k_AddFinalizer K m f) = om_Name m"
    using assms(2) by (simp_all add: server_keeps_def)
  have reads: "triple ?I (rc_Get (note_client CellObj (k_cells K)) ns (snd req))
      (\<lambda>r w. (\<forall>c. r = Inr c \<longrightarrow> cell_Name c = snd req) \<and> ?I w)" for ns
    using triple_conj [OF noted_names(1) [OF names(1)] keeps_client(1) [OF note_client_keeps(1), unfolded keeps_def]] by simp
  have patch: "triple ?I (rc_Patch (note_client CellObj (k_cells K)) x base)
      (\<lambda>r w. (\<forall>c. r = Inr c \<longrightarrow> cell_Name c = cell_Name x) \<and> ?I w)" for x base
    using triple_conj [OF noted_names(2) [OF names(1)] keeps_client(4) [OF note_client_keeps(2), unfolded keeps_def]] by simp
  have ensure: "triple ?I (Cell_ensureFinalizer (note_kube K) cell) (\<lambda>r w. (\<forall>c. r = Inr c \<longrightarrow> cell_Name c = snd req) \<and> ?I w)"
    if "cell_Name cell = snd req" for cell
    using that patch [of "cell\<lparr>cell_Meta := k_AddFinalizer K (cell_Meta cell) FinalizerCell\<rparr>" cell]
    unfolding Cell_ensureFinalizer_def by (intro triple_if triple_return) (simp_all add: names(2))
  show ?thesis
    unfolding Cell_Reconcile_def note_client_of keeps_def
  proof (rule triple_bind_fact [OF reads], unfold keeps_def [symmetric], goal_cases)
    case (1 r)
    have pass: "keeps ?I (bnd (Cell_ensureFinalizer (note_kube K) cell) (\<lambda>r. case r of Inl err \<Rightarrow> ret (NoRequeue, Some err)
        | Inr cell \<Rightarrow> Cell_reconcileNormal (note_kube K) cell))" if "r = Inr cell" for cell
      unfolding keeps_def
      by (rule triple_bind_fact [OF ensure], use 1 that in simp, unfold keeps_def [symmetric])
        (intro keeps_control keeps_cell_normal assms, simp)
    show ?case
      by (rule keeps_case_sum, rule keeps_return, rule keeps_if, rule keeps_cell_deletion, rule pass)
  qed
qed

section \<open>The pass of a router\<close>

abbreviation router_tied :: "(gvk \<Rightarrow> ObjectMeta \<Rightarrow> request list) \<Rightarrow> 'w kube \<Rightarrow> string \<Rightarrow> 'w \<times> client_object list \<Rightarrow> bool" where
  "router_tied Q K \<equiv> all_tied Q (router_controller K)"

lemma router_owns:
  assumes "owners_found K Q" "owners_stored meta rc" "\<And>m x. meta (put m x) = m" "\<And>x. object_meta (k x) = meta x"
    and "\<And>x. object_gvk (k x) \<in> set (ct_Owns (router_controller K))"
  shows "keeps (router_tied Q K (router_Name router))
    (rc_CreateOrUpdate (note_client k rc) obj (\<lambda>x. controlled (note_kube K) ''CellRouter'' (router_Meta router) meta put (g x)))"
  by (rule keeps_noted_owned [OF assms(1,2) _ assms(3-5)]) (simp_all add: router_controller_def api_gvk_def)

lemma keeps_router_writes:
  assumes "owners_found K Q" "server_keeps K" "router_Name router = n"
  shows "keeps (router_tied Q K n) (reconcileGateway (note_kube K) router)"
    and "keeps (router_tied Q K n) (reconcileReferenceGrant (note_kube K) router name ns b)"
    and "(\<And>gs. keeps (router_tied Q K n) (grants_loop (note_kube K) router (plan_name plan) ns bs gs)) \<Longrightarrow>
      keeps (router_tied Q K n) (apply_route (note_kube K) router ns plan bs st p)"
proof -
  note stored = assms(2) [unfolded server_keeps_def]
  note owns = router_owns [OF assms(1), where router = router, unfolded assms(3)]
  show "keeps (router_tied Q K n) (reconcileGateway (note_kube K) router)"
    unfolding reconcileGateway_def note_client_of Let_def
    by (intro keeps_control owns keeps_helpers(3) note_helpers_keep) (simp_all add: stored router_controller_def)
  show "keeps (router_tied Q K n) (reconcileReferenceGrant (note_kube K) router name ns b)"
    unfolding reconcileReferenceGrant_def note_client_of
    by (intro keeps_control owns keeps_helpers(3) note_helpers_keep) (simp_all add: stored router_controller_def)
  show "keeps (router_tied Q K n) (apply_route (note_kube K) router ns plan bs st p)"
    if "\<And>gs. keeps (router_tied Q K n) (grants_loop (note_kube K) router (plan_name plan) ns bs gs)"
    using that unfolding apply_route_def note_client_of
    by (intro keeps_control owns keeps_helpers(3) note_helpers_keep that) (simp_all add: stored router_controller_def)
qed

lemma keeps_router_routes:
  assumes "owners_found K Q" "server_keeps K" "router_Name router = n"
  shows "keeps (router_tied Q K n) (reconcileRoutes (note_kube K) router ns placements)"
proof -
  note writes = keeps_router_writes [OF assms]
  have grants: "keeps (router_tied Q K n) (grants_loop (note_kube K) router name ns bs gs)" for name bs gs
    by (induction bs arbitrary: gs) (auto intro!: keeps_control writes(2))
  have patched: "keeps (router_tied Q K n) (patchPlacementReadiness (note_kube K) p bs reason ready)" for p bs reason ready
    unfolding patchPlacementReadiness_def Let_def
    by (intro keeps_control keeps_helpers(1) keeps_client(5) note_helpers_keep) (simp add: note_client_keeps)
  have resolved: "keeps (router_tied Q K n) (resolveRouteBackends (note_kube K) plan)" for plan
    by (rule keeps_resolveRouteBackends) (simp add: note_client_keeps)
  have invalid: "keeps (router_tied Q K n) (invalid_loop (note_kube K) placements entries ss)" for entries ss
    by (induction entries arbitrary: ss) (auto intro!: keeps_control patched)
  have plans: "keeps (router_tied Q K n) (plans_loop (note_kube K) router ns plans p)" for plans p
    by (induction plans arbitrary: p) (auto simp: Let_def intro!: keeps_control patched resolved writes(3) grants)
  have "keeps (router_tied Q K n) (cleanupStaleRoutes (note_kube K) router ns expected)"
    "keeps (router_tied Q K n) (cleanupStaleReferenceGrants (note_kube K) router expected)" for expected
    unfolding cleanupStaleRoutes_def cleanupStaleReferenceGrants_def note_client_of
    by (intro keeps_control keeps_client(2) keeps_delete_loop_any note_client_keeps)+
  then show ?thesis
    unfolding reconcileRoutes_def
    by (intro keeps_control keeps_helpers(2) note_helpers_keep invalid plans)
qed

lemma keeps_router_normal:
  assumes "owners_found K Q" "server_keeps K" "router_Name router = n"
  shows "keeps (router_tied Q K n) (Router_reconcileNormal (note_kube K) router)"
proof -
  have namespace: "keeps (router_tied Q K n) (reconcileGatewayNamespace (note_kube K) router ns)" for router ns
    unfolding reconcileGatewayNamespace_def
    by (intro keeps_control keeps_client(3) keeps_helpers(3) note_helpers_keep) (simp add: keeps_noted_namespace)
  have listed: "keeps (router_tied Q K n) (listPlacements (note_kube K) name)" for name
    unfolding listPlacements_def by (intro keeps_control keeps_client(2)) (simp add: note_client_keeps)
  have status: "keeps (router_tied Q K n) (patchRouterStatus (note_kube K) router base)" for router base
    unfolding patchRouterStatus_def by (intro keeps_client(5)) (simp add: note_client_keeps)
  have published: "keeps (router_tied Q K n) (router_failed (note_kube K) router base t msg err)"
    "keeps (router_tied Q K n) (publish_router (note_kube K) router base ref ready requeue managed)" for router base t msg err ref ready requeue managed
    unfolding router_failed_def publish_router_def Let_def
    by (intro keeps_control router_conditions.keeps_set_cond note_helpers_keep status)+
  show ?thesis
    unfolding Router_reconcileNormal_def Let_def
    by (intro keeps_control namespace listed published keeps_router_writes(1) keeps_router_routes
        router_conditions.keeps_set_cond_bind note_helpers_keep assms) (simp_all add: assms(3))
qed

lemma keeps_router_deletion: "keeps (router_tied Q K n) (Router_reconcileDeletion (note_kube K) router)"
  unfolding Router_reconcileDeletion_def Router_removeFinalizer_def deleteManagedHTTPRoutes_def
    deleteManagedReferenceGrants_def deleteManagedGateway_def Let_def note_client_of
  by (intro keeps_control keeps_client(1,2,4) keeps_delete_loop_any note_client_keeps
      keeps_delete [OF note_client_keeps(3)] TrueI)

lemma router_pass_tied:
  assumes "owners_found K Q" "server_keeps K"
  shows "keeps (router_tied Q K (snd req)) (Router_Reconcile (note_kube K) req)"
proof -
  let ?I = "router_tied Q K (snd req)"
  have names: "names_kept router_Meta (k_routers K)" "\<And>m f. om_Name (k_AddFinalizer K m f) = om_Name m"
    using assms(2) by (simp_all add: server_keeps_def)
  have reads: "triple ?I (rc_Get (note_client RouterObj (k_routers K)) ns (snd req))
      (\<lambda>r w. (\<forall>x. r = Inr x \<longrightarrow> router_Name x = snd req) \<and> ?I w)" for ns
    using triple_conj [OF noted_names(1) [OF names(1)] keeps_client(1) [OF note_client_keeps(1), unfolded keeps_def]] by simp
  have patch: "triple ?I (rc_Patch (note_client RouterObj (k_routers K)) x base)
      (\<lambda>r w. (\<forall>y. r = Inr y \<longrightarrow> router_Name y = router_Name x) \<and> ?I w)" for x base
    using triple_conj [OF noted_names(2) [OF names(1)] keeps_client(4) [OF note_client_keeps(2), unfolded keeps_def]] by simp
  have ensure: "triple ?I (Router_ensureFinalizer (note_kube K) router) (\<lambda>r w. (\<forall>x. r = Inr x \<longrightarrow> router_Name x = snd req) \<and> ?I w)"
    if "router_Name router = snd req" for router
    using that patch [of "router\<lparr>router_Meta := k_AddFinalizer K (router_Meta router) FinalizerCellRouter\<rparr>" router]
    unfolding Router_ensureFinalizer_def by (intro triple_if triple_return) (simp_all add: names(2))
  show ?thesis
    unfolding Router_Reconcile_def note_client_of keeps_def
  proof (rule triple_bind_fact [OF reads], unfold keeps_def [symmetric], goal_cases)
    case (1 r)
    have pass: "keeps ?I (bnd (Router_ensureFinalizer (note_kube K) router) (\<lambda>r. case r of Inl err \<Rightarrow> ret (Some (NoRequeue, Some err))
        | Inr router \<Rightarrow> Router_reconcileNormal (note_kube K) router))" if "r = Inr router" for router
      unfolding keeps_def
      by (rule triple_bind_fact [OF ensure], use 1 that in simp, unfold keeps_def [symmetric])
        (intro keeps_control keeps_router_normal assms, simp)
    show ?case
      by (rule keeps_case_sum, rule keeps_return, rule keeps_if)
        (intro keeps_control keeps_router_deletion, rule pass)
  qed
qed

section \<open>Properties\<close>

lemma written_tied:
  "keeps (all_tied Q c n) m \<Longrightarrow> \<forall>obj\<in>set (written m w). object_gvk obj \<noteq> namespace_gvk \<longrightarrow> tied Q c ([], n) obj"
  using keeps_run [of "all_tied Q c n" m "(w, [])"] by (simp add: all_tied_def written_def)

text \<open>
  C19: what a pass writes leads back to it. Every object that a pass of a cell creates or updates,
  its services, quotas, limit ranges and network policies, wakes this cell whenever an event of it
  is delivered later, however it has changed since, as long as it has its owner references; and so
  does every gateway, route and reference grant of a pass of a router wake this router. The one
  exception is the namespace, which has no owner. The hypotheses are that the owner references
  which \<^verbatim>\<open>SetControllerReference\<close> wrote lead to the owner, and that the server keeps owner
  references and names as they are written.
\<close>

theorem written_objects_wake:
  assumes "owners_found K Q" "server_keeps K"
  shows "(\<forall>obj\<in>set (written (Cell_Reconcile (note_kube K) req) w).
      object_gvk obj \<noteq> namespace_gvk \<longrightarrow> tied Q (cell_controller K) ([], snd req) obj) \<and>
    (\<forall>obj\<in>set (written (Router_Reconcile (note_kube K) req) w).
      object_gvk obj \<noteq> namespace_gvk \<longrightarrow> tied Q (router_controller K) ([], snd req) obj)"
  by (intro conjI written_tied cell_pass_tied router_pass_tied assms)

lemma mem_server_keeps:
  "owners_stored meta (mem_client get put meta take_status)" "names_kept meta (mem_client get put meta take_status)"
proof -
  show "owners_stored meta (mem_client get put meta take_status)"
    unfolding owners_stored_def
    by (intro allI impI) (auto simp: mem_client_def split: option.splits sum.splits)
  show "names_kept meta (mem_client get put meta take_status)"
    by (auto simp: names_kept_def mem_client_def find_Some_iff has_key_def split: option.splits if_splits)
qed

lemma owning_server_keeps: "server_keeps owning_kube"
  by (simp add: server_keeps_def mem_kube_def mem_server_keeps)

text \<open>
  The passes of a cell with a quota and of a router with a route: what they write, and the
  requests for a service whose type and a route whose statuses someone changed.
\<close>

theorem written_objects_wake_witness:
  "map object_gvk (written (Cell_Reconcile (note_kube owning_kube) ([], ''alpha'')) policy_cluster) =
     [namespace_gvk, GVK [] ''v1'' ''Service'', GVK [] ''v1'' ''ResourceQuota''] \<and>
   map (gvk_Kind \<circ> object_gvk) (written (Router_Reconcile (note_kube owning_kube) ([], ''edge'')) (routed_cluster ''gw'')) =
     [''Namespace'', ''Gateway'', ''ReferenceGrant'', ''HTTPRoute''] \<and>
   (\<exists>svc. ServiceObj svc \<in> set (written (Cell_Reconcile (note_kube owning_kube) ([], ''alpha'')) policy_cluster) \<and>
      wakes controller_requests (cell_controller owning_kube) empty_cluster
        (ServiceObj (svc\<lparr>svc_Type := ''LoadBalancer''\<rparr>)) ([], ''alpha'')) \<and>
   (\<exists>route. RouteObj route \<in> set (written (Router_Reconcile (note_kube owning_kube) ([], ''edge'')) (routed_cluster ''gw'')) \<and>
      wakes controller_requests (router_controller owning_kube) empty_cluster
        (RouteObj (route\<lparr>route_Parents := []\<rparr>)) ([], ''edge''))"
proof -
  let ?cell = "written (Cell_Reconcile (note_kube owning_kube) ([], ''alpha'')) policy_cluster"
  let ?router = "written (Router_Reconcile (note_kube owning_kube) ([], ''edge'')) (routed_cluster ''gw'')"
  have cell: "map object_gvk ?cell = [namespace_gvk, GVK [] ''v1'' ''Service'', GVK [] ''v1'' ''ResourceQuota'']"
    by code_simp
  have router: "map (gvk_Kind \<circ> object_gvk) ?router = [''Namespace'', ''Gateway'', ''ReferenceGrant'', ''HTTPRoute'']"
    by code_simp
  have kind: "''Service'' = gvk_Kind (object_gvk obj) \<Longrightarrow> \<exists>s. obj = ServiceObj s"
    "''HTTPRoute'' = gvk_Kind (object_gvk obj) \<Longrightarrow> \<exists>s. obj = RouteObj s" for obj
    by (cases obj; simp add: api_gvk_def)+
  have "''Service'' \<in> set (map (gvk_Kind \<circ> object_gvk) ?cell)" "''HTTPRoute'' \<in> set (map (gvk_Kind \<circ> object_gvk) ?router)"
    using cell router by (simp_all add: map_map [symmetric] del: map_map)
  then obtain svc route where svc: "ServiceObj svc \<in> set ?cell" and route: "RouteObj route \<in> set ?router"
    by (auto dest!: kind)
  note wake = written_objects_wake [OF owning_kube_found owning_server_keeps]
  have "tied controller_requests (cell_controller owning_kube) ([], ''alpha'') (ServiceObj svc)"
    using conjunct1 [OF wake] svc by (fastforce simp: namespace_gvk_def)
  moreover have "tied controller_requests (router_controller owning_kube) ([], ''edge'') (RouteObj route)"
    using conjunct2 [OF wake] route by (fastforce simp: namespace_gvk_def)
  ultimately show ?thesis
    using cell router svc route unfolding tied_def by (intro conjI exI [of _ svc] exI [of _ route]) simp_all
qed

end
