(* ===== verification/Spec2Isabelle.thy ===== *)
theory Spec2Isabelle
  imports Operator DeepCopy Startup Rbac Ownership
begin

text \<open>
  \<^bold>\<open>Verification of the cell router operator\<close>

  The operator runs two controllers over the Kubernetes API. The cell controller gives every
  \<^verbatim>\<open>Cell\<close> a namespace, a service, optional policies and a status that says whether the cell
  can take traffic. The router controller gives every \<^verbatim>\<open>CellRouter\<close> a gateway and one
  \<^verbatim>\<open>HTTPRoute\<close> with reference grants for every static route of the router and every
  \<^verbatim>\<open>CellPlacement\<close> that refers to it, with the traffic-ready cells as backends.

  \<^bold>\<open>Theories and sources.\<close>

    \<^item> \<open>Prelude\<close>: bytes, decimal and hexadecimal numbers, Go maps (\<open>gomap\<close>, with nil as
      \<open>None\<close>), errors as values, sorting and joining of strings, \<^verbatim>\<open>strconv\<close>.
    \<^item> \<open>Types\<close>: \<^verbatim>\<open>internal/constants\<close> and the structs of \<^verbatim>\<open>api/v1alpha1/*_types.go\<close>, as records
      with a prefix per struct; the Kubernetes and Gateway API structs the operator reads or writes.
    \<^item> \<open>Metadata\<close>: \<^verbatim>\<open>internal/utils/metadata/merge.go\<close>, and the locale \<open>resource_builder\<close>, the
      contract of a function that writes desired state into an object.
    \<^item> \<open>Regexp\<close>: a matcher for the part of RE2 that the compiler emits, full match and search.
    \<^item> \<open>Validation\<close>: \<^verbatim>\<open>api/v1alpha1/cellplacement_validation.go\<close>.
    \<^item> \<open>RangeRegex\<close>, \<open>PlacementCompiler\<close>, \<open>Overlap\<close>: the three parts of
      \<^verbatim>\<open>internal/controller/cellplacement_compiler.go\<close>: ranges to regular expressions, placements
      to route specifications, and overlaps between placements.
    \<^item> \<open>CellBuilder\<close>, \<open>RouterBuilder\<close>: \<^verbatim>\<open>internal/resource/cell/builder.go\<close> and
      \<^verbatim>\<open>internal/resource/router/builder.go\<close>; each builder interprets \<open>resource_builder\<close>.
    \<^item> \<open>Kube\<close>: the API client and the helper packages as a record of operations (\<open>kube\<close>), an
      argument of every reconciler, with what is documented about them as named predicates; Hoare
      triples for computations of the state monad over a world of any type.
    \<^item> \<open>Cluster\<close>: an in-memory cluster that satisfies the predicates; the witnesses run on it.
    \<^item> \<open>Conditions\<close>: the locale \<open>status_conditions\<close>, interpreted on cells and on routers.
    \<^item> \<open>ObjectStore\<close>: the locale \<open>object_store\<close>, the API server as a store of objects of one
      kind, interpreted on the in-memory cluster.
    \<^item> \<open>CellController\<close>: \<^verbatim>\<open>internal/controller/cell_controller.go\<close>; the reconciler with its
      published status.
    \<^item> \<open>CellStability\<close>, \<open>CellTeardown\<close>: a pass and a deletion pass of the same reconciler as
      relations on the stored objects, over the locale \<open>cell_world\<close> and its extension
      \<open>teardown_world\<close>, an API server that completes what is written and deletes in its own time;
      both are interpreted on the in-memory cluster.
    \<^item> \<open>RoutePlan\<close>, \<open>RouterController\<close>, \<open>RouterStatus\<close>, \<open>RouteConvergence\<close>:
      \<^verbatim>\<open>internal/controller/cellrouter_controller.go\<close>; plans, backends and readiness; the reconciler;
      its published status; and what it makes of the routes of the cluster.
    \<^item> \<open>Operator\<close>: both controllers as one transition system with reachable worlds.
    \<^item> \<open>Wiring\<close>: the kinds, the two \<^verbatim>\<open>SetupWithManager\<close> methods as values (\<open>cell_controller\<close>,
      \<open>router_controller\<close>), and the requests that an event of an object leads to.
    \<^item> \<open>Ownership\<close>: the objects that the passes write, and the requests their events lead to.
    \<^item> \<open>Rbac\<close>: the \<^verbatim>\<open>+kubebuilder:rbac\<close> markers of the two controllers, and a client that records
      every request with the verb it needs.
    \<^item> \<open>Flags\<close>, \<open>Startup\<close>: \<^verbatim>\<open>cmd/main.go\<close>, with the command line as \<^verbatim>\<open>flag.Parse\<close> reads it, the
      options of the servers and of the manager, and the process with its exit codes;
      \<^verbatim>\<open>api/v1alpha1/groupversion_info.go\<close> and the \<^verbatim>\<open>init\<close> functions beside the types.
    \<^item> \<open>GoHeap\<close>, \<open>DeepCopy\<close>: \<^verbatim>\<open>api/v1alpha1/zz_generated.deepcopy.go\<close> over a memory of objects with
      addresses; pointers, slices and maps are references, every struct has its layout, and the
      locales \<open>deep_copier\<close> and \<open>external_copiers\<close> state what a copy function promises.

  \<^bold>\<open>How code is modelled.\<close> A Go function without effects is a HOL function; a method of a
  reconciler is a computation over the world, and the object it mutates through a pointer is
  passed and returned. That this is sound rests on the copies the code takes before it mutates;
  the deep copies themselves are modelled with aliasing. An error is the left side of a sum or
  an \<open>error option\<close>; a panic of the overlap check is \<open>None\<close>. 32-bit and 64-bit integers are
  words. A loop is a recursive function over the list it walks; the loop of Go's \<^verbatim>\<open>flag.Parse\<close>,
  library code that \<^verbatim>\<open>main\<close> only calls, is driven by what each step leaves: it is a partial
  function that is shown to return. No fuel is used. The order in which Go enumerates a map is an operation of \<open>kube\<close>.

  \<^bold>\<open>What is shown.\<close>

    \<^item> Compiler: a validated range compiles to an expression that matches exactly its numbers;
      every validated selector and placement compiles to matches that accept exactly what the
      selectors say; validation accepts exactly the described placements; overlap detection is
      characterised, with the cases in which it reports too much.
    \<^item> Builders: owned labels survive user metadata, a second application changes nothing, routes,
      grants, services and policies have exactly the described content.
    \<^item> Cells: a successful pass publishes a status that tells the truth and asks for a requeue
      exactly when endpoints are missing; it writes and removes exactly the described objects, up
      to what the server adds to them, and a second pass changes nothing; a deletion takes what the
      cell controls, and with tear-down its namespace, and keeps the finalizer when it fails.
    \<^item> Routers: plans partition the placements; backends are exactly the traffic-ready cells; a
      successful pass leaves exactly the planned routes and reports which of them the router's own
      gateway has accepted; deletion spares what the router does not control.
    \<^item> Together, in this theory: the router reads from a stored cell what the cell controller
      meant; no interleaving of passes touches a gateway of another controller, as long as no cell
      asks for the tear-down of the gateway's namespace.
    \<^item> Wiring: every object a pass writes, namespaces apart, wakes it again whenever it changes later,
      and so do the objects it takes its decisions from; namespaces have no owner and are not
      watched. The markers grant every request a pass can make.
    \<^item> Process: flags are read back as written; the servers
      are hardened unless an argument asks otherwise; the scheme knows every watched kind; the
      manager starts only after both controllers and both probes are set up.
    \<^item> Copies: every generated function is the copy that its struct demands, returns an equal value
      of the same type that shares nothing with the original, and neither side sees later writes
      to the other.

  \<^bold>\<open>Hypotheses.\<close> Theorems about a whole pass take the predicates on \<open>kube\<close> as hypotheses;
  each has a witness on the in-memory cluster. Theorems about the stored objects assume that reads
  of a pass are current and that nobody else writes these objects meanwhile. They allow the server
  to complete what is written: identifiers, labels and defaults of its own on objects of cells
  (\<open>cell_admission\<close>), anything but labels and owner references on routes and grants
  (\<open>object_store\<close>). A deleted object of a cell may stay for a while, marked as terminating, and a
  deleted namespace takes its contents along, sooner or later. What a pass reports of routes is
  told for gateways whose status entries do not change during the pass.

  \<^bold>\<open>Not modelled.\<close> Log lines, the informers and workqueues of the manager library, the TLS and
  metrics servers it runs, and leader election: the model ends where values are handed to the
  library. Admission through the CRD schemas, the scripts and the manifests under
  \<^verbatim>\<open>config\<close> are not Go code of the operator. Quantities and TLS blocks are opaque strings in the
  reconcilers, since the operator copies them only, and external types with copy functions of
  their own in the deep copies.
\<close>

section \<open>Cells and routers\<close>

lemma published_traffic:
  assumes "published K cell st"
  shows "fst (isCellTrafficReady K (cell\<lparr>cell_Status := st\<rparr>)) \<longleftrightarrow> serving (effectiveCellState cell) (cst_AvailableEndpoints st)"
proof -
  have conds: "\<exists>c. k_FindStatusCondition K (cst_Conditions st) t = Some c \<and> c_Status c = s"
    if "cond_status K (cst_Conditions st) t = Some s" for t s
    using that by (auto simp: cond_status_def)
  from assms obtain b r where
    b: "k_FindStatusCondition K (cst_Conditions st) CellBackendReadyCondition = Some b"
      "c_Status b = bool_status (backend_up (effectiveCellState cell) (cst_AvailableEndpoints st))" and
    r: "k_FindStatusCondition K (cst_Conditions st) CellReadyCondition = Some r"
      "c_Status r = bool_status (serving (effectiveCellState cell) (cst_AvailableEndpoints st))"
    unfolding published_def using conds by metis
  have "effectiveCellState (cell\<lparr>cell_Status := st\<rparr>) = effectiveCellState cell" by (simp add: effectiveCellState_def)
  then show ?thesis
    using b r by (auto simp: isCellTrafficReady_def Let_def serving_def backend_up_def bool_status_def split: if_splits)
qed

lemma published_backend:
  assumes "published K cell st" "effectiveNamespace cell \<noteq> []"
    and "ep_ServiceName (cs_Entrypoint (cell_Spec cell)) \<noteq> []" "ep_Port (cs_Entrypoint (cell_Spec cell)) \<noteq> 0"
  shows "resolveBackend (cell\<lparr>cell_Status := st\<rparr>) = Inr \<lparr>bt_Namespace = effectiveNamespace cell,
    bt_Name = ep_ServiceName (cs_Entrypoint (cell_Spec cell)), bt_Port = ep_Port (cs_Entrypoint (cell_Spec cell)),
    bt_Weight = None, bt_CellRef = []\<rparr>"
  using assms by (simp add: resolveBackend_def published_def Let_def)

text \<open>
  C3: the two controllers agree. After a successful reconcile of a cell, a router that reads
  the stored cell takes it as traffic-ready exactly when the cell is neither disabled nor
  draining and the pass counted endpoints, and it resolves it to the service, port and
  namespace that the cell's spec names.
\<close>

theorem cell_router_agreement:
  assumes "conditions_ok K" "status_patch_ok K stored"
    and "cell_packages_keep (\<lambda>w. stored w (cell_key cell) = Some (cell_Status cell)) K cell"
    and "stored w (cell_key cell) = Some (cell_Status cell)"
    and "effectiveNamespace cell \<noteq> []" "ep_ServiceName (cs_Entrypoint (cell_Spec cell)) \<noteq> []"
      "ep_Port (cs_Entrypoint (cell_Spec cell)) \<noteq> 0"
    and "run_state (Cell_reconcileNormal K cell) w = ((res, None), w')"
  shows "\<exists>st. stored w' (cell_key cell) = Some st \<and>
    (fst (isCellTrafficReady K (cell\<lparr>cell_Status := st\<rparr>)) \<longleftrightarrow>
       effectiveCellState cell \<noteq> CellStateDisabled \<and> effectiveCellState cell \<noteq> CellStateDraining \<and>
       cst_AvailableEndpoints st \<noteq> 0) \<and>
    resolveBackend (cell\<lparr>cell_Status := st\<rparr>) = Inr \<lparr>bt_Namespace = effectiveNamespace cell,
      bt_Name = ep_ServiceName (cs_Entrypoint (cell_Spec cell)), bt_Port = ep_Port (cs_Entrypoint (cell_Spec cell)),
      bt_Weight = None, bt_CellRef = []\<rparr>"
proof -
  have "outcome K cell stored (res, None) w'"
    by (rule triple_run [OF triple_reconcileNormal [OF assms(1-3) refl] assms(4,8)])
  then obtain st where st: "stored w' (cell_key cell) = Some st" "published K cell st" by (auto simp: outcome_def)
  then show ?thesis
    using published_traffic [OF st(2)] published_backend [OF st(2) assms(5-7)] unfolding serving_def
    by (intro exI [of _ st] conjI)
qed

theorem cell_router_agreement_witness:
  "\<exists>w' st. run_state (Cell_reconcileNormal mem_kube example_cell) example_cluster = ((NoRequeue, None), w') \<and>
     stored_status w' (cell_key example_cell) = Some st \<and>
     resolveBackend (example_cell\<lparr>cell_Status := st\<rparr>) =
       Inr \<lparr>bt_Namespace = ''cell-alpha'', bt_Name = ''web'', bt_Port = 80, bt_Weight = None, bt_CellRef = []\<rparr>"
proof -
  have "fst (run_state (Cell_reconcileNormal mem_kube example_cell) example_cluster) = (NoRequeue, None)"
    by code_simp
  then obtain w' where run: "run_state (Cell_reconcileNormal mem_kube example_cell) example_cluster = ((NoRequeue, None), w')"
    by (metis prod.collapse)
  have stored: "stored_status example_cluster (cell_key example_cell) = Some (cell_Status example_cell)"
    by (simp add: mem_status_def example_cluster_def has_key_def)
  have named: "effectiveNamespace example_cell = ''cell-alpha''"
    "ep_ServiceName (cs_Entrypoint (cell_Spec example_cell)) = ''web''" "ep_Port (cs_Entrypoint (cell_Spec example_cell)) = 80"
    by (simp_all add: effectiveNamespace_def example_cell_def)
  from cell_router_agreement [OF mem_conditions_ok mem_status_patch_ok mem_cell_packages_keep stored _ _ _ run] run
  show ?thesis by (auto simp: named)
qed

section \<open>The operator as a whole\<close>

text \<open>
  C8: a gateway that another controller owns is safe from the operator, as long as no cell asks
  for the tear-down of its namespace. In every world that is reached by any interleaving of
  passes of all cells and routers and of steps of the environment that do not touch it, the
  gateway is stored as it was at the start, even when a router names it as its own gateway. The
  deletion of another namespace is allowed to do anything to what is in that namespace.
\<close>

theorem foreign_gateway_untouched:
  assumes "untouched_by_failure (k_gateways K) gw_Meta gw I" "refuses K foreign (gw_Meta gw)"
    and "routers_foreign K foreign I" "bystanders_keep I K"
    and "other_namespaces_keep (om_Namespace (gw_Meta gw)) I K" "cells_spare (om_Namespace (gw_Meta gw)) I K"
    and "\<And>w w'. env w w' \<Longrightarrow> I w \<Longrightarrow> I w'" "reachable K env w0 w" "I w0"
  shows "I w"
  using assms by (rule foreign_gateway_invariant)

definition owned_gateway :: Gateway where
  "owned_gateway = \<lparr>gw_Meta = (NewMeta ''gw'' ''infra'')\<lparr>om_OwnerReferences :=
       [\<lparr>or_Kind = ''Mesh'', or_Name = ''mesh'', or_UID = ''uid-x'', or_Controller = Some True\<rparr>]\<rparr>,
     gw_GatewayClassName = ''other'', gw_Listeners = []\<rparr>"

definition foreign_uid :: "ObjectMeta \<Rightarrow> bool" where
  "foreign_uid m \<longleftrightarrow> om_UID m \<noteq> ''uid-x''"

definition gateway_safe :: "cluster \<Rightarrow> bool" where
  "gateway_safe w \<longleftrightarrow> only_stored gw_Meta owned_gateway (db_gateways w) \<and>
     list_all (foreign_uid \<circ> router_Meta) (db_routers w) \<and> list_all (spares ''infra'') (db_cells w)"

lemma mem_gateway_safe:
  "untouched_by_failure (k_gateways mem_kube) gw_Meta owned_gateway gateway_safe"
  "refuses mem_kube foreign_uid (gw_Meta owned_gateway)"
  "routers_foreign mem_kube foreign_uid gateway_safe" "bystanders_keep gateway_safe mem_kube"
  "other_namespaces_keep (om_Namespace (gw_Meta owned_gateway)) gateway_safe mem_kube"
  "cells_spare (om_Namespace (gw_Meta owned_gateway)) gateway_safe mem_kube"
proof -
  show "untouched_by_failure (k_gateways mem_kube) gw_Meta owned_gateway gateway_safe"
    unfolding gateway_safe_def [abs_def] by (simp add: mem_kube_def mem_untouched)
  show "refuses mem_kube foreign_uid (gw_Meta owned_gateway)"
    unfolding refuses_def
  proof (intro conjI allI impI)
    show "meta_key m' = meta_key m" if "k_SetControllerReference mem_kube kind own m = Inr m'" for kind own m m'
      using mem_owner [of kind own m m'] that by (simp add: mem_kube_def)
    show "\<exists>e. k_SetControllerReference mem_kube kind own m = Inl e" "\<not> k_IsControlledBy mem_kube m own"
      if "foreign_uid own" "om_OwnerReferences m = om_OwnerReferences (gw_Meta owned_gateway)" for kind own m
      using that by (auto simp: mem_kube_def set_controller_def is_controlled_def owned_gateway_def foreign_uid_def)
  qed
  show "bystanders_keep gateway_safe mem_kube"
    unfolding bystanders_keep_def client_keeps_def
    by (intro conjI mem_helpers_keep) (simp_all add: mem_kube_def mem_client_reads mem_client_keeps gateway_safe_def)
  show "other_namespaces_keep (om_Namespace (gw_Meta owned_gateway)) gateway_safe mem_kube"
    unfolding other_namespaces_keep_def
  proof (intro conjI allI)
    show "applies_keep gateway_safe (k_namespaces mem_kube)"
      by (simp add: mem_kube_def mem_client_keeps gateway_safe_def)
    show "deletes_keep gateway_safe (k_namespaces mem_kube) (\<lambda>n. om_Name (ns_Meta n) \<noteq> om_Namespace (gw_Meta owned_gateway))"
      by (simp add: mem_kube_def mem_client_keeps gateway_safe_def)
    show "triple gateway_safe (rc_Get (k_namespaces mem_kube) [] n)
        (\<lambda>r w. (\<forall>y. r = Inr y \<longrightarrow> om_Name (ns_Meta y) = n) \<and> gateway_safe w)" for n
      by (auto simp: triple_def mem_kube_def mem_client_def find_Some_iff has_key_def split: option.splits)
  qed
  show "cells_spare (om_Namespace (gw_Meta owned_gateway)) gateway_safe mem_kube"
    unfolding cells_spare_def status_patches_keep_def
  proof (intro conjI allI impI)
    show "reads_keep gateway_safe (k_cells mem_kube)" by (simp add: mem_kube_def mem_client_reads)
    show "keeps gateway_safe (rc_StatusPatch (k_cells mem_kube) x base)" for x base
      by (auto simp: keeps_def triple_def mem_kube_def mem_client_def gateway_safe_def list_all_iff spares_def effectiveNamespace_def)
    show "triple gateway_safe (rc_Get (k_cells mem_kube) ns n)
        (\<lambda>r w. (\<forall>c. r = Inr c \<longrightarrow> spares (om_Namespace (gw_Meta owned_gateway)) c) \<and> gateway_safe w)" for ns n
      by (auto simp: triple_def mem_kube_def mem_client_def gateway_safe_def list_all_iff find_Some_iff owned_gateway_def NewMeta_def
          split: option.splits)
    show "keeps gateway_safe (rc_Patch (k_cells mem_kube) x base)" if "spares (om_Namespace (gw_Meta owned_gateway)) x" for x base
      using that by (auto simp: keeps_def triple_def mem_kube_def mem_client_def gateway_safe_def list_all_iff owned_gateway_def NewMeta_def)
  qed (simp_all add: mem_kube_def)
  show "routers_foreign mem_kube foreign_uid gateway_safe"
    unfolding routers_foreign_def
  proof (intro conjI allI impI)
    show "reads_keep gateway_safe (k_routers mem_kube)" by (simp add: mem_kube_def mem_client_reads)
    show "triple gateway_safe (rc_Get (k_routers mem_kube) ns n)
        (\<lambda>r w. (\<forall>y. r = Inr y \<longrightarrow> foreign_uid (router_Meta y)) \<and> gateway_safe w)" for ns n
      by (auto simp: triple_def mem_kube_def mem_client_def gateway_safe_def list_all_iff find_Some_iff split: option.splits)
    show "triple gateway_safe (rc_Patch (k_routers mem_kube) x base)
        (\<lambda>r w. (\<forall>y. r = Inr y \<longrightarrow> foreign_uid (router_Meta y)) \<and> gateway_safe w)" if "foreign_uid (router_Meta x)" for x base
      using that by (auto simp: triple_def mem_kube_def mem_client_def gateway_safe_def list_all_iff)
    show "keeps gateway_safe (rc_StatusPatch (k_routers mem_kube) x base)" for x base
      by (auto simp: keeps_def triple_def mem_kube_def mem_client_def gateway_safe_def list_all_iff)
  qed (simp_all add: mem_kube_def foreign_uid_def)
qed

definition contested_cluster :: cluster where
  "contested_cluster = empty_cluster\<lparr>db_cells := [example_cell], db_routers := [example_router], db_gateways := [owned_gateway]\<rparr>"

text \<open>The router of this cluster names the gateway of another controller.\<close>

theorem foreign_gateway_untouched_witness:
  "owned_gateway \<in> set (db_gateways (snd (run_state (Router_Reconcile mem_kube ([], ''edge'')) contested_cluster))) \<and>
   gs_Name (crs_Gateway (router_Spec example_router)) = om_Name (gw_Meta owned_gateway) \<and>
   gs_Namespace (crs_Gateway (router_Spec example_router)) = om_Namespace (gw_Meta owned_gateway)"
proof -
  have safe: "gateway_safe contested_cluster"
    by (simp add: gateway_safe_def contested_cluster_def only_stored_def foreign_uid_def example_router_def spares_def
        example_cell_def effectiveNamespace_def empty_cluster_def)
  have reach: "reachable mem_kube (=) contested_cluster (snd (run_state (Router_Reconcile mem_kube ([], ''edge'')) contested_cluster))"
    by (rule reachable.operator [OF reachable.start operator_step.router_pass])
  have "gateway_safe (snd (run_state (Router_Reconcile mem_kube ([], ''edge'')) contested_cluster))"
    by (rule foreign_gateway_untouched [where env = "(=)", OF mem_gateway_safe _ reach safe]) simp
  then show ?thesis by (simp add: gateway_safe_def only_stored_def example_router_def owned_gateway_def NewMeta_def)
qed

end
